(* ===== verification/Bdfs_Prelude.thy ===== *)
theory Bdfs_Prelude
  imports Main "HOL-Library.Word"
begin

text \<open>
  Shared vocabulary of the development: machine integers, byte strings, errno values,
  the result type of kernel entry points, the list operations behind the kernel's and the
  daemon's linked lists (first match, removal of the first match, update of the first
  match), and two interfaces that several components implement:
  \<^item> \<open>keyed_store\<close>: a table searched by key, with insertion at the tail and removal of
    the first match (the partition registry, the daemon's mount table, the policy rules);
  \<^item> \<open>id_alloc\<close>: a table whose entries are numbered by a 64-bit counter (image ids,
    subvolume sequence numbers, policy rule ids).
\<close>

section \<open>Machine integers, UUIDs, errno\<close>

type_synonym u8 = "8 word"
type_synonym u16 = "16 word"
type_synonym u32 = "32 word"
type_synonym u64 = "64 word"

type_synonym uuid = "u8 list"

definition zero_uuid :: uuid where
  "zero_uuid = replicate 16 0"

datatype errno =
    EPERM | ENOENT | EINTR | EIO | ECHILD | EAGAIN | ENOMEM | EFAULT | EBUSY | EEXIST
  | EXDEV | EINVAL | ENOTTY | EROFS | ENAMETOOLONG | ENOSYS | EOPNOTSUPP | ETIMEDOUT
  | Eother nat

fun errno_code :: "errno \<Rightarrow> int" where
  "errno_code EPERM = 1"
| "errno_code ENOENT = 2"
| "errno_code EINTR = 4"
| "errno_code EIO = 5"
| "errno_code ECHILD = 10"
| "errno_code EAGAIN = 11"
| "errno_code ENOMEM = 12"
| "errno_code EFAULT = 14"
| "errno_code EBUSY = 16"
| "errno_code EEXIST = 17"
| "errno_code EXDEV = 18"
| "errno_code EINVAL = 22"
| "errno_code ENOTTY = 25"
| "errno_code EROFS = 30"
| "errno_code ENAMETOOLONG = 36"
| "errno_code ENOSYS = 38"
| "errno_code EOPNOTSUPP = 95"
| "errno_code ETIMEDOUT = 110"
| "errno_code (Eother n) = int (Suc n)"

text \<open>
  A kernel entry point either returns a value, returns a negative errno, or does not
  return at all because it dereferences a NULL pointer or reads private data through the
  wrong structure type; the last case is \<open>Oops\<close>.
\<close>

datatype kerr = Eno errno | Oops

type_synonym 'a kres = "kerr + 'a"

named_theorems bdfs_consts "numeric constants of the C headers"
named_theorems bdfs_ops "definitions of operations that proofs unfold"

declare zero_uuid_def [bdfs_consts]

section \<open>Linked-list operations\<close>

fun remove_first :: "('a \<Rightarrow> bool) \<Rightarrow> 'a list \<Rightarrow> 'a list" where
  "remove_first P [] = []"
| "remove_first P (x # xs) = (if P x then xs else x # remove_first P xs)"

fun update_first :: "('a \<Rightarrow> bool) \<Rightarrow> ('a \<Rightarrow> 'a) \<Rightarrow> 'a list \<Rightarrow> 'a list" where
  "update_first P f [] = []"
| "update_first P f (x # xs) = (if P x then f x # xs else x # update_first P f xs)"

section \<open>Lemmas on errno and lists\<close>

lemma errno_code_pos [simp]: "0 < errno_code e"
  by (cases e) auto

lemma errno_code_nonzero [simp]: "errno_code e \<noteq> 0"
  using errno_code_pos [of e] by linarith

lemma length_zero_uuid [simp]: "length zero_uuid = 16"
  by (simp add: zero_uuid_def)

lemma find_append: "List.find P (xs @ ys) =
    (case List.find P xs of None \<Rightarrow> List.find P ys | Some x \<Rightarrow> Some x)"
  by (induction xs) auto

lemma find_SomeD: "List.find P xs = Some x \<Longrightarrow> x \<in> set xs \<and> P x"
  by (induction xs) (auto split: if_splits)

lemma find_None_conv: "List.find P xs = None \<longleftrightarrow> (\<forall>x \<in> set xs. \<not> P x)"
  by (induction xs) auto

lemma find_remove_first_other:
  "(\<And>x. Q x \<Longrightarrow> \<not> P x) \<Longrightarrow> List.find Q (remove_first P xs) = List.find Q xs"
  by (induction xs) auto

lemma remove_first_id: "List.find P xs = None \<Longrightarrow> remove_first P xs = xs"
  by (induction xs) (auto split: if_splits)

lemma set_remove_first_subset: "set (remove_first P xs) \<subseteq> set xs"
  by (induction xs) auto

lemma length_remove_first:
  "List.find P xs = Some x \<Longrightarrow> Suc (length (remove_first P xs)) = length xs"
  by (induction xs) (auto split: if_splits)

lemma remove_first_append_self:
  "List.find P xs = None \<Longrightarrow> P e \<Longrightarrow> remove_first P (xs @ [e]) = xs"
  by (induction xs) (auto split: if_splits)

lemma distinct_map_remove_first: "distinct (map f xs) \<Longrightarrow> distinct (map f (remove_first P xs))"
proof (induction xs)
  case Nil
  then show ?case by simp
next
  case (Cons x xs)
  then show ?case
    using set_remove_first_subset [of P xs] by (auto simp: image_iff)
qed

lemma find_key_remove_first:
  "distinct (map f xs) \<Longrightarrow> List.find (\<lambda>e. f e = k) (remove_first (\<lambda>e. f e = k) xs) = None"
proof (induction xs)
  case Nil
  then show ?case by simp
next
  case (Cons x xs)
  then show ?case by (cases "f x = k") (auto simp: find_None_conv image_iff)
qed

lemma length_update_first [simp]: "length (update_first P f xs) = length xs"
  by (induction xs) auto

lemma map_update_first:
  "(\<And>x. P x \<Longrightarrow> g (f x) = g x) \<Longrightarrow> map g (update_first P f xs) = map g xs"
  by (induction xs) auto

lemma find_update_first_same:
  "(\<And>x. P x \<Longrightarrow> P (f x)) \<Longrightarrow>
   List.find P (update_first P f xs) = map_option f (List.find P xs)"
  by (induction xs) auto

lemma find_update_first_other:
  "(\<And>x. P x \<Longrightarrow> \<not> Q x \<and> \<not> Q (f x)) \<Longrightarrow> List.find Q (update_first P f xs) = List.find Q xs"
  by (induction xs) auto

lemma update_first_id: "List.find P xs = None \<Longrightarrow> update_first P f xs = xs"
  by (induction xs) (auto split: if_splits)

lemma set_update_first:
  "List.find P xs = Some e \<Longrightarrow> set (update_first P f xs) \<subseteq> insert (f e) (set xs)"
  by (induction xs) (auto split: if_splits)

lemma unat_Suc_below: "(x :: 'a :: len word) < y \<Longrightarrow> unat (x + 1) = Suc (unat x)"
proof -
  assume "x < y"
  then have "unat x < unat y" by (simp add: word_less_nat_alt)
  moreover have "unat y < 2 ^ LENGTH('a)" by (rule unsigned_less)
  ultimately have "Suc (unat x) < 2 ^ LENGTH('a)" by linarith
  then show ?thesis by (simp add: unat_word_ariths(1))
qed

section \<open>Interface: a table searched by key\<close>

locale keyed_store =
  fixes key :: "'e \<Rightarrow> 'k"
    and elems :: "'s \<Rightarrow> 'e list"
    and add :: "'e \<Rightarrow> 's \<Rightarrow> 's"
    and del :: "'k \<Rightarrow> 's \<Rightarrow> 's"
    and look :: "'k \<Rightarrow> 's \<Rightarrow> 'e option"
  assumes elems_add: "elems (add e s) = elems s @ [e]"
    and elems_del: "elems (del k s) = remove_first (\<lambda>e. key e = k) (elems s)"
    and look_elems: "look k s = List.find (\<lambda>e. key e = k) (elems s)"
begin

lemma look_add:
  "look k (add e s) =
     (case look k s of Some x \<Rightarrow> Some x | None \<Rightarrow> if key e = k then Some e else None)"
  by (simp add: look_elems elems_add find_append split: option.split)

lemma look_add_fresh: "look (key e) s = None \<Longrightarrow> look (key e) (add e s) = Some e"
  by (simp add: look_add)

lemma look_del_other: "k' \<noteq> k \<Longrightarrow> look k' (del k s) = look k' s"
  by (auto simp: look_elems elems_del intro!: find_remove_first_other)

lemma look_del_same: "distinct (map key (elems s)) \<Longrightarrow> look k (del k s) = None"
  by (simp add: look_elems elems_del find_key_remove_first)

lemma look_in_elems: "look k s = Some e \<Longrightarrow> e \<in> set (elems s) \<and> key e = k"
  by (auto simp: look_elems dest: find_SomeD)

lemma del_absent: "look k s = None \<Longrightarrow> elems (del k s) = elems s"
  by (simp add: look_elems elems_del remove_first_id)

lemma del_add_roundtrip: "look (key e) s = None \<Longrightarrow> elems (del (key e) (add e s)) = elems s"
  by (simp add: look_elems elems_del elems_add remove_first_append_self)

lemma distinct_add:
  "distinct (map key (elems s)) \<Longrightarrow> look (key e) s = None \<Longrightarrow>
   distinct (map key (elems (add e s)))"
  by (auto simp: elems_add look_elems find_None_conv)

lemma distinct_del:
  "distinct (map key (elems s)) \<Longrightarrow> distinct (map key (elems (del k s)))"
  by (simp add: elems_del distinct_map_remove_first)

lemma length_del: "look k s = Some e \<Longrightarrow> Suc (length (elems (del k s))) = length (elems s)"
  by (simp add: look_elems elems_del length_remove_first)

end

section \<open>Interface: entries numbered by a 64-bit counter\<close>

text \<open>
  A counter that starts at 1 and a table that only grows: the ids are 1, 2, ..., taken
  modulo \<open>2 ^ 64\<close>.
\<close>

definition seq_ids :: "u64 list \<Rightarrow> u64 \<Rightarrow> bool" where
  "seq_ids ids nxt \<longleftrightarrow>
     ids = map (\<lambda>i. of_nat (Suc i)) [0..<length ids] \<and> nxt = of_nat (Suc (length ids))"

text \<open>A table that also shrinks: the ids in use are distinct and below the counter.\<close>

definition fresh_ids :: "u64 list \<Rightarrow> u64 \<Rightarrow> bool" where
  "fresh_ids ids nxt \<longleftrightarrow> distinct ids \<and> (\<forall>i \<in> set ids. i < nxt)"

lemma seq_ids_Nil [simp]: "seq_ids [] 1"
  by (simp add: seq_ids_def)

lemma seq_ids_snoc: "seq_ids ids nxt \<Longrightarrow> seq_ids (ids @ [nxt]) (nxt + 1)"
  by (simp add: seq_ids_def)

lemma seq_ids_nth: "seq_ids ids nxt \<Longrightarrow> i < length ids \<Longrightarrow> ids ! i = of_nat (Suc i)"
proof -
  assume "seq_ids ids nxt" and i: "i < length ids"
  then have "ids ! i = map (\<lambda>i. of_nat (Suc i)) [0..<length ids] ! i"
    unfolding seq_ids_def by (metis (no_types))
  then show ?thesis using i by simp
qed

lemma of_nat_Suc_u64_inj:
  assumes "(of_nat (Suc i) :: u64) = of_nat (Suc j)" and "i < 2 ^ 64" and "j < 2 ^ 64"
  shows "i = j"
proof -
  have "(of_nat i :: u64) = of_nat j" using assms(1) by simp
  then have "unat (of_nat i :: u64) = unat (of_nat j :: u64)" by simp
  then show ?thesis using assms(2,3) by (simp add: unsigned_of_nat take_bit_nat_eq_self)
qed

lemma seq_ids_distinct:
  assumes "seq_ids ids nxt" and "length ids < 2 ^ 64"
  shows "distinct ids"
proof -
  have "i = j" if "i < length ids" "j < length ids" "ids ! i = ids ! j" for i j
  proof (rule of_nat_Suc_u64_inj)
    show "(of_nat (Suc i) :: u64) = of_nat (Suc j)"
      using that seq_ids_nth [OF assms(1)] by metis
    show "i < 2 ^ 64" "j < 2 ^ 64" using that assms(2) by linarith+
  qed
  then show ?thesis by (auto simp: distinct_conv_nth)
qed

locale id_alloc =
  fixes ids :: "'s \<Rightarrow> u64 list"
    and nxt :: "'s \<Rightarrow> u64"
    and alloc :: "'e \<Rightarrow> 's \<Rightarrow> 's"
  assumes ids_alloc: "ids (alloc e s) = ids s @ [nxt s]"
    and nxt_alloc: "nxt (alloc e s) = nxt s + 1"
begin

lemma seq_alloc: "seq_ids (ids s) (nxt s) \<Longrightarrow> seq_ids (ids (alloc e s)) (nxt (alloc e s))"
  by (simp add: ids_alloc nxt_alloc seq_ids_snoc)

lemma fresh_alloc:
  assumes "fresh_ids (ids s) (nxt s)" and "nxt s < nxt s + 1"
  shows "fresh_ids (ids (alloc e s)) (nxt (alloc e s))"
proof -
  have "nxt s \<notin> set (ids s)"
    using assms(1) by (auto simp: fresh_ids_def)
  moreover have "\<forall>i \<in> set (ids s). i < nxt s + 1"
    using assms by (auto simp: fresh_ids_def intro: less_trans)
  ultimately show ?thesis
    using assms by (auto simp: fresh_ids_def ids_alloc nxt_alloc)
qed

lemma fresh_not_reused: "fresh_ids (ids s) (nxt s) \<Longrightarrow> nxt s \<notin> set (ids s)"
  by (auto simp: fresh_ids_def)

end

end
