(* ===== verification/Bdfs_CLib.thy ===== *)
theory Bdfs_CLib
  imports Bdfs_Prelude
begin

text \<open>
  The part of the C library the sources use on strings, as functions on \<open>string\<close>.
  A character array is represented by its contents up to the terminating NUL, so
  \<open>x[0]\<close> being zero is \<open>x = []\<close>.  Bounded copies and prints cut their result to the
  size of the destination minus the terminator.  \<open>sscanf\<close> takes its format as a list of
  directives and returns the values it assigns, in order, up to the first directive that
  does not match; the caller keeps its defaults for the rest.  Number conversions follow
  glibc on a 64-bit target: a value too large for 64 bits is \<open>ULLONG_MAX\<close>, a 32-bit
  conversion keeps the low 32 bits.
\<close>

section \<open>Bounded copies\<close>

text \<open>\<open>strscpy(dst, src, n)\<close> and \<open>snprintf(dst, n, ...)\<close>: at most \<open>n - 1\<close> bytes.\<close>

definition strscpy :: "nat \<Rightarrow> string \<Rightarrow> string" where
  "strscpy n s = take (n - 1) s"

definition snprintf :: "nat \<Rightarrow> string \<Rightarrow> string" where
  "snprintf n s = take (n - 1) s"

text \<open>\<open>strncpy(dst, src, n)\<close> into a zeroed array longer than \<open>n\<close>.\<close>

definition strncpy :: "nat \<Rightarrow> string \<Rightarrow> string" where
  "strncpy n s = take n s"

section \<open>Searching\<close>

fun strstr :: "string \<Rightarrow> string \<Rightarrow> string option" where
  "strstr [] pat = (if pat = [] then Some [] else None)"
| "strstr (c # cs) pat =
     (if take (length pat) (c # cs) = pat then Some (c # cs) else strstr cs pat)"

text \<open>\<open>strchr(s, c)\<close>, as the pair of what precedes the first \<open>c\<close> and what starts there.\<close>

definition strchr :: "string \<Rightarrow> char \<Rightarrow> string option" where
  "strchr s c = (case dropWhile (\<lambda>x. x \<noteq> c) s of [] \<Rightarrow> None | r \<Rightarrow> Some r)"

definition strrchr_index :: "string \<Rightarrow> char \<Rightarrow> nat option" where
  "strrchr_index s c =
     (if c \<in> set s then Some (length s - 1 - length (takeWhile (\<lambda>x. x \<noteq> c) (rev s))) else None)"

section \<open>Printing numbers\<close>

definition digit_char :: "nat \<Rightarrow> char" where
  "digit_char d = (if d < 10 then char_of (48 + d) else char_of (87 + d))"

fun dec :: "nat \<Rightarrow> string" where
  "dec n = (if n < 10 then [digit_char n] else dec (n div 10) @ [digit_char (n mod 10)])"

fun hex :: "nat \<Rightarrow> string" where
  "hex n = (if n < 16 then [digit_char n] else hex (n div 16) @ [digit_char (n mod 16)])"

declare dec.simps [simp del]
declare hex.simps [simp del]

definition sdec :: "int \<Rightarrow> string" where
  "sdec i = (if i < 0 then CHR ''-'' # dec (nat (- i)) else dec (nat i))"

text \<open>\<open>%02x\<close>\<close>

definition hex2 :: "u8 \<Rightarrow> string" where
  "hex2 b = [digit_char (unat b div 16), digit_char (unat b mod 16)]"

section \<open>Reading numbers\<close>

definition is_space :: "char \<Rightarrow> bool" where
  "is_space c = (let k = (of_char c :: nat) in k = 32 \<or> (9 \<le> k \<and> k \<le> 13))"

definition dec_val :: "char \<Rightarrow> nat option" where
  "dec_val c = (let k = (of_char c :: nat) in if 48 \<le> k \<and> k \<le> 57 then Some (k - 48) else None)"

definition hex_val :: "char \<Rightarrow> nat option" where
  "hex_val c = (let k = (of_char c :: nat) in
     if 48 \<le> k \<and> k \<le> 57 then Some (k - 48)
     else if 97 \<le> k \<and> k \<le> 102 then Some (k - 87)
     else if 65 \<le> k \<and> k \<le> 70 then Some (k - 55)
     else None)"

text \<open>
  Digits from the front of a string: the value accumulated, how many were read, and the
  rest; \<open>w\<close> bounds how many characters may be taken.
\<close>

fun scan_digits :: "(char \<Rightarrow> nat option) \<Rightarrow> nat \<Rightarrow> nat \<Rightarrow> nat \<Rightarrow> nat \<Rightarrow> string \<Rightarrow> nat \<times> nat \<times> string" where
  "scan_digits val base w acc n [] = (acc, n, [])"
| "scan_digits val base w acc n (c # cs) =
     (case val c of
        Some d \<Rightarrow> if n < w then scan_digits val base w (acc * base + d) (Suc n) cs else (acc, n, c # cs)
      | None \<Rightarrow> (acc, n, c # cs))"

definition scan_sign :: "string \<Rightarrow> bool \<times> string" where
  "scan_sign s =
     (case s of [] \<Rightarrow> (False, [])
      | c # cs \<Rightarrow> if c = CHR ''-'' then (True, cs) else if c = CHR ''+'' then (False, cs) else (False, s))"

text \<open>A decimal number after optional white space and sign; \<open>None\<close> when there is no digit.\<close>

definition scan_dec :: "string \<Rightarrow> (bool \<times> nat \<times> string) option" where
  "scan_dec s =
     (let (neg, s1) = scan_sign (dropWhile is_space s);
          (v, n, r) = scan_digits dec_val 10 (length s1) 0 0 s1
      in if n = 0 then None else Some (neg, v, r))"

text \<open>
  A hexadecimal number of at most \<open>w\<close> characters, sign and \<open>0x\<close> prefix counted.
\<close>

definition scan_hex :: "nat \<Rightarrow> string \<Rightarrow> (bool \<times> nat \<times> string) option" where
  "scan_hex w s =
     (let s0 = dropWhile is_space s;
          (neg, s1) = scan_sign s0;
          w1 = w - (length s0 - length s1);
          pre = (3 \<le> w1 \<and> (take 2 s1 = ''0x'' \<or> take 2 s1 = ''0X'') \<and>
                 (case drop 2 s1 of [] \<Rightarrow> False | c # _ \<Rightarrow> hex_val c \<noteq> None));
          s2 = (if pre then drop 2 s1 else s1);
          (v, n, r) = scan_digits hex_val 16 (if pre then w1 - 2 else w1) 0 0 s2
      in if n = 0 then None else Some (neg, v, r))"

definition conv_u64 :: "bool \<Rightarrow> nat \<Rightarrow> u64" where
  "conv_u64 neg v = (if 2 ^ 64 \<le> v then - 1 else if neg then - of_nat v else of_nat v)"

definition conv_u32 :: "bool \<Rightarrow> nat \<Rightarrow> u32" where
  "conv_u32 neg v = ucast (conv_u64 neg v)"

text \<open>\<open>%d\<close> reads through a 64-bit signed conversion that saturates, then keeps 32 bits.\<close>

definition conv_s32 :: "bool \<Rightarrow> nat \<Rightarrow> u32" where
  "conv_s32 neg v =
     (if neg then of_int (- int (min v (2 ^ 63))) else of_nat (min v (2 ^ 63 - 1)))"

text \<open>\<open>strtoull(s, NULL, 10)\<close> and \<open>(uint32_t)atoi(s)\<close>; no digits give 0.\<close>

definition strtoull10 :: "string \<Rightarrow> u64" where
  "strtoull10 s = (case scan_dec s of None \<Rightarrow> 0 | Some (neg, v, _) \<Rightarrow> conv_u64 neg v)"

definition atoi_u32 :: "string \<Rightarrow> u32" where
  "atoi_u32 s = (case scan_dec s of None \<Rightarrow> 0 | Some (neg, v, _) \<Rightarrow> conv_s32 neg v)"

section \<open>sscanf\<close>

datatype sconv = SLit char | SWs | SU64 | SU32 | SX32 | SD32 | SXw nat | SStr nat

datatype sval = V64 u64 | V32 u32 | VS string

definition lits :: "string \<Rightarrow> sconv list" where
  "lits s = map (\<lambda>c. if is_space c then SWs else SLit c) s"

fun sscanf :: "sconv list \<Rightarrow> string \<Rightarrow> sval list" where
  "sscanf [] s = []"
| "sscanf (SLit c # fs) s =
     (case s of [] \<Rightarrow> [] | x # xs \<Rightarrow> if x = c then sscanf fs xs else [])"
| "sscanf (SWs # fs) s = sscanf fs (dropWhile is_space s)"
| "sscanf (SU64 # fs) s =
     (case scan_dec s of None \<Rightarrow> [] | Some (neg, v, r) \<Rightarrow> V64 (conv_u64 neg v) # sscanf fs r)"
| "sscanf (SU32 # fs) s =
     (case scan_dec s of None \<Rightarrow> [] | Some (neg, v, r) \<Rightarrow> V32 (conv_u32 neg v) # sscanf fs r)"
| "sscanf (SD32 # fs) s =
     (case scan_dec s of None \<Rightarrow> [] | Some (neg, v, r) \<Rightarrow> V32 (conv_s32 neg v) # sscanf fs r)"
| "sscanf (SX32 # fs) s =
     (case scan_hex (length s) s of None \<Rightarrow> []
      | Some (neg, v, r) \<Rightarrow> V32 (conv_u32 neg v) # sscanf fs r)"
| "sscanf (SXw w # fs) s =
     (case scan_hex w s of None \<Rightarrow> [] | Some (neg, v, r) \<Rightarrow> V32 (conv_u32 neg v) # sscanf fs r)"
| "sscanf (SStr w # fs) s =
     (let s' = dropWhile is_space s; t = take w (takeWhile (\<lambda>c. \<not> is_space c) s')
      in if t = [] then [] else VS t # sscanf fs (drop (length t) s'))"

text \<open>The value a variable holds after \<open>sscanf\<close>: the assigned one or its default.\<close>

definition sval64 :: "sval list \<Rightarrow> nat \<Rightarrow> u64 \<Rightarrow> u64" where
  "sval64 vs i dflt = (if i < length vs then (case vs ! i of V64 x \<Rightarrow> x | _ \<Rightarrow> dflt) else dflt)"

definition sval32 :: "sval list \<Rightarrow> nat \<Rightarrow> u32 \<Rightarrow> u32" where
  "sval32 vs i dflt = (if i < length vs then (case vs ! i of V32 x \<Rightarrow> x | _ \<Rightarrow> dflt) else dflt)"

definition svalS :: "sval list \<Rightarrow> nat \<Rightarrow> string \<Rightarrow> string" where
  "svalS vs i dflt = (if i < length vs then (case vs ! i of VS x \<Rightarrow> x | _ \<Rightarrow> dflt) else dflt)"

section \<open>Bounded copies keep short strings\<close>

lemma strscpy_short [simp]: "length s < n \<Longrightarrow> strscpy n s = s"
  by (simp add: strscpy_def)

lemma snprintf_short [simp]: "length s < n \<Longrightarrow> snprintf n s = s"
  by (simp add: snprintf_def)

lemma strncpy_short [simp]: "length s \<le> n \<Longrightarrow> strncpy n s = s"
  by (simp add: strncpy_def)

lemma length_strscpy: "0 < n \<Longrightarrow> length (strscpy n s) < n"
  by (simp add: strscpy_def min_def) linarith

lemma length_snprintf: "0 < n \<Longrightarrow> length (snprintf n s) < n"
  by (simp add: snprintf_def min_def) linarith

section \<open>Digits\<close>

lemma dec_val_digit_char [simp]: "d < 10 \<Longrightarrow> dec_val (digit_char d) = Some d"
  by (simp add: dec_val_def digit_char_def Let_def)

lemma hex_val_digit_char [simp]: "d < 16 \<Longrightarrow> hex_val (digit_char d) = Some d"
  by (auto simp: hex_val_def digit_char_def Let_def)

lemma digit_char_not_space: "d < 16 \<Longrightarrow> \<not> is_space (digit_char d)"
  by (auto simp: is_space_def digit_char_def Let_def)

lemma digit_char_code: "d < 16 \<Longrightarrow> (of_char (digit_char d) :: nat) = (if d < 10 then 48 + d else 87 + d)"
  by (auto simp: digit_char_def)

lemma dec_nonempty [simp]: "dec n \<noteq> []"
  by (subst dec.simps) simp

lemma hex_nonempty [simp]: "hex n \<noteq> []"
  by (subst hex.simps) simp

lemma dec_digits: "c \<in> set (dec n) \<Longrightarrow> \<exists>d < 10. c = digit_char d"
proof (induction n rule: dec.induct)
  case (1 n)
  show ?case
  proof (cases "n < 10")
    case True
    with "1.prems" show ?thesis by (subst (asm) dec.simps) auto
  next
    case False
    with "1.prems" have "c \<in> set (dec (n div 10)) \<or> c = digit_char (n mod 10)"
      by (subst (asm) dec.simps) auto
    with "1.IH" [OF False] show ?thesis by (auto intro: exI [of _ "n mod 10"])
  qed
qed

lemma hex_digits: "c \<in> set (hex n) \<Longrightarrow> \<exists>d < 16. c = digit_char d"
proof (induction n rule: hex.induct)
  case (1 n)
  show ?case
  proof (cases "n < 16")
    case True
    with "1.prems" show ?thesis by (subst (asm) hex.simps) auto
  next
    case False
    with "1.prems" have "c \<in> set (hex (n div 16)) \<or> c = digit_char (n mod 16)"
      by (subst (asm) hex.simps) auto
    with "1.IH" [OF False] show ?thesis by (auto intro: exI [of _ "n mod 16"])
  qed
qed

section \<open>Reading back printed numbers\<close>

text \<open>What a string must not start with for a number before it to end there.\<close>

fun stops :: "(char \<Rightarrow> nat option) \<Rightarrow> string \<Rightarrow> bool" where
  "stops val [] = True"
| "stops val (c # cs) = (val c = None)"

lemma scan_digits_stop: "stops val r \<Longrightarrow> scan_digits val base w acc n r = (acc, n, r)"
  by (cases r) auto

lemma scan_digits_dec:
  "length (dec m) + n \<le> w \<Longrightarrow>
   scan_digits dec_val 10 w acc n (dec m @ r) =
   scan_digits dec_val 10 w (acc * 10 ^ length (dec m) + m) (n + length (dec m)) r"
proof (induction m arbitrary: r rule: dec.induct)
  case (1 m)
  show ?case
  proof (cases "m < 10")
    case True
    have "dec m = [digit_char m]" using True by (subst dec.simps) simp
    then show ?thesis using "1.prems" True by simp
  next
    case False
    have d: "dec m = dec (m div 10) @ [digit_char (m mod 10)]"
      using False by (subst dec.simps) simp
    have "scan_digits dec_val 10 w acc n (dec (m div 10) @ digit_char (m mod 10) # r) =
        scan_digits dec_val 10 w (acc * 10 ^ length (dec (m div 10)) + m div 10)
          (n + length (dec (m div 10))) (digit_char (m mod 10) # r)"
      using "1.prems" by (intro "1.IH" [OF False]) (simp add: d)
    also have "\<dots> = scan_digits dec_val 10 w (acc * 10 ^ length (dec m) + m) (n + length (dec m)) r"
      using "1.prems" by (simp add: d algebra_simps)
    finally show ?thesis by (simp add: d)
  qed
qed

lemma scan_digits_hex:
  "length (hex m) + n \<le> w \<Longrightarrow>
   scan_digits hex_val 16 w acc n (hex m @ r) =
   scan_digits hex_val 16 w (acc * 16 ^ length (hex m) + m) (n + length (hex m)) r"
proof (induction m arbitrary: r rule: hex.induct)
  case (1 m)
  show ?case
  proof (cases "m < 16")
    case True
    have "hex m = [digit_char m]" using True by (subst hex.simps) simp
    then show ?thesis using "1.prems" True by simp
  next
    case False
    have d: "hex m = hex (m div 16) @ [digit_char (m mod 16)]"
      using False by (subst hex.simps) simp
    have "scan_digits hex_val 16 w acc n (hex (m div 16) @ digit_char (m mod 16) # r) =
        scan_digits hex_val 16 w (acc * 16 ^ length (hex (m div 16)) + m div 16)
          (n + length (hex (m div 16))) (digit_char (m mod 16) # r)"
      using "1.prems" by (intro "1.IH" [OF False]) (simp add: d)
    also have "\<dots> = scan_digits hex_val 16 w (acc * 16 ^ length (hex m) + m) (n + length (hex m)) r"
      using "1.prems" by (simp add: d algebra_simps)
    finally show ?thesis by (simp add: d)
  qed
qed

lemma dec_head: "\<exists>d cs. d < 10 \<and> dec n = digit_char d # cs"
proof -
  obtain c cs where e: "dec n = c # cs" by (cases "dec n") auto
  then obtain d where "d < 10" "c = digit_char d" using dec_digits [of c n] by auto
  with e show ?thesis by blast
qed

lemma hex_head: "\<exists>d cs. d < 16 \<and> hex n = digit_char d # cs"
proof -
  obtain c cs where e: "hex n = c # cs" by (cases "hex n") auto
  then obtain d where "d < 16" "c = digit_char d" using hex_digits [of c n] by auto
  with e show ?thesis by blast
qed

lemma digit_char_not_sign: "d < 16 \<Longrightarrow> digit_char d \<noteq> CHR ''-'' \<and> digit_char d \<noteq> CHR ''+''"
proof -
  assume "d < 16"
  then have "(of_char (digit_char d) :: nat) \<noteq> 45 \<and> (of_char (digit_char d) :: nat) \<noteq> 43"
    by (simp add: digit_char_code)
  then show ?thesis by auto
qed

theorem scan_dec_dec [simp]: "stops dec_val r \<Longrightarrow> scan_dec (dec n @ r) = Some (False, n, r)"
proof -
  assume st: "stops dec_val r"
  obtain d cs where d: "d < 10" "dec n = digit_char d # cs" using dec_head by blast
  have sp: "dropWhile is_space (dec n @ r) = dec n @ r"
    using d digit_char_not_space [of d] by simp
  have sg: "scan_sign (dec n @ r) = (False, dec n @ r)"
    using d digit_char_not_sign [of d] by (simp add: scan_sign_def)
  show ?thesis
    using st by (simp add: scan_dec_def sp sg scan_digits_dec scan_digits_stop)
qed

lemma not_0x_hex: "take 2 (hex n @ r) \<noteq> ''0x'' \<and> take 2 (hex n @ r) \<noteq> ''0X''"
  if "stops hex_val r" and "r = [] \<or> (hd r \<noteq> CHR ''x'' \<and> hd r \<noteq> CHR ''X'')"
proof -
  have ne: "digit_char d \<noteq> CHR ''x'' \<and> digit_char d \<noteq> CHR ''X''" if "d < 16" for d
  proof -
    have "(of_char (digit_char d) :: nat) \<noteq> 120 \<and> (of_char (digit_char d) :: nat) \<noteq> 88"
      using that by (simp add: digit_char_code)
    then show ?thesis by auto
  qed
  obtain d cs where d: "d < 16" "hex n = digit_char d # cs" using hex_head by blast
  show ?thesis
  proof (cases cs)
    case Nil
    then show ?thesis using that(2) d by (cases r) auto
  next
    case (Cons c cs')
    then obtain d' where "d' < 16" "c = digit_char d'"
      using hex_digits [of c n] d by auto
    then show ?thesis using Cons d ne by simp
  qed
qed

theorem scan_hex_hex:
  "stops hex_val r \<Longrightarrow> r = [] \<or> (hd r \<noteq> CHR ''x'' \<and> hd r \<noteq> CHR ''X'') \<Longrightarrow>
   length (hex n) \<le> w \<Longrightarrow> scan_hex w (hex n @ r) = Some (False, n, r)"
proof -
  assume st: "stops hex_val r" and nx: "r = [] \<or> (hd r \<noteq> CHR ''x'' \<and> hd r \<noteq> CHR ''X'')"
    and w: "length (hex n) \<le> w"
  obtain d cs where d: "d < 16" "hex n = digit_char d # cs" using hex_head by blast
  have sp: "dropWhile is_space (hex n @ r) = hex n @ r"
    using d digit_char_not_space [of d] by simp
  have sg: "scan_sign (hex n @ r) = (False, hex n @ r)"
    using d digit_char_not_sign [of d] by (simp add: scan_sign_def)
  have px: "take 2 (hex n @ r) \<noteq> ''0x''" "take 2 (hex n @ r) \<noteq> ''0X''"
    using not_0x_hex [OF st nx] by auto
  show ?thesis
    using st w px by (simp add: scan_hex_def sp sg scan_digits_hex scan_digits_stop Let_def)
qed

lemma conv_u64_small [simp]: "v < 2 ^ 64 \<Longrightarrow> conv_u64 False v = of_nat v"
  by (simp add: conv_u64_def)

lemma conv_u64_unat [simp]: "conv_u64 False (unat (x :: u64)) = x"
proof -
  have "unat x < 2 ^ 64" using unsigned_less [of x] by simp
  then show ?thesis by simp
qed

lemma conv_u32_unat [simp]: "conv_u32 False (unat (x :: u32)) = x"
proof -
  have "unat x < 2 ^ 32" using unsigned_less [of x] by simp
  moreover have "ucast (ucast x :: u64) = x"
    by (rule ucast_up_ucast_id) (simp add: is_up)
  ultimately show ?thesis by (simp add: conv_u32_def conv_u64_def)
qed

section \<open>sscanf on printed text\<close>

lemma lits_simps [simp]:
  "lits [] = []"
  "lits (c # cs) = (if is_space c then SWs else SLit c) # lits cs"
  by (simp_all add: lits_def)

lemma sscanf_str:
  assumes "t \<noteq> []" and "\<forall>c \<in> set t. \<not> is_space c" and "length t \<le> w"
    and "r = [] \<or> is_space (hd r)"
  shows "sscanf (SStr w # fs) (t @ r) = VS t # sscanf fs r"
proof -
  have d: "dropWhile is_space (t @ r) = t @ r"
    using assms(1,2) by (cases t) auto
  have k: "takeWhile (\<lambda>c. \<not> is_space c) (t @ r) = t"
    using assms(2,4) by (cases r) (auto simp: takeWhile_append)
  have w: "0 < w" using assms(1,3) by (cases t) auto
  show ?thesis using assms(1,3) w by (simp add: d k Let_def)
qed

section \<open>Searching past text without the pattern's first character\<close>

lemma strstr_self [simp]: "strstr (pat @ s) pat = Some (pat @ s)"
proof (cases "pat @ s")
  case (Cons a list)
  then have "take (length pat) (a # list) = pat" by (metis append_eq_conv_conj)
  then show ?thesis using Cons by simp
qed simp

lemma strstr_skip: "c \<notin> set x \<Longrightarrow> strstr (x @ r) (c # p) = strstr r (c # p)"
  by (induction x) auto

lemma strstr_suffix: "strstr s pat = Some r \<Longrightarrow> \<exists>pre post. s = pre @ r \<and> r = pat @ post"
proof (induction s)
  case Nil
  then show ?case by (auto split: if_splits)
next
  case (Cons c cs)
  show ?case
  proof (cases "take (length pat) (c # cs) = pat")
    case True
    with Cons.prems have "r = c # cs" by auto
    then show ?thesis
      using True by (metis append_Nil append_take_drop_id)
  next
    case False
    with Cons.prems have "strstr cs pat = Some r" by auto
    with Cons.IH obtain pre post where "cs = pre @ r" "r = pat @ post" by blast
    then show ?thesis by (metis append_Cons)
  qed
qed

section \<open>Searching for quoted words\<close>

lemma take_segment:
  assumes "take n (y @ q # r) = p" and "q \<notin> set y" and "q \<in> set p"
  shows "y = takeWhile (\<lambda>c. c \<noteq> q) p"
proof -
  have "length y < n"
  proof (rule ccontr)
    assume "\<not> length y < n"
    then have "p = take n y" using assms(1) by simp
    then have "set p \<subseteq> set y" by (simp add: set_take_subset)
    then show False using assms(2,3) by blast
  qed
  then obtain k where "n = Suc (length y + k)" using less_imp_Suc_add by blast
  then have "p = y @ q # take k r" using assms(1) by simp
  moreover have "takeWhile (\<lambda>c. c \<noteq> q) (y @ q # take k r) = y" using assms(2) by (induction y) auto
  ultimately show ?thesis by simp
qed

text \<open>A quoted segment that is not the word is passed over.\<close>

lemma take_segment_miss:
  "q \<notin> set y \<Longrightarrow> q \<in> set p \<Longrightarrow> y \<noteq> takeWhile (\<lambda>c. c \<noteq> q) p \<Longrightarrow> (take n (y @ q # r) = p) = False"
  by (metis take_segment)

text \<open>So is one that the word continues differently behind the quote.\<close>

lemma take_segment_next:
  assumes "q \<notin> set y" and "q \<in> set p" and "tl (dropWhile (\<lambda>x. x \<noteq> q) p) \<noteq> []" and "hd (tl (dropWhile (\<lambda>x. x \<noteq> q) p)) \<noteq> c"
  shows "(take n (y @ q # c # r) = p) = False"
proof (rule notI [THEN Eq_FalseI [THEN meta_eq_to_obj_eq]])
  assume e: "take n (y @ q # c # r) = p"
  obtain k where "p = y @ take k (q # c # r)"
  proof (cases "n < length y")
    case True
    then have "set p \<subseteq> set y" using e by (auto dest: in_set_takeD)
    then show ?thesis using assms(1,2) by blast
  next
    case False
    then show ?thesis using e that [of "n - length y"] by simp
  qed
  note p = this
  have d: "dropWhile (\<lambda>x. x \<noteq> q) (y @ q # t) = q # t" for t using assms(1) by (induction y) auto
  obtain j where j: "k = Suc j" using p assms(1,2) by (cases k) auto
  then have "tl (dropWhile (\<lambda>x. x \<noteq> q) p) = take j (c # r)" using p d by simp
  then show False using assms(3,4) by (cases j) simp_all
qed

section \<open>Length of printed numbers\<close>

lemma length_dec: "n < 10 ^ k \<Longrightarrow> 0 < k \<Longrightarrow> length (dec n) \<le> k"
proof (induction n arbitrary: k rule: dec.induct)
  case (1 n)
  show ?case
  proof (cases "n < 10")
    case True
    then have "dec n = [digit_char n]" by (subst dec.simps) simp
    then show ?thesis using "1.prems" by simp
  next
    case False
    then have d: "dec n = dec (n div 10) @ [digit_char (n mod 10)]" by (subst dec.simps) simp
    have "1 < k" using "1.prems" False by (cases "k = 1") auto
    then obtain k' where k: "k = Suc k'" "0 < k'" by (cases k) auto
    then have "n div 10 < 10 ^ k'" using "1.prems" by (simp add: less_mult_imp_div_less mult.commute)
    with "1.IH" [OF False] k d show ?thesis by simp
  qed
qed

lemma length_hex: "n < 16 ^ k \<Longrightarrow> 0 < k \<Longrightarrow> length (hex n) \<le> k"
proof (induction n arbitrary: k rule: hex.induct)
  case (1 n)
  show ?case
  proof (cases "n < 16")
    case True
    then have "hex n = [digit_char n]" by (subst hex.simps) simp
    then show ?thesis using "1.prems" by simp
  next
    case False
    then have d: "hex n = hex (n div 16) @ [digit_char (n mod 16)]" by (subst hex.simps) simp
    have "1 < k" using "1.prems" False by (cases "k = 1") auto
    then obtain k' where k: "k = Suc k'" "0 < k'" by (cases k) auto
    then have "n div 16 < 16 ^ k'" using "1.prems" by (simp add: less_mult_imp_div_less mult.commute)
    with "1.IH" [OF False] k d show ?thesis by simp
  qed
qed

lemma length_dec_u64: "length (dec (unat (x :: u64))) \<le> 20"
proof (rule length_dec)
  have "unat x < 2 ^ 64" using unsigned_less [of x] by simp
  then show "unat x < 10 ^ 20" by simp
qed simp

lemma length_dec_u32: "length (dec (unat (x :: u32))) \<le> 10"
proof (rule length_dec)
  have "unat x < 2 ^ 32" using unsigned_less [of x] by simp
  then show "unat x < 10 ^ 10" by simp
qed simp

lemma length_hex_u32: "length (hex (unat (x :: u32))) \<le> 8"
proof (rule length_hex)
  show "unat x < 16 ^ 8" using unsigned_less [of x] by simp
qed simp

end
