(* ===== verification/Bdfs_Types.thy ===== *)
theory Bdfs_Types
  imports Bdfs_CLib
begin

text \<open>
  The structures and constants of \<open>include/btrfs_dwarfs/types.h\<close> and
  \<open>include/uapi/bdfs_ioctl.h\<close>.  A struct is a record with the fields of the source, a
  prefix telling apart fields of the same name; padding is left out.  A character array
  is the string up to its NUL (an array that user space leaves unterminated is outside
  the model), a UUID the list of its 16 bytes, a C pointer to a caller's buffer the fact
  that it is not NULL.  Constants are abbreviations, so they compute.
\<close>

section \<open>types.h\<close>

abbreviation (input) BDFS_MAGIC :: u32 where "BDFS_MAGIC \<equiv> 0xBD75F530"
abbreviation (input) BDFS_NAME_MAX :: nat where "BDFS_NAME_MAX \<equiv> 255"
abbreviation (input) BDFS_PATH_MAX :: nat where "BDFS_PATH_MAX \<equiv> 4096"
abbreviation (input) BDFS_LABEL_MAX :: nat where "BDFS_LABEL_MAX \<equiv> 256"
abbreviation (input) BDFS_MAX_PARTITIONS :: nat where "BDFS_MAX_PARTITIONS \<equiv> 64"
abbreviation (input) BDFS_MAX_DWARFS_IMAGES :: nat where "BDFS_MAX_DWARFS_IMAGES \<equiv> 1024"
abbreviation (input) BDFS_MSG_MAX :: nat where "BDFS_MSG_MAX \<equiv> 256"

text \<open>\<open>enum bdfs_partition_type\<close>: the field is an unchecked 32-bit number.\<close>

abbreviation (input) BDFS_PART_UNKNOWN :: u32 where "BDFS_PART_UNKNOWN \<equiv> 0"
abbreviation (input) BDFS_PART_DWARFS_BACKED :: u32 where "BDFS_PART_DWARFS_BACKED \<equiv> 1"
abbreviation (input) BDFS_PART_BTRFS_BACKED :: u32 where "BDFS_PART_BTRFS_BACKED \<equiv> 2"
abbreviation (input) BDFS_PART_HYBRID_BLEND :: u32 where "BDFS_PART_HYBRID_BLEND \<equiv> 3"

text \<open>\<open>enum bdfs_dwarfs_compression\<close>\<close>

abbreviation (input) BDFS_COMPRESS_NONE :: u32 where "BDFS_COMPRESS_NONE \<equiv> 0"
abbreviation (input) BDFS_COMPRESS_LZMA :: u32 where "BDFS_COMPRESS_LZMA \<equiv> 1"
abbreviation (input) BDFS_COMPRESS_ZSTD :: u32 where "BDFS_COMPRESS_ZSTD \<equiv> 2"
abbreviation (input) BDFS_COMPRESS_LZ4 :: u32 where "BDFS_COMPRESS_LZ4 \<equiv> 3"
abbreviation (input) BDFS_COMPRESS_BROTLI :: u32 where "BDFS_COMPRESS_BROTLI \<equiv> 4"

record bdfs_btrfs_subvol =
  sv_subvol_id :: u64
  sv_parent_id :: u64
  sv_generation :: u64
  sv_ctransid :: u64
  sv_otransid :: u64
  sv_stransid :: u64
  sv_rtransid :: u64
  sv_uuid :: uuid
  sv_parent_uuid :: uuid
  sv_received_uuid :: uuid
  sv_flags :: u64
  sv_name :: string
  sv_path :: string
  sv_is_snapshot :: u8
  sv_is_readonly :: u8

record bdfs_dwarfs_image =
  img_image_id :: u64
  img_size_bytes :: u64
  img_uncompressed_bytes :: u64
  img_inode_count :: u64
  img_block_count :: u64
  img_schema_version :: u32
  img_compression :: u32
  img_uuid :: uuid
  img_name :: string
  img_backing_path :: string
  img_mounted :: u8
  img_mount_point :: string

record bdfs_partition =
  part_magic :: u32
  part_version_major :: u16
  part_version_minor :: u16
  part_type :: u32
  part_flags :: u32
  part_uuid :: uuid
  part_label :: string
  part_device_path :: string
  part_mount_point :: string
  part_btrfs_fsid :: "u64 \<times> u64"
  part_btrfs_subvol_count :: u64
  part_btrfs_snapshot_count :: u64
  part_dwarfs_image_count :: u64
  part_dwarfs_default_compression :: u32
  part_dwarfs_block_size_bits :: u32
  part_blend_btrfs_uuid :: uuid
  part_blend_dwarfs_uuid :: uuid
  part_blend_mount_point :: string

record bdfs_mount_opts =
  mo_flags :: u32
  mo_compression :: u32
  mo_block_size_bits :: u32
  mo_cache_size_mb :: u32
  mo_worker_threads :: u32

abbreviation (input) BDFS_MOUNT_RDONLY :: u32 where "BDFS_MOUNT_RDONLY \<equiv> 1"
abbreviation (input) BDFS_MOUNT_WRITEBACK :: u32 where "BDFS_MOUNT_WRITEBACK \<equiv> 32"

text \<open>\<open>enum bdfs_event_type\<close>\<close>

abbreviation (input) BDFS_EVT_PARTITION_ADDED :: u32 where "BDFS_EVT_PARTITION_ADDED \<equiv> 1"
abbreviation (input) BDFS_EVT_PARTITION_REMOVED :: u32 where "BDFS_EVT_PARTITION_REMOVED \<equiv> 2"
abbreviation (input) BDFS_EVT_SNAPSHOT_CREATED :: u32 where "BDFS_EVT_SNAPSHOT_CREATED \<equiv> 3"
abbreviation (input) BDFS_EVT_SNAPSHOT_EXPORTED :: u32 where "BDFS_EVT_SNAPSHOT_EXPORTED \<equiv> 4"
abbreviation (input) BDFS_EVT_IMAGE_IMPORTED :: u32 where "BDFS_EVT_IMAGE_IMPORTED \<equiv> 5"
abbreviation (input) BDFS_EVT_IMAGE_MOUNTED :: u32 where "BDFS_EVT_IMAGE_MOUNTED \<equiv> 6"
abbreviation (input) BDFS_EVT_IMAGE_UNMOUNTED :: u32 where "BDFS_EVT_IMAGE_UNMOUNTED \<equiv> 7"
abbreviation (input) BDFS_EVT_BLEND_MOUNTED :: u32 where "BDFS_EVT_BLEND_MOUNTED \<equiv> 8"
abbreviation (input) BDFS_EVT_BLEND_UNMOUNTED :: u32 where "BDFS_EVT_BLEND_UNMOUNTED \<equiv> 9"
abbreviation (input) BDFS_EVT_COPYUP_NEEDED :: u32 where "BDFS_EVT_COPYUP_NEEDED \<equiv> 10"
abbreviation (input) BDFS_EVT_ERROR :: u32 where "BDFS_EVT_ERROR \<equiv> 255"

record bdfs_event =
  evt_type :: u32
  evt_flags :: u32
  evt_partition_uuid :: uuid
  evt_object_id :: u64
  evt_message :: string
  evt_timestamp_ns :: u64

section \<open>bdfs_ioctl.h\<close>

record bdfs_ioctl_register_partition =
  rp_part :: bdfs_partition

record bdfs_ioctl_unregister_partition =
  up_uuid :: uuid

record bdfs_ioctl_list_partitions =
  lp_count :: u32
  lp_parts :: bool

record bdfs_ioctl_mount_blend =
  mb_btrfs_uuid :: uuid
  mb_dwarfs_uuid :: uuid
  mb_mount_point :: string
  mb_opts :: bdfs_mount_opts

record bdfs_ioctl_umount_blend =
  ub_mount_point :: string
  ub_flags :: u32

abbreviation (input) BDFS_UMOUNT_FORCE :: u32 where "BDFS_UMOUNT_FORCE \<equiv> 1"
abbreviation (input) BDFS_UMOUNT_LAZY :: u32 where "BDFS_UMOUNT_LAZY \<equiv> 2"

record bdfs_ioctl_export_to_dwarfs =
  ex_partition_uuid :: uuid
  ex_btrfs_subvol_id :: u64
  ex_btrfs_mount :: string
  ex_image_name :: string
  ex_compression :: u32
  ex_block_size_bits :: u32
  ex_worker_threads :: u32
  ex_flags :: u32
  ex_parent_snap_path :: string

abbreviation (input) BDFS_EXPORT_INCREMENTAL :: u32 where "BDFS_EXPORT_INCREMENTAL \<equiv> 1"
abbreviation (input) BDFS_EXPORT_VERIFY :: u32 where "BDFS_EXPORT_VERIFY \<equiv> 2"

record bdfs_ioctl_mount_dwarfs_image =
  md_partition_uuid :: uuid
  md_image_id :: u64
  md_mount_point :: string
  md_flags :: u32
  md_cache_size_mb :: u32

record bdfs_ioctl_umount_dwarfs_image =
  ud_partition_uuid :: uuid
  ud_image_id :: u64
  ud_flags :: u32

record bdfs_ioctl_list_dwarfs_images =
  li_partition_uuid :: uuid
  li_count :: u32
  li_images :: bool

record bdfs_ioctl_import_from_dwarfs =
  im_partition_uuid :: uuid
  im_image_id :: u64
  im_btrfs_mount :: string
  im_subvol_name :: string
  im_flags :: u32

abbreviation (input) BDFS_IMPORT_READONLY :: u32 where "BDFS_IMPORT_READONLY \<equiv> 1"
abbreviation (input) BDFS_IMPORT_SNAPSHOT :: u32 where "BDFS_IMPORT_SNAPSHOT \<equiv> 2"

record bdfs_ioctl_store_dwarfs_image =
  st_partition_uuid :: uuid
  st_source_path :: string
  st_dest_name :: string
  st_flags :: u32

abbreviation (input) BDFS_STORE_SNAPSHOT :: u32 where "BDFS_STORE_SNAPSHOT \<equiv> 2"

record bdfs_ioctl_snapshot_dwarfs_container =
  sc_partition_uuid :: uuid
  sc_image_id :: u64
  sc_snapshot_name :: string
  sc_flags :: u32

abbreviation (input) BDFS_SNAP_READONLY :: u32 where "BDFS_SNAP_READONLY \<equiv> 1"

record bdfs_ioctl_list_btrfs_subvols =
  ls_partition_uuid :: uuid
  ls_count :: u32
  ls_subvols :: bool

record bdfs_ioctl_resolve_path =
  rs_path :: string
  rs_layer :: u32
  rs_real_path :: string
  rs_object_id :: u64

record bdfs_ioctl_promote_to_btrfs =
  pr_blend_path :: string
  pr_subvol_name :: string
  pr_flags :: u32

record bdfs_ioctl_demote_to_dwarfs =
  de_blend_path :: string
  de_image_name :: string
  de_compression :: u32
  de_flags :: u32

abbreviation (input) BDFS_DEMOTE_DELETE_SUBVOL :: u32 where "BDFS_DEMOTE_DELETE_SUBVOL \<equiv> 1"

record bdfs_ioctl_copyup_complete =
  cc_btrfs_uuid :: uuid
  cc_inode_no :: u64
  cc_upper_path :: string

section \<open>Zeroed structures\<close>

text \<open>What \<open>kzalloc\<close> and \<open>memset\<close> give.\<close>

definition zero_subvol :: bdfs_btrfs_subvol where
  "zero_subvol = \<lparr>sv_subvol_id = 0, sv_parent_id = 0, sv_generation = 0, sv_ctransid = 0,
     sv_otransid = 0, sv_stransid = 0, sv_rtransid = 0, sv_uuid = zero_uuid,
     sv_parent_uuid = zero_uuid, sv_received_uuid = zero_uuid, sv_flags = 0, sv_name = [],
     sv_path = [], sv_is_snapshot = 0, sv_is_readonly = 0\<rparr>"

definition zero_image :: bdfs_dwarfs_image where
  "zero_image = \<lparr>img_image_id = 0, img_size_bytes = 0, img_uncompressed_bytes = 0,
     img_inode_count = 0, img_block_count = 0, img_schema_version = 0, img_compression = 0,
     img_uuid = zero_uuid, img_name = [], img_backing_path = [], img_mounted = 0,
     img_mount_point = []\<rparr>"

definition zero_partition :: bdfs_partition where
  "zero_partition = \<lparr>part_magic = 0, part_version_major = 0, part_version_minor = 0,
     part_type = 0, part_flags = 0, part_uuid = zero_uuid, part_label = [],
     part_device_path = [], part_mount_point = [], part_btrfs_fsid = (0, 0),
     part_btrfs_subvol_count = 0, part_btrfs_snapshot_count = 0, part_dwarfs_image_count = 0,
     part_dwarfs_default_compression = 0, part_dwarfs_block_size_bits = 0,
     part_blend_btrfs_uuid = zero_uuid, part_blend_dwarfs_uuid = zero_uuid,
     part_blend_mount_point = []\<rparr>"

definition zero_event :: bdfs_event where
  "zero_event = \<lparr>evt_type = 0, evt_flags = 0, evt_partition_uuid = zero_uuid,
     evt_object_id = 0, evt_message = [], evt_timestamp_ns = 0\<rparr>"

declare zero_subvol_def [bdfs_consts]
declare zero_image_def [bdfs_consts]
declare zero_partition_def [bdfs_consts]
declare zero_event_def [bdfs_consts]

end
