(* ===== verification/Bdfs_Kernel.thy ===== *)
theory Bdfs_Kernel
  imports Bdfs_Types
begin

text \<open>
  The kernel module's global state and the services every ioctl uses: access to user
  memory, allocation, the partition registry, the netlink event channel
  (\<open>bdfs_internal.h\<close>, \<open>bdfs_main.c\<close>), and the loop of the three list ioctls.

  An ioctl is a function of an environment \<open>kenv\<close> (what the rest of the kernel answers
  during the call: faulting user accesses, failed allocations, the random UUID, the
  clock), the structure the caller passed and the state; it returns the result with the
  new state, since an error path may leave a changed state behind.  Each ioctl runs to
  completion before the next, so the mutexes do not appear.
\<close>

section \<open>The environment of a call\<close>

text \<open>
  A destination of \<open>copy_to_user\<close> or \<open>put_user\<close>: the \<open>n\<close>-th field written back in the
  caller's structure, the \<open>n\<close>-th element of the caller's buffer, or an address on the
  kernel stack.
\<close>

datatype uptr = UArg nat | UBuf nat | KStack

record kenv =
  copy_from_user_fail :: bool
  kzalloc_fail :: "nat \<Rightarrow> bool"
  uaccess_fail :: "uptr \<Rightarrow> bool"
  skb_fail :: bool
  nlmsg_put_fail :: bool
  random_uuid :: uuid
  ktime_ns :: u64

text \<open>Documented behaviour of \<open>copy_to_user\<close>: an address outside user space faults.\<close>

definition uaccess_checks_range :: "kenv \<Rightarrow> bool" where
  "uaccess_checks_range env \<longleftrightarrow> uaccess_fail env KStack"

section \<open>State\<close>

record bdfs_dwarfs_part_priv =
  dp_images :: "bdfs_dwarfs_image list"
  dp_next_image_id :: u64
  dp_backing_dir :: string

record bdfs_btrfs_image_entry =
  bie_desc :: bdfs_dwarfs_image
  bie_container_subvol_id :: u64

record bdfs_btrfs_part_priv =
  bp_subvols :: "bdfs_btrfs_subvol list"
  bp_images :: "bdfs_btrfs_image_entry list"
  bp_next_image_id :: u64
  bp_next_subvol_seq :: u64

text \<open>The \<open>void *private\<close> of an entry, with the structure it really points to.\<close>

datatype part_priv = DwarfsPriv bdfs_dwarfs_part_priv | BtrfsPriv bdfs_btrfs_part_priv

datatype bdfs_part_ops = Dwarfs_part_ops | Btrfs_part_ops | Blend_part_ops

record bdfs_partition_entry =
  ent_desc :: bdfs_partition
  ent_ops :: bdfs_part_ops
  ent_private :: "part_priv option"
  ent_refcount :: nat

abbreviation (input) NLMSG_DONE :: u16 where "NLMSG_DONE \<equiv> 3"

record nl_message =
  nlm_type :: u16
  nlm_event :: bdfs_event

record kstate =
  partition_list :: "bdfs_partition_entry list"
  partition_count :: u32
  nl_sock :: bool
  nl_out :: "nl_message list"

section \<open>Events\<close>

definition bdfs_emit_event ::
  "kenv \<Rightarrow> u32 \<Rightarrow> uuid option \<Rightarrow> u64 \<Rightarrow> string option \<Rightarrow> 'z kstate_scheme \<Rightarrow> 'z kstate_scheme" where
  "bdfs_emit_event env type uuid object_id message s =
     (if \<not> nl_sock s then s
      else if skb_fail env then s
      else if nlmsg_put_fail env then s
      else
        let evt0 = zero_event\<lparr>evt_type := type\<rparr>;
            evt1 = (case uuid of None \<Rightarrow> evt0 | Some u \<Rightarrow> evt0\<lparr>evt_partition_uuid := u\<rparr>);
            evt2 = evt1\<lparr>evt_object_id := object_id, evt_timestamp_ns := ktime_ns env\<rparr>;
            evt3 = (case message of None \<Rightarrow> evt2
                    | Some m \<Rightarrow> evt2\<lparr>evt_message := strscpy BDFS_MSG_MAX m\<rparr>)
        in s\<lparr>nl_out := nl_out s @ [\<lparr>nlm_type = NLMSG_DONE, nlm_event = evt3\<rparr>]\<rparr>)"

section \<open>The partition registry\<close>

abbreviation entry_uuid :: "bdfs_partition_entry \<Rightarrow> uuid" where
  "entry_uuid e \<equiv> part_uuid (ent_desc e)"

definition bdfs_find_partition_locked :: "uuid \<Rightarrow> 'z kstate_scheme \<Rightarrow> bdfs_partition_entry option" where
  "bdfs_find_partition_locked uuid s = List.find (\<lambda>e. entry_uuid e = uuid) (partition_list s)"

text \<open>\<open>list_add_tail\<close> and \<open>list_del\<close> on the registry, with the counter.\<close>

definition registry_add :: "bdfs_partition_entry \<Rightarrow> 'z kstate_scheme \<Rightarrow> 'z kstate_scheme" where
  "registry_add e s =
     s\<lparr>partition_list := partition_list s @ [e], partition_count := partition_count s + 1\<rparr>"

definition registry_del :: "uuid \<Rightarrow> 'z kstate_scheme \<Rightarrow> 'z kstate_scheme" where
  "registry_del uuid s =
     s\<lparr>partition_list := remove_first (\<lambda>e. entry_uuid e = uuid) (partition_list s),
       partition_count := partition_count s - 1\<rparr>"

text \<open>A write through the \<open>private\<close> pointer of the entry found for \<open>uuid\<close>.\<close>

definition set_private :: "uuid \<Rightarrow> part_priv \<Rightarrow> 'z kstate_scheme \<Rightarrow> 'z kstate_scheme" where
  "set_private uuid p s =
     s\<lparr>partition_list :=
         update_first (\<lambda>e. entry_uuid e = uuid) (\<lambda>e. e\<lparr>ent_private := Some p\<rparr>)
           (partition_list s)\<rparr>"

section \<open>The list ioctls\<close>

text \<open>What a list ioctl writes to user memory.\<close>

record 'd list_out =
  lo_items :: "'d list"
  lo_count :: "u32 option"
  lo_total :: "u32 option"

definition no_list_out :: "'d list_out" where
  "no_list_out = \<lparr>lo_items = [], lo_count = None, lo_total = None\<rparr>"

text \<open>
  The loop over a list: \<open>total\<close> counts all elements, at most \<open>count\<close> are copied to the
  buffer; a fault ends it.  The result is the fault flag, the elements copied and both
  counters.
\<close>

fun list_loop :: "kenv \<Rightarrow> u32 \<Rightarrow> bool \<Rightarrow> 'd list \<Rightarrow> 'd list \<Rightarrow> u32 \<Rightarrow> u32 \<Rightarrow> bool \<times> 'd list \<times> u32 \<times> u32" where
  "list_loop env count ubuf [] out copied tot = (False, out, copied, tot)"
| "list_loop env count ubuf (d # ds) out copied tot =
     (let tot' = tot + 1 in
      if copied < count \<and> ubuf then
        if uaccess_fail env (UBuf (unat copied)) then (True, out, copied, tot')
        else list_loop env count ubuf ds (out @ [d]) (copied + 1) tot'
      else list_loop env count ubuf ds out copied tot')"

definition list_ioctl :: "kenv \<Rightarrow> u32 \<Rightarrow> bool \<Rightarrow> 'd list \<Rightarrow> unit kres \<times> 'd list_out" where
  "list_ioctl env count ubuf ds =
     (let (fault, out, copied, tot) = list_loop env count ubuf ds [] 0 0;
          o0 = \<lparr>lo_items = out, lo_count = None, lo_total = None\<rparr>
      in if fault then (Inl (Eno EFAULT), o0)
         else if uaccess_fail env (UArg 0) then (Inl (Eno EFAULT), o0)
         else if uaccess_fail env (UArg 1) then (Inl (Eno EFAULT), o0\<lparr>lo_count := Some copied\<rparr>)
         else (Inr (), o0\<lparr>lo_count := Some copied, lo_total := Some tot\<rparr>))"

definition bdfs_list_partitions ::
  "kenv \<Rightarrow> bdfs_ioctl_list_partitions \<Rightarrow> 'z kstate_scheme \<Rightarrow> unit kres \<times> bdfs_partition list_out" where
  "bdfs_list_partitions env arg s =
     (if copy_from_user_fail env then (Inl (Eno EFAULT), no_list_out)
      else list_ioctl env (lp_count arg) (lp_parts arg) (map ent_desc (partition_list s)))"

section \<open>Calls the environment lets through\<close>

definition event_delivered :: "kenv \<Rightarrow> 'z kstate_scheme \<Rightarrow> bool" where
  "event_delivered env s \<longleftrightarrow> nl_sock s \<and> \<not> skb_fail env \<and> \<not> nlmsg_put_fail env"

definition uaccess_ok :: "kenv \<Rightarrow> bool" where
  "uaccess_ok env \<longleftrightarrow>
     \<not> copy_from_user_fail env \<and>
     (\<forall>n. \<not> uaccess_fail env (UBuf n)) \<and> (\<forall>n. \<not> uaccess_fail env (UArg n))"

section \<open>The invariant of the registry\<close>

text \<open>
  Every entry carries the magic number, the operations of its type and private data of
  its type (none for a hybrid-blend partition), whose ids are numbered in order; no image
  is ever marked as mounted; the counter is the length of the list, modulo \<open>2 ^ 32\<close>.
\<close>

fun priv_ok :: "part_priv \<Rightarrow> bool" where
  "priv_ok (DwarfsPriv p) =
     (seq_ids (map img_image_id (dp_images p)) (dp_next_image_id p) \<and>
      (\<forall>i \<in> set (dp_images p). img_mounted i = 0))"
| "priv_ok (BtrfsPriv p) =
     (seq_ids (map (\<lambda>i. img_image_id (bie_desc i)) (bp_images p)) (bp_next_image_id p) \<and>
      seq_ids (map sv_subvol_id (bp_subvols p)) (bp_next_subvol_seq p))"

definition entry_ok :: "bdfs_partition_entry \<Rightarrow> bool" where
  "entry_ok e \<longleftrightarrow>
     part_magic (ent_desc e) = BDFS_MAGIC \<and>
     (case ent_private e of
        None \<Rightarrow> part_type (ent_desc e) = BDFS_PART_HYBRID_BLEND \<and> ent_ops e = Blend_part_ops
      | Some (DwarfsPriv p) \<Rightarrow>
          part_type (ent_desc e) = BDFS_PART_DWARFS_BACKED \<and> ent_ops e = Dwarfs_part_ops \<and>
          priv_ok (DwarfsPriv p)
      | Some (BtrfsPriv p) \<Rightarrow>
          part_type (ent_desc e) = BDFS_PART_BTRFS_BACKED \<and> ent_ops e = Btrfs_part_ops \<and>
          priv_ok (BtrfsPriv p))"

definition kernel_inv :: "'z kstate_scheme \<Rightarrow> bool" where
  "kernel_inv s \<longleftrightarrow>
     (\<forall>e \<in> set (partition_list s). entry_ok e) \<and>
     partition_count s = of_nat (length (partition_list s))"

section \<open>Lemmas\<close>

interpretation registry: keyed_store entry_uuid partition_list registry_add registry_del
    bdfs_find_partition_locked
  by unfold_locales (simp_all add: registry_add_def registry_del_def bdfs_find_partition_locked_def)

text \<open>Emitting an event changes nothing but the outgoing messages.\<close>

lemma emit_event_frame [simp]:
  "partition_list (bdfs_emit_event env t u i m s) = partition_list s"
  "partition_count (bdfs_emit_event env t u i m s) = partition_count s"
  "nl_sock (bdfs_emit_event env t u i m s) = nl_sock s"
  "kstate.more (bdfs_emit_event env t u i m s) = kstate.more s"
  by (simp_all add: bdfs_emit_event_def Let_def)

lemma find_partition_emit [simp]:
  "bdfs_find_partition_locked u' (bdfs_emit_event env t u i m s) = bdfs_find_partition_locked u' s"
  by (simp add: bdfs_find_partition_locked_def)

lemma emit_event_out:
  "event_delivered env s \<Longrightarrow>
   nl_out (bdfs_emit_event env t (Some u) i (Some m) s) =
     nl_out s @ [\<lparr>nlm_type = NLMSG_DONE, nlm_event =
        \<lparr>evt_type = t, evt_flags = 0, evt_partition_uuid = u, evt_object_id = i,
         evt_message = strscpy BDFS_MSG_MAX m, evt_timestamp_ns = ktime_ns env\<rparr>\<rparr>]"
  by (simp add: bdfs_emit_event_def event_delivered_def zero_event_def)

lemma set_private_frame [simp]:
  "partition_count (set_private u p s) = partition_count s"
  "nl_sock (set_private u p s) = nl_sock s"
  "nl_out (set_private u p s) = nl_out s"
  "kstate.more (set_private u p s) = kstate.more s"
  "length (partition_list (set_private u p s)) = length (partition_list s)"
  "map ent_desc (partition_list (set_private u p s)) = map ent_desc (partition_list s)"
  by (simp_all add: set_private_def map_update_first)

lemma event_delivered_set_private [simp]:
  "event_delivered env (set_private u p s) = event_delivered env s"
  by (simp add: event_delivered_def)

lemma find_set_private [simp]:
  "bdfs_find_partition_locked u (set_private u p s) =
     map_option (\<lambda>e. e\<lparr>ent_private := Some p\<rparr>) (bdfs_find_partition_locked u s)"
  by (simp add: bdfs_find_partition_locked_def set_private_def find_update_first_same)

lemma find_set_private_other [simp]:
  "u' \<noteq> u \<Longrightarrow>
   bdfs_find_partition_locked u' (set_private u p s) = bdfs_find_partition_locked u' s"
  by (auto simp: bdfs_find_partition_locked_def set_private_def intro!: find_update_first_other)

text \<open>The invariant depends on the list and the counter only.\<close>

lemma kernel_inv_emit [simp]: "kernel_inv (bdfs_emit_event env t u i m s) = kernel_inv s"
  by (simp add: kernel_inv_def)

lemma kernel_inv_set_private:
  assumes "kernel_inv s" and "bdfs_find_partition_locked u s = Some e"
    and "entry_ok (e\<lparr>ent_private := Some p\<rparr>)"
  shows "kernel_inv (set_private u p s)"
proof -
  have "set (partition_list (set_private u p s)) \<subseteq>
      insert (e\<lparr>ent_private := Some p\<rparr>) (set (partition_list s))"
    using assms(2) by (simp add: set_private_def bdfs_find_partition_locked_def set_update_first)
  then show ?thesis using assms(1,3) by (auto simp: kernel_inv_def)
qed

lemma kernel_inv_find:
  "kernel_inv s \<Longrightarrow> bdfs_find_partition_locked u s = Some e \<Longrightarrow> entry_ok e"
  by (auto simp: kernel_inv_def dest: registry.look_in_elems)

text \<open>With the invariant, the type of a partition says what its private data are.\<close>

lemma entry_ok_dwarfs:
  "entry_ok e \<Longrightarrow> part_type (ent_desc e) = BDFS_PART_DWARFS_BACKED \<Longrightarrow>
   \<exists>p. ent_private e = Some (DwarfsPriv p) \<and> priv_ok (DwarfsPriv p)"
  by (auto simp: entry_ok_def split: option.splits part_priv.splits)

lemma entry_ok_btrfs:
  "entry_ok e \<Longrightarrow> part_type (ent_desc e) = BDFS_PART_BTRFS_BACKED \<Longrightarrow>
   \<exists>p. ent_private e = Some (BtrfsPriv p) \<and> priv_ok (BtrfsPriv p)"
  by (auto simp: entry_ok_def split: option.splits part_priv.splits)

text \<open>
  The list loop, with no fault on the caller's side: it copies the first
  \<open>min count (length ds)\<close> elements and counts all of them.
\<close>

lemma list_loop_nofault:
  assumes "\<And>n. \<not> uaccess_fail env (UBuf n)" and "unat copied + length ds < 2 ^ 32"
    and "copied \<le> count"
  shows "list_loop env count True ds out copied tot =
    (False, out @ take (unat count - unat copied) ds,
     copied + of_nat (min (unat count - unat copied) (length ds)), tot + of_nat (length ds))"
  using assms(2,3)
proof (induction ds arbitrary: out copied tot)
  case Nil
  then show ?case by simp
next
  case (Cons d ds)
  show ?case
  proof (cases "copied < count")
    case True
    have u: "unat (copied + 1) = Suc (unat copied)"
      using Cons.prems(1) by (simp add: unat_word_ariths(1))
    have le: "copied + 1 \<le> count" using True by (simp add: inc_le)
    have lt: "unat copied < unat count" using True by (simp add: word_less_nat_alt)
    have m: "unat count - unat copied = Suc (unat count - unat (copied + 1))"
      using lt u by linarith
    show ?thesis
      using True assms(1) Cons.prems(1) le u
      by (simp add: Cons.IH Let_def m)
  next
    case False
    then have "copied = count" using Cons.prems(2) by simp
    then show ?thesis
      using Cons.IH [of copied out "tot + 1"] Cons.prems by (simp add: Let_def)
  qed
qed

lemma list_loop_nobuf:
  "list_loop env count False ds out copied tot = (False, out, copied, tot + of_nat (length ds))"
  by (induction ds arbitrary: tot) (simp_all add: Let_def)

lemma list_ioctl_ok:
  assumes "uaccess_ok env" and "length ds < 2 ^ 32"
  shows "list_ioctl env count ubuf ds =
    (Inr (), \<lparr>lo_items = (if ubuf then take (unat count) ds else []),
              lo_count = Some (if ubuf then of_nat (min (unat count) (length ds)) else 0),
              lo_total = Some (of_nat (length ds))\<rparr>)"
  using assms list_loop_nofault [of env 0 ds count "[]" 0]
  by (cases ubuf) (simp_all add: list_ioctl_def uaccess_ok_def list_loop_nobuf)

end
