(* ===== verification/Bdfs_Dwarfs_Part.thy ===== *)
theory Bdfs_Dwarfs_Part
  imports Bdfs_Kernel
begin

text \<open>
  DwarFS-backed partitions (\<open>bdfs_dwarfs_part.c\<close>): the backend's init and destroy, the
  export of a subvolume to an image, mount and unmount requests for an image, and the
  list of images.  The kernel only books the image and emits an event; the daemon does
  the work.  The \<open>fuse_mnt\<close> pointer of an image entry is never assigned in the source and
  has no field here.
\<close>

section \<open>Backend operations\<close>

definition bdfs_dwarfs_part_init :: "kenv \<Rightarrow> bdfs_partition_entry \<Rightarrow> bdfs_partition_entry kres" where
  "bdfs_dwarfs_part_init env entry =
     (if kzalloc_fail env 1 then Inl (Eno ENOMEM)
      else Inr (entry\<lparr>ent_private := Some (DwarfsPriv
             \<lparr>dp_images = [], dp_next_image_id = 1,
              dp_backing_dir = strscpy BDFS_PATH_MAX (part_device_path (ent_desc entry))\<rparr>)\<rparr>))"

text \<open>Reading the private data of another type is \<open>Oops\<close>; no private data is a no-op.\<close>

definition bdfs_dwarfs_part_destroy :: "bdfs_partition_entry \<Rightarrow> bdfs_partition_entry kres" where
  "bdfs_dwarfs_part_destroy entry =
     (case ent_private entry of
        None \<Rightarrow> Inr entry
      | Some (DwarfsPriv _) \<Rightarrow> Inr (entry\<lparr>ent_private := None\<rparr>)
      | Some (BtrfsPriv _) \<Rightarrow> Inl Oops)"

section \<open>Export\<close>

text \<open>The id comes from the counter, the new entry goes to the tail of the list.\<close>

definition dwarfs_add_image ::
  "bdfs_dwarfs_image \<Rightarrow> bdfs_dwarfs_part_priv \<Rightarrow> bdfs_dwarfs_part_priv" where
  "dwarfs_add_image img p =
     p\<lparr>dp_images := dp_images p @ [img\<lparr>img_image_id := dp_next_image_id p\<rparr>],
       dp_next_image_id := dp_next_image_id p + 1\<rparr>"

definition export_image :: "bdfs_ioctl_export_to_dwarfs \<Rightarrow> bdfs_dwarfs_part_priv \<Rightarrow> bdfs_dwarfs_image" where
  "export_image arg p =
     zero_image\<lparr>img_compression := ex_compression arg,
       img_name := strscpy (BDFS_NAME_MAX + 1) (ex_image_name arg),
       img_backing_path := snprintf BDFS_PATH_MAX
         (dp_backing_dir p @ ''/'' @ ex_image_name arg @ ''.dwarfs'')\<rparr>"

definition export_event_msg :: "bdfs_ioctl_export_to_dwarfs \<Rightarrow> string" where
  "export_event_msg arg = snprintf BDFS_MSG_MAX
     (''export subvol='' @ dec (unat (ex_btrfs_subvol_id arg)) @ '' image='' @ ex_image_name arg @
      '' compression='' @ dec (unat (ex_compression arg)) @ '' flags=0x'' @ hex (unat (ex_flags arg)) @
      '' parent='' @
      (if and (ex_flags arg) BDFS_EXPORT_INCREMENTAL \<noteq> 0 then ex_parent_snap_path arg else []))"

definition bdfs_dwarfs_export ::
  "kenv \<Rightarrow> bdfs_ioctl_export_to_dwarfs \<Rightarrow> 'z kstate_scheme \<Rightarrow> u64 kres \<times> 'z kstate_scheme" where
  "bdfs_dwarfs_export env arg s =
     (if copy_from_user_fail env then (Inl (Eno EFAULT), s)
      else case bdfs_find_partition_locked (ex_partition_uuid arg) s of
        None \<Rightarrow> (Inl (Eno ENOENT), s)
      | Some entry \<Rightarrow>
          if part_type (ent_desc entry) \<noteq> BDFS_PART_DWARFS_BACKED then (Inl (Eno EINVAL), s)
          else if kzalloc_fail env 0 then (Inl (Eno ENOMEM), s)
          else case ent_private entry of
            Some (DwarfsPriv p) \<Rightarrow>
              let image_id = dp_next_image_id p;
                  p' = dwarfs_add_image (export_image arg p) p;
                  s1 = set_private (ex_partition_uuid arg) (DwarfsPriv p') s;
                  s2 = bdfs_emit_event env BDFS_EVT_SNAPSHOT_EXPORTED
                         (Some (ex_partition_uuid arg)) image_id (Some (export_event_msg arg)) s1
              in if uaccess_fail env (UArg 0) then (Inl (Eno EFAULT), s2) else (Inr image_id, s2)
          | _ \<Rightarrow> (Inl Oops, s))"

section \<open>Mount and unmount\<close>

definition dwarfs_find_image :: "u64 \<Rightarrow> bdfs_dwarfs_part_priv \<Rightarrow> bdfs_dwarfs_image option" where
  "dwarfs_find_image image_id p = List.find (\<lambda>i. img_image_id i = image_id) (dp_images p)"

definition dwarfs_update_image ::
  "u64 \<Rightarrow> (bdfs_dwarfs_image \<Rightarrow> bdfs_dwarfs_image) \<Rightarrow> bdfs_dwarfs_part_priv \<Rightarrow> bdfs_dwarfs_part_priv" where
  "dwarfs_update_image image_id f p =
     p\<lparr>dp_images := update_first (\<lambda>i. img_image_id i = image_id) f (dp_images p)\<rparr>"

definition mount_event_msg :: "bdfs_ioctl_mount_dwarfs_image \<Rightarrow> string \<Rightarrow> string" where
  "mount_event_msg arg backing_path = snprintf BDFS_MSG_MAX
     (''mount image_id='' @ dec (unat (md_image_id arg)) @ '' path='' @ backing_path @
      '' mount='' @ md_mount_point arg @ '' cache_mb='' @ dec (unat (md_cache_size_mb arg)))"

definition bdfs_dwarfs_mount_image ::
  "kenv \<Rightarrow> bdfs_ioctl_mount_dwarfs_image \<Rightarrow> 'z kstate_scheme \<Rightarrow> unit kres \<times> 'z kstate_scheme" where
  "bdfs_dwarfs_mount_image env arg s =
     (if copy_from_user_fail env then (Inl (Eno EFAULT), s)
      else case bdfs_find_partition_locked (md_partition_uuid arg) s of
        None \<Rightarrow> (Inl (Eno ENOENT), s)
      | Some entry \<Rightarrow>
          (case ent_private entry of
             Some (DwarfsPriv p) \<Rightarrow>
               (case dwarfs_find_image (md_image_id arg) p of
                  None \<Rightarrow> (Inl (Eno ENOENT), s)
                | Some img \<Rightarrow>
                    if img_mounted img \<noteq> 0 then (Inl (Eno EBUSY), s)
                    else
                      let p' = dwarfs_update_image (md_image_id arg)
                                 (\<lambda>i. i\<lparr>img_mount_point := strscpy BDFS_PATH_MAX (md_mount_point arg)\<rparr>) p;
                          s1 = set_private (md_partition_uuid arg) (DwarfsPriv p') s
                      in (Inr (), bdfs_emit_event env BDFS_EVT_IMAGE_MOUNTED
                            (Some (md_partition_uuid arg)) (md_image_id arg)
                            (Some (mount_event_msg arg (img_backing_path img))) s1))
           | _ \<Rightarrow> (Inl Oops, s)))"

definition bdfs_dwarfs_umount_image ::
  "kenv \<Rightarrow> bdfs_ioctl_umount_dwarfs_image \<Rightarrow> 'z kstate_scheme \<Rightarrow> unit kres \<times> 'z kstate_scheme" where
  "bdfs_dwarfs_umount_image env arg s =
     (if copy_from_user_fail env then (Inl (Eno EFAULT), s)
      else case bdfs_find_partition_locked (ud_partition_uuid arg) s of
        None \<Rightarrow> (Inl (Eno ENOENT), s)
      | Some entry \<Rightarrow>
          (case ent_private entry of
             Some (DwarfsPriv p) \<Rightarrow>
               (case dwarfs_find_image (ud_image_id arg) p of
                  None \<Rightarrow> (Inl (Eno ENOENT), s)
                | Some img \<Rightarrow>
                    let s1 = bdfs_emit_event env BDFS_EVT_IMAGE_UNMOUNTED
                               (Some (ud_partition_uuid arg)) (ud_image_id arg) None s;
                        p' = dwarfs_update_image (ud_image_id arg)
                               (\<lambda>i. i\<lparr>img_mounted := 0, img_mount_point := []\<rparr>) p
                    in (Inr (), set_private (ud_partition_uuid arg) (DwarfsPriv p') s1))
           | _ \<Rightarrow> (Inl Oops, s)))"

section \<open>List\<close>

definition bdfs_dwarfs_list_images ::
  "kenv \<Rightarrow> bdfs_ioctl_list_dwarfs_images \<Rightarrow> 'z kstate_scheme \<Rightarrow> unit kres \<times> bdfs_dwarfs_image list_out" where
  "bdfs_dwarfs_list_images env arg s =
     (if copy_from_user_fail env then (Inl (Eno EFAULT), no_list_out)
      else case bdfs_find_partition_locked (li_partition_uuid arg) s of
        None \<Rightarrow> (Inl (Eno ENOENT), no_list_out)
      | Some entry \<Rightarrow>
          (case ent_private entry of
             Some (DwarfsPriv p) \<Rightarrow> list_ioctl env (li_count arg) (li_images arg) (dp_images p)
           | _ \<Rightarrow> (Inl Oops, no_list_out)))"

section \<open>Lemmas\<close>

interpretation dwarfs_ids: id_alloc "\<lambda>p. map img_image_id (dp_images p)" dp_next_image_id
    dwarfs_add_image
  by unfold_locales (simp_all add: dwarfs_add_image_def)

lemma dwarfs_update_image_ids:
  "(\<And>i. img_image_id (f i) = img_image_id i) \<Longrightarrow>
   map img_image_id (dp_images (dwarfs_update_image k f p)) = map img_image_id (dp_images p) \<and>
   dp_next_image_id (dwarfs_update_image k f p) = dp_next_image_id p"
  by (simp add: dwarfs_update_image_def map_update_first)

lemma dwarfs_priv_ok_add:
  "priv_ok (DwarfsPriv p) \<Longrightarrow> img_mounted img = 0 \<Longrightarrow> priv_ok (DwarfsPriv (dwarfs_add_image img p))"
  using dwarfs_ids.seq_alloc [of p img] by (auto simp: dwarfs_add_image_def)

lemma export_image_not_mounted [simp]: "img_mounted (export_image arg p) = 0"
  by (simp add: export_image_def zero_image_def)

lemma dwarfs_priv_ok_update:
  assumes "\<And>i. img_image_id (f i) = img_image_id i" "\<And>i. img_mounted i = 0 \<Longrightarrow> img_mounted (f i) = 0"
    and "priv_ok (DwarfsPriv p)"
  shows "priv_ok (DwarfsPriv (dwarfs_update_image k f p))"
proof -
  have "set (update_first P f xs) \<subseteq> set xs \<union> f ` set xs" for P xs
    by (induction xs) auto
  then have "\<forall>i \<in> set (dp_images (dwarfs_update_image k f p)). img_mounted i = 0"
    using assms(2,3) by (fastforce simp: dwarfs_update_image_def)
  then show ?thesis using assms(3) dwarfs_update_image_ids [OF assms(1)] by simp
qed

lemma entry_ok_set_dwarfs:
  "entry_ok e \<Longrightarrow> ent_private e = Some (DwarfsPriv p) \<Longrightarrow> priv_ok (DwarfsPriv p') \<Longrightarrow>
   entry_ok (e\<lparr>ent_private := Some (DwarfsPriv p')\<rparr>)"
  by (simp add: entry_ok_def)

lemma entry_ok_dwarfsD: "entry_ok e \<Longrightarrow> ent_private e = Some (DwarfsPriv p) \<Longrightarrow> priv_ok (DwarfsPriv p)"
  by (simp add: entry_ok_def)

lemma dwarfs_export_inv:
  assumes "kernel_inv s"
  shows "kernel_inv (snd (bdfs_dwarfs_export env arg s))"
  using assms
  by (auto simp: bdfs_dwarfs_export_def Let_def kernel_inv_find
      intro!: kernel_inv_set_private entry_ok_set_dwarfs dwarfs_priv_ok_add
      intro: entry_ok_dwarfsD kernel_inv_find
      split: option.split part_priv.split)

lemma dwarfs_mount_inv:
  assumes "kernel_inv s"
  shows "kernel_inv (snd (bdfs_dwarfs_mount_image env arg s))"
  using assms
  by (auto simp: bdfs_dwarfs_mount_image_def Let_def kernel_inv_find
      intro!: kernel_inv_set_private entry_ok_set_dwarfs dwarfs_priv_ok_update
      intro: entry_ok_dwarfsD kernel_inv_find
      split: option.split part_priv.split)

lemma dwarfs_umount_inv:
  assumes "kernel_inv s"
  shows "kernel_inv (snd (bdfs_dwarfs_umount_image env arg s))"
  using assms
  by (auto simp: bdfs_dwarfs_umount_image_def Let_def kernel_inv_find
      intro!: kernel_inv_set_private entry_ok_set_dwarfs dwarfs_priv_ok_update
      intro: entry_ok_dwarfsD kernel_inv_find
      split: option.split part_priv.split)

end
