(* ===== verification/Bdfs_Btrfs_Part.thy ===== *)
theory Bdfs_Btrfs_Part
  imports Bdfs_Kernel
begin

text \<open>
  BTRFS-backed partitions (\<open>bdfs_btrfs_part.c\<close>): the backend's init and destroy, storing
  an image file, importing an image into a subvolume, the snapshot of an image's
  container, and the list of subvolumes.  As in the source, only \<open>store\<close> checks the
  type of the partition it finds; the others read the private data as they are.
\<close>

section \<open>Backend operations\<close>

definition bdfs_btrfs_part_init :: "kenv \<Rightarrow> bdfs_partition_entry \<Rightarrow> bdfs_partition_entry kres" where
  "bdfs_btrfs_part_init env entry =
     (if kzalloc_fail env 1 then Inl (Eno ENOMEM)
      else Inr (entry\<lparr>ent_private := Some (BtrfsPriv
             \<lparr>bp_subvols = [], bp_images = [], bp_next_image_id = 1, bp_next_subvol_seq = 1\<rparr>)\<rparr>))"

definition bdfs_btrfs_part_destroy :: "bdfs_partition_entry \<Rightarrow> bdfs_partition_entry kres" where
  "bdfs_btrfs_part_destroy entry =
     (case ent_private entry of
        None \<Rightarrow> Inr entry
      | Some (BtrfsPriv _) \<Rightarrow> Inr (entry\<lparr>ent_private := None\<rparr>)
      | Some (DwarfsPriv _) \<Rightarrow> Inl Oops)"

section \<open>Tables of the private data\<close>

definition btrfs_add_image ::
  "bdfs_dwarfs_image \<Rightarrow> bdfs_btrfs_part_priv \<Rightarrow> bdfs_btrfs_part_priv" where
  "btrfs_add_image img p =
     p\<lparr>bp_images := bp_images p @ [\<lparr>bie_desc = img\<lparr>img_image_id := bp_next_image_id p\<rparr>,
                                     bie_container_subvol_id = 0\<rparr>],
       bp_next_image_id := bp_next_image_id p + 1\<rparr>"

definition btrfs_add_subvol ::
  "bdfs_btrfs_subvol \<Rightarrow> bdfs_btrfs_part_priv \<Rightarrow> bdfs_btrfs_part_priv" where
  "btrfs_add_subvol sv p =
     p\<lparr>bp_subvols := bp_subvols p @ [sv\<lparr>sv_subvol_id := bp_next_subvol_seq p\<rparr>],
       bp_next_subvol_seq := bp_next_subvol_seq p + 1\<rparr>"

definition btrfs_find_image :: "u64 \<Rightarrow> bdfs_btrfs_part_priv \<Rightarrow> bdfs_btrfs_image_entry option" where
  "btrfs_find_image image_id p = List.find (\<lambda>i. img_image_id (bie_desc i) = image_id) (bp_images p)"

section \<open>Store\<close>

definition store_image_desc :: "bdfs_ioctl_store_dwarfs_image \<Rightarrow> bdfs_partition \<Rightarrow> bdfs_dwarfs_image" where
  "store_image_desc arg part =
     zero_image\<lparr>img_name := strscpy (BDFS_NAME_MAX + 1) (st_dest_name arg),
       img_backing_path := snprintf BDFS_PATH_MAX (part_mount_point part @ ''/'' @ st_dest_name arg)\<rparr>"

definition store_event_msg :: "bdfs_ioctl_store_dwarfs_image \<Rightarrow> string \<Rightarrow> string" where
  "store_event_msg arg backing_path = snprintf BDFS_MSG_MAX
     (''store src='' @ st_source_path arg @ '' dest='' @ backing_path @
      '' flags=0x'' @ hex (unat (st_flags arg)))"

definition bdfs_btrfs_store_image ::
  "kenv \<Rightarrow> bdfs_ioctl_store_dwarfs_image \<Rightarrow> 'z kstate_scheme \<Rightarrow> u64 kres \<times> 'z kstate_scheme" where
  "bdfs_btrfs_store_image env arg s =
     (if copy_from_user_fail env then (Inl (Eno EFAULT), s)
      else case bdfs_find_partition_locked (st_partition_uuid arg) s of
        None \<Rightarrow> (Inl (Eno ENOENT), s)
      | Some entry \<Rightarrow>
          if part_type (ent_desc entry) \<noteq> BDFS_PART_BTRFS_BACKED then (Inl (Eno EINVAL), s)
          else if kzalloc_fail env 0 then (Inl (Eno ENOMEM), s)
          else case ent_private entry of
            Some (BtrfsPriv p) \<Rightarrow>
              let image_id = bp_next_image_id p;
                  img = store_image_desc arg (ent_desc entry);
                  s1 = set_private (st_partition_uuid arg) (BtrfsPriv (btrfs_add_image img p)) s;
                  s2 = bdfs_emit_event env BDFS_EVT_IMAGE_IMPORTED (Some (st_partition_uuid arg))
                         image_id (Some (store_event_msg arg (img_backing_path img))) s1
              in if uaccess_fail env (UArg 0) then (Inl (Eno EFAULT), s2) else (Inr image_id, s2)
          | _ \<Rightarrow> (Inl Oops, s))"

section \<open>Import\<close>

definition import_subvol :: "bdfs_ioctl_import_from_dwarfs \<Rightarrow> bdfs_btrfs_subvol" where
  "import_subvol arg =
     zero_subvol\<lparr>sv_is_readonly := (if and (im_flags arg) BDFS_IMPORT_READONLY \<noteq> 0 then 1 else 0),
       sv_is_snapshot := (if and (im_flags arg) BDFS_IMPORT_SNAPSHOT \<noteq> 0 then 1 else 0),
       sv_name := strscpy (BDFS_NAME_MAX + 1) (im_subvol_name arg),
       sv_path := snprintf BDFS_PATH_MAX (im_btrfs_mount arg @ ''/'' @ im_subvol_name arg)\<rparr>"

definition import_event_msg :: "bdfs_ioctl_import_from_dwarfs \<Rightarrow> string" where
  "import_event_msg arg = snprintf BDFS_MSG_MAX
     (''import image_id='' @ dec (unat (im_image_id arg)) @ '' subvol='' @ im_subvol_name arg @
      '' btrfs='' @ im_btrfs_mount arg @ '' flags=0x'' @ hex (unat (im_flags arg)))"

definition bdfs_btrfs_import ::
  "kenv \<Rightarrow> bdfs_ioctl_import_from_dwarfs \<Rightarrow> 'z kstate_scheme \<Rightarrow> u64 kres \<times> 'z kstate_scheme" where
  "bdfs_btrfs_import env arg s =
     (if copy_from_user_fail env then (Inl (Eno EFAULT), s)
      else case bdfs_find_partition_locked (im_partition_uuid arg) s of
        None \<Rightarrow> (Inl (Eno ENOENT), s)
      | Some entry \<Rightarrow>
          (case ent_private entry of
             Some (BtrfsPriv p) \<Rightarrow>
               (case btrfs_find_image (im_image_id arg) p of
                  None \<Rightarrow> (Inl (Eno ENOENT), s)
                | Some img \<Rightarrow>
                    if kzalloc_fail env 0 then (Inl (Eno ENOMEM), s)
                    else
                      let subvol_id = bp_next_subvol_seq p;
                          s1 = set_private (im_partition_uuid arg)
                                 (BtrfsPriv (btrfs_add_subvol (import_subvol arg) p)) s;
                          s2 = bdfs_emit_event env BDFS_EVT_IMAGE_IMPORTED
                                 (Some (im_partition_uuid arg)) (im_image_id arg)
                                 (Some (import_event_msg arg)) s1
                      in if uaccess_fail env (UArg 0) then (Inl (Eno EFAULT), s2)
                         else (Inr subvol_id, s2))
           | _ \<Rightarrow> (Inl Oops, s)))"

section \<open>Snapshot\<close>

definition snapshot_subvol ::
  "bdfs_ioctl_snapshot_dwarfs_container \<Rightarrow> bdfs_btrfs_image_entry \<Rightarrow> bdfs_btrfs_subvol" where
  "snapshot_subvol arg img =
     zero_subvol\<lparr>sv_parent_id := bie_container_subvol_id img, sv_is_snapshot := 1,
       sv_is_readonly := (if and (sc_flags arg) BDFS_SNAP_READONLY \<noteq> 0 then 1 else 0),
       sv_name := strscpy (BDFS_NAME_MAX + 1) (sc_snapshot_name arg)\<rparr>"

definition snapshot_event_msg :: "bdfs_ioctl_snapshot_dwarfs_container \<Rightarrow> u8 \<Rightarrow> string" where
  "snapshot_event_msg arg readonly = snprintf BDFS_MSG_MAX
     (''snapshot image_id='' @ dec (unat (sc_image_id arg)) @ '' snap='' @ sc_snapshot_name arg @
      '' readonly='' @ dec (unat readonly))"

definition bdfs_btrfs_snapshot_container ::
  "kenv \<Rightarrow> bdfs_ioctl_snapshot_dwarfs_container \<Rightarrow> 'z kstate_scheme \<Rightarrow> u64 kres \<times> 'z kstate_scheme" where
  "bdfs_btrfs_snapshot_container env arg s =
     (if copy_from_user_fail env then (Inl (Eno EFAULT), s)
      else case bdfs_find_partition_locked (sc_partition_uuid arg) s of
        None \<Rightarrow> (Inl (Eno ENOENT), s)
      | Some entry \<Rightarrow>
          (case ent_private entry of
             Some (BtrfsPriv p) \<Rightarrow>
               (case btrfs_find_image (sc_image_id arg) p of
                  None \<Rightarrow> (Inl (Eno ENOENT), s)
                | Some img \<Rightarrow>
                    if kzalloc_fail env 0 then (Inl (Eno ENOMEM), s)
                    else
                      let subvol_id = bp_next_subvol_seq p;
                          snap = snapshot_subvol arg img;
                          s1 = set_private (sc_partition_uuid arg) (BtrfsPriv (btrfs_add_subvol snap p)) s;
                          s2 = bdfs_emit_event env BDFS_EVT_SNAPSHOT_CREATED
                                 (Some (sc_partition_uuid arg)) subvol_id
                                 (Some (snapshot_event_msg arg (sv_is_readonly snap))) s1
                      in if uaccess_fail env (UArg 0) then (Inl (Eno EFAULT), s2)
                         else (Inr subvol_id, s2))
           | _ \<Rightarrow> (Inl Oops, s)))"

section \<open>List\<close>

definition bdfs_btrfs_list_subvols ::
  "kenv \<Rightarrow> bdfs_ioctl_list_btrfs_subvols \<Rightarrow> 'z kstate_scheme \<Rightarrow> unit kres \<times> bdfs_btrfs_subvol list_out" where
  "bdfs_btrfs_list_subvols env arg s =
     (if copy_from_user_fail env then (Inl (Eno EFAULT), no_list_out)
      else case bdfs_find_partition_locked (ls_partition_uuid arg) s of
        None \<Rightarrow> (Inl (Eno ENOENT), no_list_out)
      | Some entry \<Rightarrow>
          (case ent_private entry of
             Some (BtrfsPriv p) \<Rightarrow> list_ioctl env (ls_count arg) (ls_subvols arg) (bp_subvols p)
           | _ \<Rightarrow> (Inl Oops, no_list_out)))"

section \<open>Lemmas\<close>

interpretation btrfs_image_ids: id_alloc "\<lambda>p. map (\<lambda>i. img_image_id (bie_desc i)) (bp_images p)"
    bp_next_image_id btrfs_add_image
  by unfold_locales (simp_all add: btrfs_add_image_def)

interpretation btrfs_subvol_ids: id_alloc "\<lambda>p. map sv_subvol_id (bp_subvols p)"
    bp_next_subvol_seq btrfs_add_subvol
  by unfold_locales (simp_all add: btrfs_add_subvol_def)

lemma btrfs_add_frame [simp]:
  "bp_subvols (btrfs_add_image img p) = bp_subvols p"
  "bp_next_subvol_seq (btrfs_add_image img p) = bp_next_subvol_seq p"
  "bp_images (btrfs_add_subvol sv p) = bp_images p"
  "bp_next_image_id (btrfs_add_subvol sv p) = bp_next_image_id p"
  by (simp_all add: btrfs_add_image_def btrfs_add_subvol_def)

lemma btrfs_priv_ok_add_image:
  "priv_ok (BtrfsPriv p) \<Longrightarrow> priv_ok (BtrfsPriv (btrfs_add_image img p))"
  using btrfs_image_ids.seq_alloc [of p img] by simp

lemma btrfs_priv_ok_add_subvol:
  "priv_ok (BtrfsPriv p) \<Longrightarrow> priv_ok (BtrfsPriv (btrfs_add_subvol sv p))"
  using btrfs_subvol_ids.seq_alloc [of p sv] by simp

lemma entry_ok_set_btrfs:
  "entry_ok e \<Longrightarrow> ent_private e = Some (BtrfsPriv p) \<Longrightarrow> priv_ok (BtrfsPriv p') \<Longrightarrow>
   entry_ok (e\<lparr>ent_private := Some (BtrfsPriv p')\<rparr>)"
  by (simp add: entry_ok_def)

lemma entry_ok_btrfsD: "entry_ok e \<Longrightarrow> ent_private e = Some (BtrfsPriv p) \<Longrightarrow> priv_ok (BtrfsPriv p)"
  by (simp add: entry_ok_def)

lemma btrfs_store_inv: "kernel_inv s \<Longrightarrow> kernel_inv (snd (bdfs_btrfs_store_image env arg s))"
  by (auto simp: bdfs_btrfs_store_image_def Let_def kernel_inv_find
      intro!: kernel_inv_set_private entry_ok_set_btrfs btrfs_priv_ok_add_image
      intro: entry_ok_btrfsD kernel_inv_find
      split: option.split part_priv.split)

lemma btrfs_import_inv: "kernel_inv s \<Longrightarrow> kernel_inv (snd (bdfs_btrfs_import env arg s))"
  by (auto simp: bdfs_btrfs_import_def Let_def kernel_inv_find
      intro!: kernel_inv_set_private entry_ok_set_btrfs btrfs_priv_ok_add_subvol
      intro: entry_ok_btrfsD kernel_inv_find
      split: option.split part_priv.split)

lemma btrfs_snapshot_inv:
  "kernel_inv s \<Longrightarrow> kernel_inv (snd (bdfs_btrfs_snapshot_container env arg s))"
  by (auto simp: bdfs_btrfs_snapshot_container_def Let_def kernel_inv_find
      intro!: kernel_inv_set_private entry_ok_set_btrfs btrfs_priv_ok_add_subvol
      intro: entry_ok_btrfsD kernel_inv_find
      split: option.split part_priv.split)

end
