(* ===== verification/Bdfs_Registry.thy ===== *)
theory Bdfs_Registry
  imports Bdfs_Dwarfs_Part Bdfs_Btrfs_Part
begin

text \<open>
  Registration and removal of partitions (\<open>bdfs_main.c\<close>) through the backend operations of
  the partition's type (\<open>struct bdfs_part_ops\<close> of \<open>bdfs_internal.h\<close>), and what they promise
  to the other ioctls: the registry invariant, and what a lookup finds afterwards.
\<close>

section \<open>The backend vtable\<close>

definition bdfs_blend_part_init :: "bdfs_partition_entry \<Rightarrow> bdfs_partition_entry kres" where
  "bdfs_blend_part_init entry = Inr entry"

fun part_ops_init :: "bdfs_part_ops \<Rightarrow> kenv \<Rightarrow> bdfs_partition_entry \<Rightarrow> bdfs_partition_entry kres" where
  "part_ops_init Dwarfs_part_ops env entry = bdfs_dwarfs_part_init env entry"
| "part_ops_init Btrfs_part_ops env entry = bdfs_btrfs_part_init env entry"
| "part_ops_init Blend_part_ops env entry = bdfs_blend_part_init entry"

text \<open>The blend operations have no \<open>destroy\<close>.\<close>

fun part_ops_destroy :: "bdfs_part_ops \<Rightarrow> bdfs_partition_entry \<Rightarrow> bdfs_partition_entry kres" where
  "part_ops_destroy Dwarfs_part_ops entry = bdfs_dwarfs_part_destroy entry"
| "part_ops_destroy Btrfs_part_ops entry = bdfs_btrfs_part_destroy entry"
| "part_ops_destroy Blend_part_ops entry = Inr entry"

definition select_part_ops :: "u32 \<Rightarrow> bdfs_part_ops option" where
  "select_part_ops t =
     (if t = BDFS_PART_DWARFS_BACKED then Some Dwarfs_part_ops
      else if t = BDFS_PART_BTRFS_BACKED then Some Btrfs_part_ops
      else if t = BDFS_PART_HYBRID_BLEND then Some Blend_part_ops
      else None)"

section \<open>Register and unregister\<close>

definition uuid_is_zero :: "uuid \<Rightarrow> bool" where
  "uuid_is_zero u \<longleftrightarrow> list_all (\<lambda>b. b = 0) u"

definition assign_uuid :: "kenv \<Rightarrow> bdfs_partition \<Rightarrow> bdfs_partition" where
  "assign_uuid env desc =
     (if uuid_is_zero (part_uuid desc) then desc\<lparr>part_uuid := random_uuid env\<rparr> else desc)"

text \<open>
  The UUID is copied to \<open>arg.uuid_out\<close>, which is the kernel's own copy of the argument.
\<close>

definition bdfs_register_partition ::
  "kenv \<Rightarrow> bdfs_ioctl_register_partition \<Rightarrow> 'z kstate_scheme \<Rightarrow> unit kres \<times> 'z kstate_scheme" where
  "bdfs_register_partition env arg s =
     (if copy_from_user_fail env then (Inl (Eno EFAULT), s)
      else if part_magic (rp_part arg) \<noteq> BDFS_MAGIC then (Inl (Eno EINVAL), s)
      else if kzalloc_fail env 0 then (Inl (Eno ENOMEM), s)
      else
        let desc = assign_uuid env (rp_part arg) in
        case select_part_ops (part_type desc) of
          None \<Rightarrow> (Inl (Eno EINVAL), s)
        | Some ops \<Rightarrow>
            (case part_ops_init ops env
                    \<lparr>ent_desc = desc, ent_ops = ops, ent_private = None, ent_refcount = 1\<rparr> of
               Inl err \<Rightarrow> (Inl err, s)
             | Inr entry \<Rightarrow>
                 let s1 = registry_add entry s;
                     ret = (if uaccess_fail env KStack then Inl (Eno EFAULT) else Inr ())
                 in (ret, bdfs_emit_event env BDFS_EVT_PARTITION_ADDED (Some (entry_uuid entry)) 0 None s1)))"

definition bdfs_unregister_partition ::
  "kenv \<Rightarrow> bdfs_ioctl_unregister_partition \<Rightarrow> 'z kstate_scheme \<Rightarrow> unit kres \<times> 'z kstate_scheme" where
  "bdfs_unregister_partition env arg s =
     (if copy_from_user_fail env then (Inl (Eno EFAULT), s)
      else case bdfs_find_partition_locked (up_uuid arg) s of
        None \<Rightarrow> (Inl (Eno ENOENT), s)
      | Some entry \<Rightarrow>
          let s1 = registry_del (up_uuid arg) s in
          (case part_ops_destroy (ent_ops entry) entry of
             Inl err \<Rightarrow> (Inl err, s1)
           | Inr entry' \<Rightarrow>
               (Inr (), bdfs_emit_event env BDFS_EVT_PARTITION_REMOVED
                  (Some (entry_uuid entry')) 0 None s1)))"

section \<open>Calls that may succeed\<close>

definition register_allowed :: "kenv \<Rightarrow> bdfs_partition \<Rightarrow> bool" where
  "register_allowed env part \<longleftrightarrow>
     \<not> copy_from_user_fail env \<and> \<not> kzalloc_fail env 0 \<and>
     part_magic part = BDFS_MAGIC \<and>
     (part_type part = BDFS_PART_HYBRID_BLEND \<or>
      (part_type part = BDFS_PART_DWARFS_BACKED \<or> part_type part = BDFS_PART_BTRFS_BACKED) \<and>
      \<not> kzalloc_fail env 1)"

section \<open>Lemmas\<close>

lemma select_part_ops_type:
  "select_part_ops t = Some ops \<longleftrightarrow>
     (t = BDFS_PART_DWARFS_BACKED \<and> ops = Dwarfs_part_ops) \<or>
     (t = BDFS_PART_BTRFS_BACKED \<and> ops = Btrfs_part_ops) \<or>
     (t = BDFS_PART_HYBRID_BLEND \<and> ops = Blend_part_ops)"
  by (auto simp: select_part_ops_def)

lemma assign_uuid_frame [simp]:
  "part_magic (assign_uuid env d) = part_magic d"
  "part_type (assign_uuid env d) = part_type d"
  "part_mount_point (assign_uuid env d) = part_mount_point d"
  by (simp_all add: assign_uuid_def)

lemma part_ops_init_desc:
  "part_ops_init ops env e = Inr e' \<Longrightarrow> ent_desc e' = ent_desc e \<and> ent_ops e' = ent_ops e"
  by (cases ops)
    (auto simp: bdfs_dwarfs_part_init_def bdfs_btrfs_part_init_def bdfs_blend_part_init_def
      split: if_splits)

lemma part_ops_init_ok:
  assumes "part_ops_init ops env \<lparr>ent_desc = d, ent_ops = ops, ent_private = None, ent_refcount = n\<rparr> = Inr e"
    and "select_part_ops (part_type d) = Some ops" and "part_magic d = BDFS_MAGIC"
  shows "entry_ok e"
  using assms
  by (cases ops)
    (auto simp: bdfs_dwarfs_part_init_def bdfs_btrfs_part_init_def bdfs_blend_part_init_def
      select_part_ops_type entry_ok_def split: if_splits)

lemma part_ops_destroy_ok:
  "entry_ok e \<Longrightarrow> \<exists>e'. part_ops_destroy (ent_ops e) e = Inr e' \<and> ent_desc e' = ent_desc e"
  by (cases "ent_ops e")
    (auto simp: entry_ok_def bdfs_dwarfs_part_destroy_def bdfs_btrfs_part_destroy_def
      split: option.splits part_priv.splits)

lemma kernel_inv_add: "kernel_inv s \<Longrightarrow> entry_ok e \<Longrightarrow> kernel_inv (registry_add e s)"
  by (simp add: kernel_inv_def registry_add_def)

lemma kernel_inv_del:
  assumes "kernel_inv s" and "bdfs_find_partition_locked u s = Some e"
  shows "kernel_inv (registry_del u s)"
proof -
  have "Suc (length (partition_list (registry_del u s))) = length (partition_list s)"
    using registry.length_del [OF assms(2)] .
  then have "(of_nat (length (partition_list s)) :: u32) =
      of_nat (length (partition_list (registry_del u s))) + 1"
    by (metis of_nat_Suc add.commute)
  moreover have "set (partition_list (registry_del u s)) \<subseteq> set (partition_list s)"
    by (simp add: registry_del_def set_remove_first_subset)
  ultimately show ?thesis
    using assms(1) by (auto simp: kernel_inv_def registry_del_def)
qed

lemma register_partition_inv:
  "kernel_inv s \<Longrightarrow> kernel_inv (snd (bdfs_register_partition env arg s))"
  by (auto simp: bdfs_register_partition_def Let_def split: option.split sum.split
      intro!: kernel_inv_add part_ops_init_ok)

lemma unregister_partition_inv:
  assumes "kernel_inv s"
  shows "kernel_inv (snd (bdfs_unregister_partition env arg s))"
  using assms
  by (auto simp: bdfs_unregister_partition_def Let_def split: option.split sum.split
      intro: kernel_inv_del)

text \<open>What a permitted registration adds.\<close>

lemma register_allowed_init:
  assumes "register_allowed env part"
  obtains ops entry where "select_part_ops (part_type part) = Some ops"
    and "part_ops_init ops env \<lparr>ent_desc = assign_uuid env part, ent_ops = ops,
           ent_private = None, ent_refcount = 1\<rparr> = Inr entry"
    and "ent_desc entry = assign_uuid env part"
proof -
  obtain ops where ops: "select_part_ops (part_type part) = Some ops"
    using assms by (auto simp: register_allowed_def select_part_ops_def)
  then obtain entry where e: "part_ops_init ops env \<lparr>ent_desc = assign_uuid env part,
      ent_ops = ops, ent_private = None, ent_refcount = 1\<rparr> = Inr entry"
    using assms
    by (cases ops) (auto simp: register_allowed_def select_part_ops_type
        bdfs_dwarfs_part_init_def bdfs_btrfs_part_init_def bdfs_blend_part_init_def)
  then show ?thesis using ops part_ops_init_desc [OF e] that by simp
qed

lemma register_partition_list:
  assumes "register_allowed env (rp_part arg)"
  obtains entry where "ent_desc entry = assign_uuid env (rp_part arg)"
    and "bdfs_register_partition env arg s =
      (if uaccess_fail env KStack then Inl (Eno EFAULT) else Inr (),
       bdfs_emit_event env BDFS_EVT_PARTITION_ADDED (Some (entry_uuid entry)) 0 None
         (registry_add entry s))"
proof -
  obtain ops entry where e: "select_part_ops (part_type (rp_part arg)) = Some ops"
    "part_ops_init ops env \<lparr>ent_desc = assign_uuid env (rp_part arg), ent_ops = ops,
       ent_private = None, ent_refcount = 1\<rparr> = Inr entry"
    "ent_desc entry = assign_uuid env (rp_part arg)"
    using register_allowed_init [OF assms] .
  then have "bdfs_register_partition env arg s =
      (if uaccess_fail env KStack then Inl (Eno EFAULT) else Inr (),
       bdfs_emit_event env BDFS_EVT_PARTITION_ADDED (Some (entry_uuid entry)) 0 None
         (registry_add entry s))"
    using assms by (simp add: bdfs_register_partition_def register_allowed_def Let_def)
  then show ?thesis using that e(3) by blast
qed

text \<open>A call that is not permitted changes nothing.\<close>

lemma register_refused:
  "\<not> register_allowed env (rp_part arg) \<Longrightarrow>
   snd (bdfs_register_partition env arg s) = s \<and>
   (\<exists>e. fst (bdfs_register_partition env arg s) = Inl (Eno e))"
  by (auto simp: bdfs_register_partition_def register_allowed_def select_part_ops_def Let_def
      bdfs_dwarfs_part_init_def bdfs_btrfs_part_init_def bdfs_blend_part_init_def)

end
