(* ===== verification/Bdfs_Vfs.thy ===== *)
theory Bdfs_Vfs
  imports Bdfs_Registry
begin

text \<open>
  The kernel's virtual file system as the blend layer sees it.  It is not part of the
  sources: the operations the blend layer calls are the fields of a record \<open>vfs\<close> that
  every definition takes as an argument, over an arbitrary state \<open>'f\<close> of the backing file
  systems.  A dentry is its superblock and the names from that superblock's root; the
  root dentry has no names.

  \<open>tree_vfs\<close> is one concrete instance, a table of files per superblock, on which the
  operations of the blend layer can be evaluated.
\<close>

section \<open>Dentries, mounts, paths\<close>

record dentry =
  d_sb :: nat
  d_names :: "string list"

definition IS_ROOT :: "dentry \<Rightarrow> bool" where
  "IS_ROOT d \<longleftrightarrow> d_names d = []"

record vfsmount =
  mnt_id :: nat
  mnt_root :: dentry

record vpath =
  p_mnt :: vfsmount
  p_dentry :: dentry

text \<open>The attributes of a backing inode that the blend layer mirrors.\<close>

record rinode =
  ri_ino :: u64
  ri_mode :: u16
  ri_uid :: u32
  ri_gid :: u32
  ri_size :: u64
  ri_atime :: u64
  ri_mtime :: u64
  ri_ctime :: u64
  ri_nlink :: u32
  ri_rdev :: u32

definition S_ISDIR :: "u16 \<Rightarrow> bool" where "S_ISDIR m \<longleftrightarrow> and m 0xF000 = 0x4000"
definition S_ISREG :: "u16 \<Rightarrow> bool" where "S_ISREG m \<longleftrightarrow> and m 0xF000 = 0x8000"
definition S_ISLNK :: "u16 \<Rightarrow> bool" where "S_ISLNK m \<longleftrightarrow> and m 0xF000 = 0xA000"

record dirent =
  de_name :: string
  de_ino :: u64
  de_type :: u32
  de_pos :: nat

section \<open>The operations\<close>

text \<open>
  Operations that only read take the state and return a result; operations that write
  return an error (if any) and the new state.  \<open>vfs_iterate\<close> gives what \<open>iterate_dir\<close> passes
  to its callback on a directory just opened: \<open>iterate_dir\<close> starts at the file's own
  position, which is 0 then, whatever the context says.  Each entry comes with its
  position, the list with the position of its end.
  An attribute change (\<open>struct iattr\<close>) is the function it performs on the attributes.
\<close>

record 'f vfs =
  vfs_path_lookup :: "dentry \<Rightarrow> vfsmount \<Rightarrow> string \<Rightarrow> 'f \<Rightarrow> errno + vpath"
  kern_path :: "string \<Rightarrow> 'f \<Rightarrow> errno + vpath"
  vfs_d_inode :: "dentry \<Rightarrow> 'f \<Rightarrow> rinode option"
  lookup_one :: "string \<Rightarrow> dentry \<Rightarrow> 'f \<Rightarrow> errno + dentry"
  vfs_d_path :: "vpath \<Rightarrow> nat \<Rightarrow> 'f \<Rightarrow> errno + string"
  vfs_create :: "dentry \<Rightarrow> dentry \<Rightarrow> u16 \<Rightarrow> bool \<Rightarrow> 'f \<Rightarrow> errno option \<times> 'f"
  vfs_mkdir :: "dentry \<Rightarrow> dentry \<Rightarrow> u16 \<Rightarrow> 'f \<Rightarrow> (errno + dentry) \<times> 'f"
  vfs_symlink :: "dentry \<Rightarrow> dentry \<Rightarrow> string \<Rightarrow> 'f \<Rightarrow> errno option \<times> 'f"
  vfs_unlink :: "dentry \<Rightarrow> dentry \<Rightarrow> 'f \<Rightarrow> errno option \<times> 'f"
  vfs_rmdir :: "dentry \<Rightarrow> dentry \<Rightarrow> 'f \<Rightarrow> errno option \<times> 'f"
  vfs_rename :: "dentry \<Rightarrow> dentry \<Rightarrow> dentry \<Rightarrow> dentry \<Rightarrow> u32 \<Rightarrow> 'f \<Rightarrow> errno option \<times> 'f"
  vfs_link :: "dentry \<Rightarrow> dentry \<Rightarrow> dentry \<Rightarrow> 'f \<Rightarrow> errno option \<times> 'f"
  setattr_prepare :: "dentry \<Rightarrow> (rinode \<Rightarrow> rinode) \<Rightarrow> 'f \<Rightarrow> errno option"
  notify_change :: "dentry \<Rightarrow> (rinode \<Rightarrow> rinode) \<Rightarrow> 'f \<Rightarrow> errno option \<times> 'f"
  dentry_open :: "vpath \<Rightarrow> 'f \<Rightarrow> errno option"
  finish_open :: "dentry \<Rightarrow> 'f \<Rightarrow> errno option"
  vfs_write :: "vpath \<Rightarrow> string \<Rightarrow> 'f \<Rightarrow> (errno + nat) \<times> 'f"
  vfs_file_size :: "vpath \<Rightarrow> 'f \<Rightarrow> u64"
  vfs_iterate :: "vpath \<Rightarrow> 'f \<Rightarrow> errno option \<times> dirent list \<times> nat"
  vfs_listxattr :: "dentry \<Rightarrow> 'f \<Rightarrow> errno + string"
  vfs_get_link :: "dentry \<Rightarrow> 'f \<Rightarrow> (errno + string) option"
  vfs_statfs :: "vpath \<Rightarrow> 'f \<Rightarrow> errno option \<times> u64"
  full_name_hash :: "string \<Rightarrow> u32"

section \<open>Path strings\<close>

fun join_names :: "string list \<Rightarrow> string" where
  "join_names [] = []"
| "join_names [n] = n"
| "join_names (n # ns) = n @ CHR ''/'' # join_names ns"

fun split_path :: "string \<Rightarrow> string \<Rightarrow> string list" where
  "split_path acc [] = (if acc = [] then [] else [acc])"
| "split_path acc (c # cs) =
     (if c = CHR ''/'' then (if acc = [] then split_path [] cs else acc # split_path [] cs)
      else split_path (acc @ [c]) cs)"

definition path_names :: "string \<Rightarrow> string list" where
  "path_names s = split_path [] s"

definition valid_name :: "string \<Rightarrow> bool" where
  "valid_name n \<longleftrightarrow> n \<noteq> [] \<and> CHR ''/'' \<notin> set n"

section \<open>Documented behaviour of path lookup\<close>

text \<open>
  Walking one more component from where a walk ended is the longer walk.
\<close>

definition vfs_walk_composes :: "'f vfs \<Rightarrow> vfsmount \<Rightarrow> 'f \<Rightarrow> bool" where
  "vfs_walk_composes v m fs \<longleftrightarrow>
     (\<forall>ps n p. (\<forall>x \<in> set (ps @ [n]). valid_name x) \<longrightarrow>
        vfs_path_lookup v (mnt_root m) m (join_names ps) fs = Inr p \<longrightarrow>
        vfs_path_lookup v (p_dentry p) (p_mnt p) n fs =
        vfs_path_lookup v (mnt_root m) m (join_names (ps @ [n])) fs)"

section \<open>A concrete instance\<close>

type_synonym tree_fs = "((nat \<times> string list) \<times> rinode) list"

definition tree_lookup :: "nat \<Rightarrow> string list \<Rightarrow> tree_fs \<Rightarrow> rinode option" where
  "tree_lookup sb ns fs = map_of fs (sb, ns)"

definition tree_add :: "dentry \<Rightarrow> u16 \<Rightarrow> tree_fs \<Rightarrow> errno option \<times> tree_fs" where
  "tree_add d mode fs =
     (if tree_lookup (d_sb d) (d_names d) fs \<noteq> None then (Some EEXIST, fs)
      else (None, ((d_sb d, d_names d),
              \<lparr>ri_ino = of_nat (Suc (length fs)), ri_mode = mode, ri_uid = 0, ri_gid = 0, ri_size = 0,
               ri_atime = 0, ri_mtime = 0, ri_ctime = 0, ri_nlink = 1, ri_rdev = 0\<rparr>) # fs))"

definition tree_del :: "dentry \<Rightarrow> tree_fs \<Rightarrow> errno option \<times> tree_fs" where
  "tree_del d fs =
     (if tree_lookup (d_sb d) (d_names d) fs = None then (Some ENOENT, fs)
      else (None, filter (\<lambda>e. fst e \<noteq> (d_sb d, d_names d)) fs))"

definition tree_path_lookup :: "dentry \<Rightarrow> vfsmount \<Rightarrow> string \<Rightarrow> tree_fs \<Rightarrow> errno + vpath" where
  "tree_path_lookup d m s fs =
     (let ns = d_names d @ path_names s in
      if tree_lookup (d_sb d) ns fs = None then Inl ENOENT
      else Inr \<lparr>p_mnt = m, p_dentry = \<lparr>d_sb = d_sb d, d_names = ns\<rparr>\<rparr>)"

definition tree_children :: "dentry \<Rightarrow> tree_fs \<Rightarrow> (string \<times> rinode) list" where
  "tree_children d fs =
     map (\<lambda>((sb, ns), i). (last ns, i))
       (filter (\<lambda>((sb, ns), i). sb = d_sb d \<and> ns \<noteq> [] \<and> butlast ns = d_names d) fs)"

definition tree_iterate :: "vpath \<Rightarrow> tree_fs \<Rightarrow> errno option \<times> dirent list \<times> nat" where
  "tree_iterate p fs =
     (let cs = tree_children (p_dentry p) fs in
      (None, map (\<lambda>(k, (n, i)). \<lparr>de_name = n, de_ino = ri_ino i, de_type = 0, de_pos = k\<rparr>)
               (List.zip [0..<length cs] cs), length cs))"

text \<open>The DJB-style hash stands for the kernel's \<open>full_name_hash\<close>.\<close>

definition tree_hash :: "string \<Rightarrow> u32" where
  "tree_hash n = foldl (\<lambda>h c. h * 31 + of_char c) 0 n"

definition tree_vfs :: "tree_fs vfs" where
  "tree_vfs = \<lparr>vfs_path_lookup = tree_path_lookup,
     kern_path = (\<lambda>s fs. tree_path_lookup \<lparr>d_sb = 0, d_names = []\<rparr>
                    \<lparr>mnt_id = 0, mnt_root = \<lparr>d_sb = 0, d_names = []\<rparr>\<rparr> s fs),
     vfs_d_inode = (\<lambda>d fs. tree_lookup (d_sb d) (d_names d) fs),
     lookup_one = (\<lambda>n d fs. Inr \<lparr>d_sb = d_sb d, d_names = d_names d @ [n]\<rparr>),
     vfs_d_path = (\<lambda>p n fs. let s = CHR ''/'' # join_names (d_names (p_dentry p))
                            in if n < length s + 1 then Inl ENAMETOOLONG else Inr s),
     vfs_create = (\<lambda>dir d mode excl fs. tree_add d mode fs),
     vfs_mkdir = (\<lambda>dir d mode fs. case tree_add d (or mode 0x4000) fs of
                    (Some e, fs') \<Rightarrow> (Inl e, fs') | (None, fs') \<Rightarrow> (Inr d, fs')),
     vfs_symlink = (\<lambda>dir d target fs. tree_add d 0xA1FF fs),
     vfs_unlink = (\<lambda>dir d fs. tree_del d fs),
     vfs_rmdir = (\<lambda>dir d fs. tree_del d fs),
     vfs_rename = (\<lambda>odir od ndir nd flags fs.
        case tree_lookup (d_sb od) (d_names od) fs of
          None \<Rightarrow> (Some ENOENT, fs)
        | Some i \<Rightarrow> (None, ((d_sb nd, d_names nd), i) #
             filter (\<lambda>e. fst e \<noteq> (d_sb od, d_names od) \<and> fst e \<noteq> (d_sb nd, d_names nd)) fs)),
     vfs_link = (\<lambda>od dir nd fs.
        case tree_lookup (d_sb od) (d_names od) fs of
          None \<Rightarrow> (Some ENOENT, fs)
        | Some i \<Rightarrow> (None, ((d_sb nd, d_names nd), i) # fs)),
     setattr_prepare = (\<lambda>d a fs. None),
     notify_change = (\<lambda>d a fs.
        case tree_lookup (d_sb d) (d_names d) fs of
          None \<Rightarrow> (Some ENOENT, fs)
        | Some i \<Rightarrow> (None, ((d_sb d, d_names d), a i) # fs)),
     dentry_open = (\<lambda>p fs. None),
     finish_open = (\<lambda>d fs. None),
     vfs_write = (\<lambda>p data fs. (Inr (length data), fs)),
     vfs_file_size = (\<lambda>p fs. case tree_lookup (d_sb (p_dentry p)) (d_names (p_dentry p)) fs of
                        None \<Rightarrow> 0 | Some i \<Rightarrow> ri_size i),
     vfs_iterate = tree_iterate,
     vfs_listxattr = (\<lambda>d fs. Inr []),
     vfs_get_link = (\<lambda>d fs. None),
     vfs_statfs = (\<lambda>p fs. (None, 0)),
     full_name_hash = tree_hash\<rparr>"

section \<open>Lemmas on path strings\<close>

lemma split_path_name:
  "CHR ''/'' \<notin> set n \<Longrightarrow> split_path acc (n @ s) = split_path (acc @ n) s"
  by (induction n arbitrary: acc) auto

lemma split_join:
  "\<forall>n \<in> set ns. valid_name n \<Longrightarrow> split_path [] (join_names ns) = ns"
proof (induction ns rule: join_names.induct)
  case (2 n)
  then show ?case using split_path_name [of n "[]" "[]"] by (simp add: valid_name_def)
next
  case (3 n m ns)
  then show ?case by (simp add: valid_name_def split_path_name)
qed simp

lemma path_names_join [simp]: "\<forall>n \<in> set ns. valid_name n \<Longrightarrow> path_names (join_names ns) = ns"
  by (simp add: path_names_def split_join)

lemma path_names_single: "valid_name n \<Longrightarrow> path_names n = [n]"
  using path_names_join [of "[n]"] by simp

lemma tree_vfs_walk_composes: "vfs_walk_composes tree_vfs m fs"
proof -
  have "tree_path_lookup (p_dentry p) (p_mnt p) n fs =
      tree_path_lookup (mnt_root m) m (join_names (ps @ [n])) fs"
    if v: "\<forall>x \<in> set (ps @ [n]). valid_name x"
      and p: "tree_path_lookup (mnt_root m) m (join_names ps) fs = Inr p" for ps n p
  proof -
    have "path_names (join_names ps) = ps" "path_names n = [n]"
      "path_names (join_names (ps @ [n])) = ps @ [n]"
      using v path_names_join [OF v] by (simp_all add: path_names_single)
    then show ?thesis
      using p by (auto simp: tree_path_lookup_def Let_def split: if_splits)
  qed
  then show ?thesis by (simp add: vfs_walk_composes_def tree_vfs_def)
qed

end
