(* ===== verification/Bdfs_Blend.thy ===== *)
theory Bdfs_Blend
  imports Bdfs_Vfs
begin

text \<open>
  The blend file system (\<open>bdfs_blend.c\<close>): its mounts and inodes, the relative path of a
  dentry, and name lookup across the BTRFS upper layer and the DwarFS lower layers, with
  the read-only inode operations.

  Blend inodes live in a heap of the state, addressed by number; \<open>sb->s_fs_info\<close> is the
  argument \<open>bm\<close>, \<open>None\<close> when NULL.  A NULL dereference is \<open>Oops\<close>.  Allocation sites are
  numbered: 0 the path buffer, 2 \<open>new_inode\<close>, 3 the copy-up table entry.  Reference counts
  of paths, mounts and dentries belong to the VFS and are left out; those of blend inodes
  are kept.  \<open>d_splice_alias\<close> is called on a fresh inode only, for which it attaches the
  inode to the dentry.
\<close>

section \<open>State\<close>

abbreviation (input) PATH_MAX :: nat where "PATH_MAX \<equiv> 4096"
abbreviation (input) BDFS_BLEND_MAGIC :: u64 where "BDFS_BLEND_MAGIC \<equiv> 0xBD75B1E0"
abbreviation (input) BDFS_LAYER_UPPER :: u32 where "BDFS_LAYER_UPPER \<equiv> 0"
abbreviation (input) BDFS_LAYER_LOWER :: u32 where "BDFS_LAYER_LOWER \<equiv> 1"

record bdfs_dwarfs_layer =
  layer_mnt :: "vfsmount option"
  layer_partition_uuid :: uuid
  layer_image_id :: u64
  layer_priority :: int

text \<open>\<open>bm_addr\<close> is the address of the structure, which \<open>list_del\<close> depends on.\<close>

record bdfs_blend_mount =
  bm_addr :: nat
  bm_mount_point :: string
  bm_btrfs_mnt :: "vfsmount option"
  bm_btrfs_uuid :: uuid
  bm_dwarfs_layers :: "bdfs_dwarfs_layer list"
  bm_opts :: bdfs_mount_opts
  bm_sb :: "nat option"

datatype blend_iops = Dir_iops | File_iops | Symlink_iops | Special_iops

record bdfs_blend_inode_info =
  bi_attr :: rinode
  bi_iops :: blend_iops
  bi_real_path :: "vpath option"
  bi_is_upper :: bool
  bi_copyup_done :: u32
  bi_upper_file :: "vpath option"
  bi_count :: nat

record bdfs_copyup_entry =
  cu_btrfs_uuid :: uuid
  cu_inode_no :: u64
  cu_inode :: nat

record 'f bstate = kstate +
  blend_mounts :: "bdfs_blend_mount list"
  next_bm :: nat
  copyup_table :: "bdfs_copyup_entry list"
  inodes :: "nat \<Rightarrow> bdfs_blend_inode_info option"
  next_inode :: nat
  dcache :: "string list \<Rightarrow> nat option"
  deactivated :: "nat list"
  inode_cachep :: bool
  blend_fs_registered :: bool
  ctl_dev_registered :: bool
  backing :: 'f

definition zero_rinode :: rinode where
  "zero_rinode = \<lparr>ri_ino = 0, ri_mode = 0, ri_uid = 0, ri_gid = 0, ri_size = 0, ri_atime = 0,
     ri_mtime = 0, ri_ctime = 0, ri_nlink = 1, ri_rdev = 0\<rparr>"

section \<open>Inodes\<close>

text \<open>\<open>bdfs_blend_alloc_inode\<close>, called by \<open>new_inode\<close>: everything zero, one reference.\<close>

definition bdfs_blend_alloc_inode :: bdfs_blend_inode_info where
  "bdfs_blend_alloc_inode = \<lparr>bi_attr = zero_rinode, bi_iops = Special_iops, bi_real_path = None,
     bi_is_upper = False, bi_copyup_done = 0, bi_upper_file = None, bi_count = 1\<rparr>"

definition new_inode :: "kenv \<Rightarrow> 'f bstate \<Rightarrow> nat option \<times> 'f bstate" where
  "new_inode env s =
     (if kzalloc_fail env 2 then (None, s)
      else (Some (next_inode s),
            s\<lparr>inodes := (inodes s)(next_inode s \<mapsto> bdfs_blend_alloc_inode),
              next_inode := Suc (next_inode s)\<rparr>))"

definition iops_of_mode :: "u16 \<Rightarrow> blend_iops" where
  "iops_of_mode m =
     (if S_ISDIR m then Dir_iops else if S_ISREG m then File_iops
      else if S_ISLNK m then Symlink_iops else Special_iops)"

text \<open>\<open>Inr None\<close> is the NULL the callers turn into \<open>-ENOMEM\<close>.\<close>

definition bdfs_blend_make_inode ::
  "'f vfs \<Rightarrow> kenv \<Rightarrow> vpath \<Rightarrow> bool \<Rightarrow> 'f bstate \<Rightarrow> nat option kres \<times> 'f bstate" where
  "bdfs_blend_make_inode v env real_path is_upper s =
     (case new_inode env s of
        (None, s1) \<Rightarrow> (Inr None, s1)
      | (Some i, s1) \<Rightarrow>
          (case vfs_d_inode v (p_dentry real_path) (backing s) of
             None \<Rightarrow> (Inl Oops, s1)
           | Some real \<Rightarrow>
               (Inr (Some i), s1\<lparr>inodes := (inodes s1)(i \<mapsto>
                  bdfs_blend_alloc_inode\<lparr>bi_attr := real, bi_iops := iops_of_mode (ri_mode real),
                    bi_real_path := Some real_path, bi_is_upper := is_upper,
                    bi_copyup_done := (if is_upper then 1 else 0)\<rparr>)\<rparr>)))"

section \<open>The relative path of a dentry\<close>

text \<open>
  The names are copied from the leaf upwards into the end of the buffer; \<open>room\<close> is
  \<open>p - buf\<close>.
\<close>

fun rel_path_loop :: "nat \<Rightarrow> string list \<Rightarrow> string \<Rightarrow> errno + string" where
  "rel_path_loop room [] acc = Inr acc"
| "rel_path_loop room (n # ns) acc =
     (if room < length n + 1 then Inl ENAMETOOLONG
      else rel_path_loop (room - (length n + 1)) ns (CHR ''/'' # n @ acc))"

definition bdfs_blend_rel_path :: "dentry \<Rightarrow> nat \<Rightarrow> errno + string" where
  "bdfs_blend_rel_path dentry bufsz =
     (case rel_path_loop (bufsz - 1) (rev (d_names dentry)) [] of
        Inl e \<Rightarrow> Inl e
      | Inr p \<Rightarrow> Inr (case p of [] \<Rightarrow> [] | c # cs \<Rightarrow> if c = CHR ''/'' then cs else p))"

section \<open>Lookup\<close>

definition positive :: "'f vfs \<Rightarrow> 'f \<Rightarrow> errno + vpath \<Rightarrow> vpath option" where
  "positive v fs r =
     (case r of Inl _ \<Rightarrow> None
      | Inr p \<Rightarrow> if vfs_d_inode v (p_dentry p) fs = None then None else Some p)"

fun lower_lookup :: "'f vfs \<Rightarrow> 'f \<Rightarrow> string \<Rightarrow> bdfs_dwarfs_layer list \<Rightarrow> vpath option" where
  "lower_lookup v fs relpath [] = None"
| "lower_lookup v fs relpath (l # ls) =
     (case layer_mnt l of
        None \<Rightarrow> lower_lookup v fs relpath ls
      | Some m \<Rightarrow>
          (case positive v fs (vfs_path_lookup v (mnt_root m) m relpath fs) of
             Some p \<Rightarrow> Some p
           | None \<Rightarrow> lower_lookup v fs relpath ls))"

definition lookup_found ::
  "'f vfs \<Rightarrow> kenv \<Rightarrow> vpath \<Rightarrow> bool \<Rightarrow> dentry \<Rightarrow> 'f bstate \<Rightarrow> nat option kres \<times> 'f bstate" where
  "lookup_found v env p is_upper dentry s =
     (case bdfs_blend_make_inode v env p is_upper s of
        (Inl e, s1) \<Rightarrow> (Inl e, s1)
      | (Inr None, s1) \<Rightarrow> (Inl (Eno ENOMEM), s1)
      | (Inr (Some i), s1) \<Rightarrow>
          (Inr (Some i), s1\<lparr>dcache := (dcache s1)(d_names dentry \<mapsto> i)\<rparr>))"

text \<open>\<open>Inr None\<close> is a negative dentry.\<close>

definition bdfs_blend_lookup ::
  "'f vfs \<Rightarrow> kenv \<Rightarrow> bdfs_blend_mount option \<Rightarrow> nat \<Rightarrow> dentry \<Rightarrow> 'f bstate \<Rightarrow>
   nat option kres \<times> 'f bstate" where
  "bdfs_blend_lookup v env bmo dir dentry s =
     (if kzalloc_fail env 0 then (Inl (Eno ENOMEM), s)
      else case bdfs_blend_rel_path dentry PATH_MAX of
        Inl e \<Rightarrow> (Inl (Eno e), s)
      | Inr relpath \<Rightarrow>
          (case (bmo, inodes s dir) of
             (Some bm, Some parent) \<Rightarrow>
               let lower = (case lower_lookup v (backing s) relpath (bm_dwarfs_layers bm) of
                              Some p \<Rightarrow> lookup_found v env p False dentry s
                            | None \<Rightarrow> (Inr None, s\<lparr>dcache := (dcache s)(d_names dentry := None)\<rparr>))
               in (case bm_btrfs_mnt bm of
                     None \<Rightarrow> lower
                   | Some m \<Rightarrow>
                       if bi_is_upper parent then
                         (case bi_real_path parent of
                            None \<Rightarrow> (Inl Oops, s)
                          | Some pr \<Rightarrow>
                              (case positive v (backing s) (vfs_path_lookup v (p_dentry pr) (p_mnt pr)
                                       (last (d_names dentry)) (backing s)) of
                                 Some p \<Rightarrow> lookup_found v env p True dentry s
                               | None \<Rightarrow> lower))
                       else
                         (case positive v (backing s)
                                 (vfs_path_lookup v (mnt_root m) m relpath (backing s)) of
                            Some p \<Rightarrow> lookup_found v env p True dentry s
                          | None \<Rightarrow> lower))
           | _ \<Rightarrow> (Inl Oops, s)))"

section \<open>Operations that read through to the backing inode\<close>

definition bdfs_blend_statfs :: "'f vfs \<Rightarrow> bdfs_blend_mount option \<Rightarrow> 'f bstate \<Rightarrow> kerr option \<times> u64" where
  "bdfs_blend_statfs v bmo s =
     (case bmo of
        None \<Rightarrow> (Some (Eno EIO), 0)
      | Some bm \<Rightarrow>
          (case bm_btrfs_mnt bm of
             None \<Rightarrow> (Some (Eno EIO), 0)
           | Some m \<Rightarrow>
               (map_option Eno (fst (vfs_statfs v \<lparr>p_mnt = m, p_dentry = mnt_root m\<rparr> (backing s))),
                BDFS_BLEND_MAGIC)))"

definition bdfs_blend_getattr :: "'f vfs \<Rightarrow> nat \<Rightarrow> 'f bstate \<Rightarrow> rinode kres \<times> 'f bstate" where
  "bdfs_blend_getattr v i s =
     (case inodes s i of
        None \<Rightarrow> (Inl Oops, s)
      | Some bi \<Rightarrow>
          (case bi_real_path bi of
             None \<Rightarrow> (Inl (Eno EIO), s)
           | Some p \<Rightarrow>
               (case vfs_d_inode v (p_dentry p) (backing s) of
                  None \<Rightarrow> (Inl Oops, s)
                | Some real \<Rightarrow>
                    let a = (bi_attr bi)\<lparr>ri_size := ri_size real, ri_atime := ri_atime real,
                               ri_mtime := ri_mtime real, ri_ctime := ri_ctime real\<rparr>
                    in (Inr a, s\<lparr>inodes := (inodes s)(i \<mapsto> bi\<lparr>bi_attr := a\<rparr>)\<rparr>))))"

definition bdfs_blend_listxattr :: "'f vfs \<Rightarrow> nat \<Rightarrow> 'f bstate \<Rightarrow> string kres" where
  "bdfs_blend_listxattr v i s =
     (case inodes s i of
        None \<Rightarrow> Inl Oops
      | Some bi \<Rightarrow>
          (case bi_real_path bi of
             None \<Rightarrow> Inl (Eno EIO)
           | Some p \<Rightarrow> (case vfs_listxattr v (p_dentry p) (backing s) of
                          Inl e \<Rightarrow> Inl (Eno e) | Inr x \<Rightarrow> Inr x)))"

text \<open>\<open>has_dentry\<close> is false on the RCU walk, where the VFS passes no dentry.\<close>

definition bdfs_blend_get_link :: "'f vfs \<Rightarrow> bool \<Rightarrow> nat \<Rightarrow> 'f bstate \<Rightarrow> string kres" where
  "bdfs_blend_get_link v has_dentry i s =
     (if \<not> has_dentry then Inl (Eno ECHILD)
      else case inodes s i of
        None \<Rightarrow> Inl Oops
      | Some bi \<Rightarrow>
          (case bi_real_path bi of
             None \<Rightarrow> Inl (Eno EIO)
           | Some p \<Rightarrow>
               (case vfs_d_inode v (p_dentry p) (backing s) of
                  None \<Rightarrow> Inl Oops
                | Some _ \<Rightarrow>
                    (case vfs_get_link v (p_dentry p) (backing s) of
                       None \<Rightarrow> Inl (Eno EINVAL)
                     | Some (Inl e) \<Rightarrow> Inl (Eno e)
                     | Some (Inr t) \<Rightarrow> Inr t))))"

section \<open>The abstract view\<close>

text \<open>
  What the blended namespace shows at a path: the upper layer's object when there is one,
  otherwise the first lower layer's, with the flag that says which.
\<close>

definition upper_view :: "'f vfs \<Rightarrow> bdfs_blend_mount \<Rightarrow> 'f \<Rightarrow> string list \<Rightarrow> vpath option" where
  "upper_view v bm fs names =
     (case bm_btrfs_mnt bm of
        None \<Rightarrow> None
      | Some m \<Rightarrow> positive v fs (vfs_path_lookup v (mnt_root m) m (join_names names) fs))"

definition blend_view :: "'f vfs \<Rightarrow> bdfs_blend_mount \<Rightarrow> 'f \<Rightarrow> string list \<Rightarrow> (vpath \<times> bool) option" where
  "blend_view v bm fs names =
     (case upper_view v bm fs names of
        Some p \<Rightarrow> Some (p, True)
      | None \<Rightarrow> map_option (\<lambda>p. (p, False))
                  (lower_lookup v fs (join_names names) (bm_dwarfs_layers bm)))"

text \<open>
  An inode is at \<open>names\<close>: when it is an upper inode, its real path is what the walk from
  the upper root gives.
\<close>

definition inode_at :: "'f vfs \<Rightarrow> bdfs_blend_mount \<Rightarrow> 'f \<Rightarrow> string list \<Rightarrow> bdfs_blend_inode_info \<Rightarrow> bool" where
  "inode_at v bm fs names bi \<longleftrightarrow>
     (bi_is_upper bi \<longrightarrow>
       (\<exists>m p. bm_btrfs_mnt bm = Some m \<and> bi_real_path bi = Some p \<and>
              vfs_path_lookup v (mnt_root m) m (join_names names) fs = Inr p))"

definition path_fits :: "string list \<Rightarrow> bool" where
  "path_fits names \<longleftrightarrow> sum_list (map (\<lambda>n. length n + 1) names) < PATH_MAX"

section \<open>Lemmas on the relative path\<close>

lemma rel_path_loop_spec:
  "rel_path_loop room ns acc =
     (if sum_list (map (\<lambda>n. length n + 1) ns) \<le> room
      then Inr (concat (map (\<lambda>n. CHR ''/'' # n) (rev ns)) @ acc) else Inl ENAMETOOLONG)"
  by (induction ns arbitrary: room acc) auto

lemma join_names_concat:
  "ns \<noteq> [] \<Longrightarrow> concat (map (\<lambda>n. CHR ''/'' # n) ns) = CHR ''/'' # join_names ns"
  by (induction ns rule: join_names.induct) auto

text \<open>The relative path is the names joined by slashes, or the error when they do not fit.\<close>

lemma rel_path_spec:
  "bdfs_blend_rel_path d PATH_MAX =
     (if path_fits (d_names d) then Inr (join_names (d_names d)) else Inl ENAMETOOLONG)"
proof -
  have le: "sum_list (map (\<lambda>n. length n + 1) (rev (d_names d))) \<le> PATH_MAX - 1 \<longleftrightarrow>
      path_fits (d_names d)"
    by (auto simp: path_fits_def rev_map [symmetric])
  show ?thesis
  proof (cases "d_names d = []")
    case True
    then show ?thesis by (simp add: bdfs_blend_rel_path_def path_fits_def)
  next
    case False
    then show ?thesis
      unfolding bdfs_blend_rel_path_def rel_path_loop_spec le
      by (simp add: join_names_concat)
  qed
qed

section \<open>Lemmas on inodes\<close>

lemma make_inode_ok:
  assumes "\<not> kzalloc_fail env 2" and "vfs_d_inode v (p_dentry p) (backing s) = Some real"
  shows "bdfs_blend_make_inode v env p u s =
    (Inr (Some (next_inode s)),
     s\<lparr>inodes := (inodes s)(next_inode s \<mapsto>
         bdfs_blend_alloc_inode\<lparr>bi_attr := real, bi_iops := iops_of_mode (ri_mode real),
           bi_real_path := Some p, bi_is_upper := u, bi_copyup_done := (if u then 1 else 0)\<rparr>),
       next_inode := Suc (next_inode s)\<rparr>)"
  using assms by (simp add: bdfs_blend_make_inode_def new_inode_def)

lemma positive_Some:
  "positive v fs r = Some p \<longleftrightarrow> r = Inr p \<and> (\<exists>real. vfs_d_inode v (p_dentry p) fs = Some real)"
  by (auto simp: positive_def split: sum.splits if_splits)

lemma lower_lookup_Some:
  "lower_lookup v fs rel ls = Some p \<Longrightarrow> \<exists>real. vfs_d_inode v (p_dentry p) fs = Some real"
  by (induction ls) (auto split: option.splits simp: positive_Some)

section \<open>Lookup refines the view\<close>

lemma upper_step:
  assumes "bm_btrfs_mnt bm = Some m" and "vfs_walk_composes v m fs"
    and "names \<noteq> []" and "\<forall>n \<in> set names. valid_name n"
    and "inode_at v bm fs (butlast names) parent"
  shows "(if bi_is_upper parent then
            (\<exists>pr. bi_real_path parent = Some pr \<and>
              vfs_path_lookup v (p_dentry pr) (p_mnt pr) (last names) fs =
              vfs_path_lookup v (mnt_root m) m (join_names names) fs)
          else True)"
proof (cases "bi_is_upper parent")
  case True
  then obtain pr where pr: "bi_real_path parent = Some pr"
    "vfs_path_lookup v (mnt_root m) m (join_names (butlast names)) fs = Inr pr"
    using assms(1,5) by (auto simp: inode_at_def)
  have names: "butlast names @ [last names] = names" using assms(3) by simp
  have "\<forall>x \<in> set (butlast names @ [last names]). valid_name x"
    using assms(4) by (simp only: names)
  then show ?thesis
    using assms(2) pr names unfolding vfs_walk_composes_def by metis
qed simp

lemma lookup_by_view:
  assumes "\<not> kzalloc_fail env 0" and "path_fits (d_names dentry)" and "d_names dentry \<noteq> []"
    and "\<forall>n \<in> set (d_names dentry). valid_name n"
    and "inodes s dir = Some parent"
    and "inode_at v bm (backing s) (butlast (d_names dentry)) parent"
    and "\<And>m. bm_btrfs_mnt bm = Some m \<Longrightarrow> vfs_walk_composes v m (backing s)"
  shows "bdfs_blend_lookup v env (Some bm) dir dentry s =
    (case blend_view v bm (backing s) (d_names dentry) of
       None \<Rightarrow> (Inr None, s\<lparr>dcache := (dcache s)(d_names dentry := None)\<rparr>)
     | Some (p, u) \<Rightarrow> lookup_found v env p u dentry s)"
proof (cases "bm_btrfs_mnt bm")
  case None
  then show ?thesis
    using assms(1,2,5) rel_path_spec [of dentry]
    by (simp add: bdfs_blend_lookup_def blend_view_def upper_view_def Let_def split: option.split)
next
  case (Some m)
  show ?thesis
    using Some assms(1,2,5) rel_path_spec [of dentry]
      upper_step [OF Some assms(7) [OF Some] assms(3,4,6)]
    by (auto simp: bdfs_blend_lookup_def blend_view_def upper_view_def Let_def split: option.split)
qed

lemma lookup_found_ok:
  assumes "\<not> kzalloc_fail env 2" and "vfs_d_inode v (p_dentry p) (backing s) = Some real"
  shows "fst (lookup_found v env p u dentry s) = Inr (Some (next_inode s))"
    and "inodes (snd (lookup_found v env p u dentry s)) (next_inode s) =
      Some (bdfs_blend_alloc_inode\<lparr>bi_attr := real, bi_iops := iops_of_mode (ri_mode real),
           bi_real_path := Some p, bi_is_upper := u, bi_copyup_done := (if u then 1 else 0)\<rparr>)"
    and "dcache (snd (lookup_found v env p u dentry s)) (d_names dentry) = Some (next_inode s)"
    and "backing (snd (lookup_found v env p u dentry s)) = backing s"
  using assms by (simp_all add: lookup_found_def make_inode_ok)

lemma blend_view_Some:
  assumes "blend_view v bm fs names = Some (p, u)"
  shows "\<exists>real. vfs_d_inode v (p_dentry p) fs = Some real"
    and "u \<Longrightarrow> \<exists>m. bm_btrfs_mnt bm = Some m \<and>
           vfs_path_lookup v (mnt_root m) m (join_names names) fs = Inr p"
  using assms
  by (auto simp: blend_view_def upper_view_def positive_Some
      split: option.splits dest: lower_lookup_Some)

end
