(* ===== verification/Bdfs_Blend_Ops.thy ===== *)
theory Bdfs_Blend_Ops
  imports Bdfs_Blend
begin

text \<open>
  The operations of the blend file system that write to a backing layer (\<open>bdfs_blend.c\<close>):
  create, mkdir, symlink, unlink, rmdir, rename, link and the cached write.  An operation
  names its inodes by their address in the heap; a dentry of the blend is its names.
\<close>

section \<open>Creating objects\<close>

text \<open>
  The directory of the upper layer that a new object goes to: the parent's own real path
  when it is an upper inode, otherwise the walk from the upper root along the relative
  path of the parent's real dentry.
\<close>

definition upper_parent ::
  "'f vfs \<Rightarrow> kenv \<Rightarrow> vfsmount \<Rightarrow> bdfs_blend_inode_info \<Rightarrow> 'f \<Rightarrow> vpath kres" where
  "upper_parent v env m parent fs =
     (if bi_is_upper parent then
        (case bi_real_path parent of None \<Rightarrow> Inl Oops | Some p \<Rightarrow> Inr p)
      else if kzalloc_fail env 0 then Inl (Eno ENOMEM)
      else case bi_real_path parent of
        None \<Rightarrow> Inl Oops
      | Some p \<Rightarrow>
          (case bdfs_blend_rel_path (p_dentry p) PATH_MAX of
             Inl e \<Rightarrow> Inl (Eno e)
           | Inr relpath \<Rightarrow>
               (case vfs_path_lookup v (mnt_root m) m relpath fs of
                  Inl e \<Rightarrow> Inl (Eno e)
                | Inr up \<Rightarrow> Inr up)))"

text \<open>The new inode is attached to the dentry (\<open>d_instantiate\<close>, \<open>d_splice_alias\<close>).\<close>

definition instantiate_upper ::
  "'f vfs \<Rightarrow> kenv \<Rightarrow> vpath \<Rightarrow> dentry \<Rightarrow> 'f bstate \<Rightarrow> nat kres \<times> 'f bstate" where
  "instantiate_upper v env p dentry s =
     (case bdfs_blend_make_inode v env p True s of
        (Inl e, s1) \<Rightarrow> (Inl e, s1)
      | (Inr None, s1) \<Rightarrow> (Inl (Eno ENOMEM), s1)
      | (Inr (Some i), s1) \<Rightarrow> (Inr i, s1\<lparr>dcache := (dcache s1)(d_names dentry \<mapsto> i)\<rparr>))"

text \<open>
  The common part of create, mkdir and symlink: checks, the upper parent and the dentry of
  the new name in it.  \<open>mk\<close> is the VFS operation; it returns the dentry that was made.
\<close>

definition create_upper ::
  "'f vfs \<Rightarrow> kenv \<Rightarrow> bdfs_blend_mount option \<Rightarrow> nat \<Rightarrow> dentry \<Rightarrow>
   (dentry \<Rightarrow> dentry \<Rightarrow> 'f \<Rightarrow> (errno + dentry) \<times> 'f) \<Rightarrow> 'f bstate \<Rightarrow> nat kres \<times> 'f bstate" where
  "create_upper v env bmo dir dentry mk s =
     (case bmo of
        None \<Rightarrow> (Inl (Eno EIO), s)
      | Some bm \<Rightarrow>
          (case bm_btrfs_mnt bm of
             None \<Rightarrow> (Inl (Eno EIO), s)
           | Some m \<Rightarrow>
               (case inodes s dir of
                  None \<Rightarrow> (Inl Oops, s)
                | Some parent \<Rightarrow>
                    (case upper_parent v env m parent (backing s) of
                       Inl e \<Rightarrow> (Inl e, s)
                     | Inr up \<Rightarrow>
                         (case lookup_one v (last (d_names dentry)) (p_dentry up) (backing s) of
                            Inl e \<Rightarrow> (Inl (Eno e), s)
                          | Inr upper_dentry \<Rightarrow>
                              (case mk (p_dentry up) upper_dentry (backing s) of
                                 (Inl e, fs') \<Rightarrow> (Inl (Eno e), s\<lparr>backing := fs'\<rparr>)
                               | (Inr new_dentry, fs') \<Rightarrow>
                                   instantiate_upper v env
                                     \<lparr>p_mnt = p_mnt up, p_dentry = new_dentry\<rparr> dentry
                                     (s\<lparr>backing := fs'\<rparr>)))))))"

definition bdfs_blend_create ::
  "'f vfs \<Rightarrow> kenv \<Rightarrow> bdfs_blend_mount option \<Rightarrow> nat \<Rightarrow> dentry \<Rightarrow> u16 \<Rightarrow> bool \<Rightarrow> 'f bstate \<Rightarrow>
   nat kres \<times> 'f bstate" where
  "bdfs_blend_create v env bmo dir dentry mode excl s =
     create_upper v env bmo dir dentry
       (\<lambda>par d fs. case vfs_create v par d mode excl fs of
          (Some e, fs') \<Rightarrow> (Inl e, fs') | (None, fs') \<Rightarrow> (Inr d, fs')) s"

definition bdfs_blend_mkdir ::
  "'f vfs \<Rightarrow> kenv \<Rightarrow> bdfs_blend_mount option \<Rightarrow> nat \<Rightarrow> dentry \<Rightarrow> u16 \<Rightarrow> 'f bstate \<Rightarrow>
   nat kres \<times> 'f bstate" where
  "bdfs_blend_mkdir v env bmo dir dentry mode s =
     create_upper v env bmo dir dentry (\<lambda>par d fs. vfs_mkdir v par d mode fs) s"

definition bdfs_blend_symlink ::
  "'f vfs \<Rightarrow> kenv \<Rightarrow> bdfs_blend_mount option \<Rightarrow> nat \<Rightarrow> dentry \<Rightarrow> string \<Rightarrow> 'f bstate \<Rightarrow>
   nat kres \<times> 'f bstate" where
  "bdfs_blend_symlink v env bmo dir dentry symname s =
     create_upper v env bmo dir dentry
       (\<lambda>par d fs. case vfs_symlink v par d symname fs of
          (Some e, fs') \<Rightarrow> (Inl e, fs') | (None, fs') \<Rightarrow> (Inr d, fs')) s"

section \<open>Removing, renaming, linking\<close>

definition vfs_result :: "errno option \<times> 'f \<Rightarrow> 'f bstate \<Rightarrow> unit kres \<times> 'f bstate" where
  "vfs_result r s =
     (case r of (Some e, fs') \<Rightarrow> (Inl (Eno e), s\<lparr>backing := fs'\<rparr>)
      | (None, fs') \<Rightarrow> (Inr (), s\<lparr>backing := fs'\<rparr>))"

definition bdfs_blend_unlink :: "'f vfs \<Rightarrow> nat \<Rightarrow> nat \<Rightarrow> 'f bstate \<Rightarrow> unit kres \<times> 'f bstate" where
  "bdfs_blend_unlink v dir i s =
     (case (inodes s i, inodes s dir) of
        (Some bi, Some parent) \<Rightarrow>
          if \<not> bi_is_upper bi then (Inl (Eno EPERM), s)
          else (case (bi_real_path bi, bi_real_path parent) of
                  (Some p, Some pp) \<Rightarrow>
                    vfs_result (vfs_unlink v (p_dentry pp) (p_dentry p) (backing s)) s
                | _ \<Rightarrow> (Inl Oops, s))
      | _ \<Rightarrow> (Inl Oops, s))"

definition bdfs_blend_rmdir :: "'f vfs \<Rightarrow> nat \<Rightarrow> nat \<Rightarrow> 'f bstate \<Rightarrow> unit kres \<times> 'f bstate" where
  "bdfs_blend_rmdir v dir i s =
     (case (inodes s i, inodes s dir) of
        (Some bi, Some parent) \<Rightarrow>
          if \<not> bi_is_upper bi then (Inl (Eno EPERM), s)
          else (case (bi_real_path bi, bi_real_path parent) of
                  (Some p, Some pp) \<Rightarrow>
                    vfs_result (vfs_rmdir v (p_dentry pp) (p_dentry p) (backing s)) s
                | _ \<Rightarrow> (Inl Oops, s))
      | _ \<Rightarrow> (Inl Oops, s))"

definition bdfs_blend_rename ::
  "'f vfs \<Rightarrow> nat \<Rightarrow> nat \<Rightarrow> nat \<Rightarrow> string \<Rightarrow> u32 \<Rightarrow> 'f bstate \<Rightarrow> unit kres \<times> 'f bstate" where
  "bdfs_blend_rename v old_dir i new_dir new_name flags s =
     (case (inodes s i, inodes s old_dir, inodes s new_dir) of
        (Some src, Some old_par, Some new_par) \<Rightarrow>
          if \<not> bi_is_upper src then (Inl (Eno EPERM), s)
          else if \<not> bi_is_upper old_par \<or> \<not> bi_is_upper new_par then (Inl (Eno EPERM), s)
          else (case (bi_real_path src, bi_real_path old_par, bi_real_path new_par) of
                  (Some p, Some op, Some np) \<Rightarrow>
                    (case lookup_one v new_name (p_dentry np) (backing s) of
                       Inl e \<Rightarrow> (Inl (Eno e), s)
                     | Inr real_new \<Rightarrow>
                         vfs_result (vfs_rename v (p_dentry op) (p_dentry p) (p_dentry np) real_new
                                       flags (backing s)) s)
                | _ \<Rightarrow> (Inl Oops, s))
      | _ \<Rightarrow> (Inl Oops, s))"

definition bdfs_blend_link ::
  "'f vfs \<Rightarrow> nat \<Rightarrow> nat \<Rightarrow> string \<Rightarrow> 'f bstate \<Rightarrow> unit kres \<times> 'f bstate" where
  "bdfs_blend_link v i dir new_name s =
     (case (inodes s i, inodes s dir) of
        (Some src, Some parent) \<Rightarrow>
          if \<not> bi_is_upper src \<or> \<not> bi_is_upper parent then (Inl (Eno EPERM), s)
          else (case (bi_real_path src, bi_real_path parent) of
                  (Some p, Some pp) \<Rightarrow>
                    (case lookup_one v new_name (p_dentry pp) (backing s) of
                       Inl e \<Rightarrow> (Inl (Eno e), s)
                     | Inr real_new \<Rightarrow>
                         vfs_result (vfs_link v (p_dentry p) (p_dentry pp) real_new (backing s)) s)
                | _ \<Rightarrow> (Inl Oops, s))
      | _ \<Rightarrow> (Inl Oops, s))"

section \<open>Writing\<close>

text \<open>The upper file is opened on the first write and kept in the inode.\<close>

definition bdfs_blend_write_iter ::
  "'f vfs \<Rightarrow> nat \<Rightarrow> string \<Rightarrow> 'f bstate \<Rightarrow> nat kres \<times> 'f bstate" where
  "bdfs_blend_write_iter v i data s =
     (case inodes s i of
        None \<Rightarrow> (Inl Oops, s)
      | Some bi \<Rightarrow>
          if \<not> bi_is_upper bi then (Inl (Eno EROFS), s)
          else
            (case (case bi_upper_file bi of
                     Some f \<Rightarrow> Inr f
                   | None \<Rightarrow>
                       (case bi_real_path bi of
                          None \<Rightarrow> Inl Oops
                        | Some p \<Rightarrow>
                            (case dentry_open v p (backing s) of
                               Some e \<Rightarrow> Inl (Eno e) | None \<Rightarrow> Inr p))) of
               Inl e \<Rightarrow> (Inl e, s)
             | Inr f \<Rightarrow>
                 (case vfs_write v f data (backing s) of
                    (r, fs') \<Rightarrow>
                      ((case r of Inl e \<Rightarrow> Inl (Eno e) | Inr n \<Rightarrow> Inr n),
                       s\<lparr>backing := fs',
                         inodes := (inodes s)(i \<mapsto> bi\<lparr>bi_upper_file := Some f,
                            bi_attr := (bi_attr bi)\<lparr>ri_size := vfs_file_size v f fs'\<rparr>\<rparr>)\<rparr>))))"

section \<open>All write operations\<close>

datatype blend_wop =
    Op_create nat dentry u16 bool
  | Op_mkdir nat dentry u16
  | Op_symlink nat dentry string
  | Op_unlink nat nat
  | Op_rmdir nat nat
  | Op_rename nat nat nat string u32
  | Op_link nat nat string
  | Op_write nat string

fun run_wop :: "'f vfs \<Rightarrow> kenv \<Rightarrow> bdfs_blend_mount option \<Rightarrow> blend_wop \<Rightarrow> 'f bstate \<Rightarrow> 'f bstate" where
  "run_wop v env bmo (Op_create dir d mode excl) s = snd (bdfs_blend_create v env bmo dir d mode excl s)"
| "run_wop v env bmo (Op_mkdir dir d mode) s = snd (bdfs_blend_mkdir v env bmo dir d mode s)"
| "run_wop v env bmo (Op_symlink dir d t) s = snd (bdfs_blend_symlink v env bmo dir d t s)"
| "run_wop v env bmo (Op_unlink dir i) s = snd (bdfs_blend_unlink v dir i s)"
| "run_wop v env bmo (Op_rmdir dir i) s = snd (bdfs_blend_rmdir v dir i s)"
| "run_wop v env bmo (Op_rename od i nd n fl) s = snd (bdfs_blend_rename v od i nd n fl s)"
| "run_wop v env bmo (Op_link i dir n) s = snd (bdfs_blend_link v i dir n s)"
| "run_wop v env bmo (Op_write i data) s = snd (bdfs_blend_write_iter v i data s)"

section \<open>Documented behaviour of the VFS on superblocks\<close>

text \<open>
  A write operation changes the superblock of the dentry it is given and no other
  (\<open>proj b fs\<close> is what superblock \<open>b\<close> holds); lookups stay on the superblock they start on
  (nothing is mounted inside the upper layer).
\<close>

definition vfs_writes_local :: "'f vfs \<Rightarrow> (nat \<Rightarrow> 'f \<Rightarrow> 'l) \<Rightarrow> bool" where
  "vfs_writes_local v proj \<longleftrightarrow>
     (\<forall>b par d mode excl fs. d_sb d \<noteq> b \<longrightarrow> proj b (snd (vfs_create v par d mode excl fs)) = proj b fs) \<and>
     (\<forall>b par d mode fs. d_sb d \<noteq> b \<longrightarrow> proj b (snd (vfs_mkdir v par d mode fs)) = proj b fs) \<and>
     (\<forall>b par d t fs. d_sb d \<noteq> b \<longrightarrow> proj b (snd (vfs_symlink v par d t fs)) = proj b fs) \<and>
     (\<forall>b par d fs. d_sb d \<noteq> b \<longrightarrow> proj b (snd (vfs_unlink v par d fs)) = proj b fs) \<and>
     (\<forall>b par d fs. d_sb d \<noteq> b \<longrightarrow> proj b (snd (vfs_rmdir v par d fs)) = proj b fs) \<and>
     (\<forall>b op od np nd fl fs. d_sb od \<noteq> b \<longrightarrow> d_sb nd \<noteq> b \<longrightarrow>
        proj b (snd (vfs_rename v op od np nd fl fs)) = proj b fs) \<and>
     (\<forall>b od par nd fs. d_sb nd \<noteq> b \<longrightarrow> proj b (snd (vfs_link v od par nd fs)) = proj b fs) \<and>
     (\<forall>b f data fs. d_sb (p_dentry f) \<noteq> b \<longrightarrow> proj b (snd (vfs_write v f data fs)) = proj b fs)"

definition vfs_lookups_local :: "'f vfs \<Rightarrow> vfsmount \<Rightarrow> bool" where
  "vfs_lookups_local v m \<longleftrightarrow>
     (\<forall>rel fs p. vfs_path_lookup v (mnt_root m) m rel fs = Inr p \<longrightarrow>
        d_sb (p_dentry p) = d_sb (mnt_root m)) \<and>
     (\<forall>n d fs d'. lookup_one v n d fs = Inr d' \<longrightarrow> d_sb d' = d_sb d) \<and>
     (\<forall>par d mode fs d'. fst (vfs_mkdir v par d mode fs) = Inr d' \<longrightarrow> d_sb d' = d_sb d)"

text \<open>Upper inodes live on superblock \<open>b\<close>.\<close>

definition inode_on :: "nat \<Rightarrow> bdfs_blend_inode_info \<Rightarrow> bool" where
  "inode_on b bi \<longleftrightarrow>
     (bi_is_upper bi \<longrightarrow>
       (\<forall>p. bi_real_path bi = Some p \<longrightarrow> d_sb (p_dentry p) = b) \<and>
       (\<forall>p. bi_upper_file bi = Some p \<longrightarrow> d_sb (p_dentry p) = b))"

definition upper_on :: "nat \<Rightarrow> 'f bstate \<Rightarrow> bool" where
  "upper_on b s \<longleftrightarrow> (\<forall>i bi. inodes s i = Some bi \<longrightarrow> inode_on b bi)"

definition upper_mount_on :: "nat \<Rightarrow> bdfs_blend_mount option \<Rightarrow> bool" where
  "upper_mount_on b bmo \<longleftrightarrow>
     (\<forall>bm m. bmo = Some bm \<longrightarrow> bm_btrfs_mnt bm = Some m \<longrightarrow> d_sb (mnt_root m) = b)"

text \<open>What an operation keeps: upper inodes on \<open>b\<close>, the contents of another superblock \<open>b'\<close>.\<close>

definition stays :: "nat \<Rightarrow> nat \<Rightarrow> (nat \<Rightarrow> 'f \<Rightarrow> 'l) \<Rightarrow> 'f bstate \<Rightarrow> 'f bstate \<Rightarrow> bool" where
  "stays b b' proj s s' \<longleftrightarrow> upper_on b s' \<and> proj b' (backing s') = proj b' (backing s)"

section \<open>Lemmas\<close>

lemma upper_on_make_inode:
  "upper_on b s \<Longrightarrow> (u \<Longrightarrow> d_sb (p_dentry p) = b) \<Longrightarrow>
   upper_on b (snd (bdfs_blend_make_inode v env p u s)) \<and>
   backing (snd (bdfs_blend_make_inode v env p u s)) = backing s"
  by (auto simp: bdfs_blend_make_inode_def new_inode_def upper_on_def inode_on_def
      bdfs_blend_alloc_inode_def split: option.splits)

lemma upper_on_backing [simp]: "upper_on b (s\<lparr>backing := fs\<rparr>) = upper_on b s"
  by (simp add: upper_on_def)

lemma upper_on_dcache [simp]: "upper_on b (s\<lparr>dcache := dc\<rparr>) = upper_on b s"
  by (simp add: upper_on_def)

lemma instantiate_upper_on:
  assumes "upper_on b s" and "d_sb (p_dentry p) = b"
  shows "upper_on b (snd (instantiate_upper v env p d s)) \<and>
         backing (snd (instantiate_upper v env p d s)) = backing s"
  using upper_on_make_inode [of b s True p v env] assms
  by (auto simp: instantiate_upper_def split: prod.splits sum.splits option.splits)

lemma upper_parent_on:
  assumes "upper_parent v env m parent fs = Inr up" and "inode_on b parent"
    and "d_sb (mnt_root m) = b" and "vfs_lookups_local v m"
  shows "d_sb (p_dentry up) = b"
  using assms
  by (auto simp: upper_parent_def inode_on_def vfs_lookups_local_def split: if_splits option.splits sum.splits)

text \<open>
  \<open>mk\<close> keeps other superblocks and stays on its dentry's superblock; then so does the
  whole operation.
\<close>

lemma create_upper_local:
  assumes on: "upper_on b s" and bm: "upper_mount_on b bmo"
    and loc: "\<And>bm m. bmo = Some bm \<Longrightarrow> bm_btrfs_mnt bm = Some m \<Longrightarrow> vfs_lookups_local v m"
    and mk: "\<And>par d fs. d_sb d = b \<Longrightarrow> proj b' (snd (mk par d fs)) = proj b' fs"
    and sb: "\<And>par d fs d'. fst (mk par d fs) = Inr d' \<Longrightarrow> d_sb d = b \<Longrightarrow> d_sb d' = b"
  shows "upper_on b (snd (create_upper v env bmo dir d mk s)) \<and>
         proj b' (backing (snd (create_upper v env bmo dir d mk s))) = proj b' (backing s)"
proof (cases "\<exists>bm m parent up ud. bmo = Some bm \<and> bm_btrfs_mnt bm = Some m \<and> inodes s dir = Some parent \<and>
    upper_parent v env m parent (backing s) = Inr up \<and>
    lookup_one v (last (d_names d)) (p_dentry up) (backing s) = Inr ud")
  case False
  then show ?thesis
    using on by (auto simp: create_upper_def split: option.splits sum.splits)
next
  case True
  then obtain bm' m parent up ud where e: "bmo = Some bm'" "bm_btrfs_mnt bm' = Some m"
    "inodes s dir = Some parent" "upper_parent v env m parent (backing s) = Inr up"
    "lookup_one v (last (d_names d)) (p_dentry up) (backing s) = Inr ud"
    by blast
  have l: "vfs_lookups_local v m" using loc e by blast
  have "d_sb (p_dentry up) = b"
    using upper_parent_on [OF e(4) _ _ l] on e bm by (auto simp: upper_on_def upper_mount_on_def)
  then have ud: "d_sb ud = b" using l e(5) by (auto simp: vfs_lookups_local_def)
  obtain r fs' where r: "mk (p_dentry up) ud (backing s) = (r, fs')" by fastforce
  have fs': "proj b' fs' = proj b' (backing s)"
    using mk [OF ud, of "p_dentry up" "backing s"] r by simp
  show ?thesis
  proof (cases r)
    case (Inl er)
    then show ?thesis using e r fs' on by (simp add: create_upper_def)
  next
    case (Inr nd)
    then have "d_sb nd = b" using sb [of "p_dentry up" ud "backing s" nd] r ud by simp
    then show ?thesis
      using Inr e r fs' on
        instantiate_upper_on [of b "s\<lparr>backing := fs'\<rparr>" "\<lparr>p_mnt = p_mnt up, p_dentry = nd\<rparr>" v env d]
      by (simp add: create_upper_def)
  qed
qed

lemma writes_localD:
  assumes "vfs_writes_local v proj"
  shows "d_sb d \<noteq> b \<Longrightarrow> proj b (snd (vfs_create v par d mode excl fs)) = proj b fs"
    and "d_sb d \<noteq> b \<Longrightarrow> proj b (snd (vfs_mkdir v par d mode fs)) = proj b fs"
    and "d_sb d \<noteq> b \<Longrightarrow> proj b (snd (vfs_symlink v par d t fs)) = proj b fs"
    and "d_sb d \<noteq> b \<Longrightarrow> proj b (snd (vfs_unlink v par d fs)) = proj b fs"
    and "d_sb d \<noteq> b \<Longrightarrow> proj b (snd (vfs_rmdir v par d fs)) = proj b fs"
    and "d_sb d \<noteq> b \<Longrightarrow> d_sb d' \<noteq> b \<Longrightarrow> proj b (snd (vfs_rename v par d par' d' fl fs)) = proj b fs"
    and "d_sb d' \<noteq> b \<Longrightarrow> proj b (snd (vfs_link v d par d' fs)) = proj b fs"
    and "d_sb (p_dentry f) \<noteq> b \<Longrightarrow> proj b (snd (vfs_write v f data fs)) = proj b fs"
  using assms by (simp_all add: vfs_writes_local_def)

lemma lookup_one_sb: "vfs_lookups_local v m \<Longrightarrow> lookup_one v n d fs = Inr d' \<Longrightarrow> d_sb d' = d_sb d"
  unfolding vfs_lookups_local_def by blast

lemma inode_onD:
  "upper_on b s \<Longrightarrow> inodes s i = Some bi \<Longrightarrow> bi_is_upper bi \<Longrightarrow> bi_real_path bi = Some p \<Longrightarrow>
   d_sb (p_dentry p) = b"
  by (auto simp: upper_on_def inode_on_def)

lemma stays_refl: "upper_on b s \<Longrightarrow> stays b b' proj s s"
  by (simp add: stays_def)

lemma stays_vfs_result:
  "upper_on b s \<Longrightarrow> proj b' (snd r) = proj b' (backing s) \<Longrightarrow> stays b b' proj s (snd (vfs_result r s))"
  by (auto simp: stays_def vfs_result_def split: prod.splits option.splits)

lemma unlink_stays:
  assumes "upper_on b s" and "b' \<noteq> b" and "vfs_writes_local v proj"
  shows "stays b b' proj s (snd (bdfs_blend_unlink v dir i s))"
    and "stays b b' proj s (snd (bdfs_blend_rmdir v dir i s))"
proof -
  have *: "proj b' (snd (vfs_unlink v q (p_dentry p) fs)) = proj b' fs \<and>
      proj b' (snd (vfs_rmdir v q (p_dentry p) fs)) = proj b' fs"
    if "inodes s i = Some bi" "bi_is_upper bi" "bi_real_path bi = Some p" for bi p q fs
    using inode_onD [OF assms(1) that] assms(2) by (simp add: writes_localD [OF assms(3)])
  show "stays b b' proj s (snd (bdfs_blend_unlink v dir i s))"
    using assms(1) * by (simp add: bdfs_blend_unlink_def stays_refl stays_vfs_result split: option.split)
  show "stays b b' proj s (snd (bdfs_blend_rmdir v dir i s))"
    using assms(1) * by (simp add: bdfs_blend_rmdir_def stays_refl stays_vfs_result split: option.split)
qed

lemma rename_stays:
  assumes "upper_on b s" and "b' \<noteq> b" and "vfs_writes_local v proj" and "vfs_lookups_local v m"
  shows "stays b b' proj s (snd (bdfs_blend_rename v od i nd n fl s))"
proof -
  have *: "proj b' (snd (vfs_rename v q (p_dentry p) (p_dentry np) d' fl fs)) = proj b' fs"
    if "inodes s i = Some bi" "bi_is_upper bi" "bi_real_path bi = Some p"
      "inodes s nd = Some bn" "bi_is_upper bn" "bi_real_path bn = Some np"
      "lookup_one v n (p_dentry np) (backing s) = Inr d'" for bi p bn np q d' fs
    using inode_onD [OF assms(1) that(1-3)] inode_onD [OF assms(1) that(4-6)]
      lookup_one_sb [OF assms(4) that(7)] assms(2)
    by (simp add: writes_localD [OF assms(3)])
  show ?thesis
    using assms(1) *
    by (simp add: bdfs_blend_rename_def stays_refl stays_vfs_result split: option.split sum.split)
qed

lemma link_stays:
  assumes "upper_on b s" and "b' \<noteq> b" and "vfs_writes_local v proj" and "vfs_lookups_local v m"
  shows "stays b b' proj s (snd (bdfs_blend_link v i dir n s))"
proof -
  have *: "proj b' (snd (vfs_link v q (p_dentry np) d' fs)) = proj b' fs"
    if "inodes s dir = Some bn" "bi_is_upper bn" "bi_real_path bn = Some np"
      "lookup_one v n (p_dentry np) (backing s) = Inr d'" for bn np q d' fs
    using inode_onD [OF assms(1) that(1-3)] lookup_one_sb [OF assms(4) that(4)] assms(2)
    by (simp add: writes_localD [OF assms(3)])
  show ?thesis
    using assms(1) *
    by (simp add: bdfs_blend_link_def stays_refl stays_vfs_result split: option.split sum.split)
qed

lemma write_stays:
  assumes "upper_on b s" and "b' \<noteq> b" and "vfs_writes_local v proj"
  shows "stays b b' proj s (snd (bdfs_blend_write_iter v i data s))"
proof (cases "\<exists>bi. inodes s i = Some bi \<and> bi_is_upper bi")
  case False
  then show ?thesis
    using assms(1) by (auto simp: bdfs_blend_write_iter_def stays_refl split: option.split)
next
  case True
  then obtain bi where bi: "inodes s i = Some bi" "bi_is_upper bi" by blast
  then have on: "inode_on b bi" using assms(1) by (auto simp: upper_on_def)
  have *: "stays b b' proj s (s\<lparr>backing := fs',
      inodes := (inodes s)(i \<mapsto> bi\<lparr>bi_upper_file := Some f, bi_attr := a\<rparr>)\<rparr>)"
    if "bi_upper_file bi = Some f \<or> bi_real_path bi = Some f"
      and "vfs_write v f data (backing s) = (r, fs')" for f a r fs'
  proof -
    have f: "d_sb (p_dentry f) = b" using on bi(2) that(1) by (auto simp: inode_on_def)
    then have "proj b' fs' = proj b' (backing s)"
      using writes_localD(8) [OF assms(3), of f b' data "backing s"] assms(2) that(2) by simp
    then show ?thesis using assms(1) on f by (auto simp: stays_def upper_on_def inode_on_def)
  qed
  show ?thesis
    using bi assms(1) by (auto simp: bdfs_blend_write_iter_def stays_refl * split: option.split prod.split)
qed

lemma creates_stay:
  assumes "upper_on b s" and "b' \<noteq> b" and "vfs_writes_local v proj" and "upper_mount_on b bmo"
    and "\<And>m. vfs_lookups_local v m"
  shows "stays b b' proj s (snd (bdfs_blend_create v env bmo dir d mode excl s))"
    and "stays b b' proj s (snd (bdfs_blend_mkdir v env bmo dir d mode s))"
    and "stays b b' proj s (snd (bdfs_blend_symlink v env bmo dir d t s))"
proof -
  have mkdir_sb: "d_sb d' = d_sb d" if "fst (vfs_mkdir v par d mode fs) = Inr d'" for par d mode fs d'
    using assms(5) that unfolding vfs_lookups_local_def by blast
  have cr: "proj b' fs' = proj b' fs" if "vfs_create v par d mode excl fs = (r, fs')" "d_sb d = b"
    for par d fs r fs'
    using writes_localD(1) [OF assms(3), of d b' par mode excl fs] that assms(2) by simp
  have sl: "proj b' fs' = proj b' fs" if "vfs_symlink v par d t fs = (r, fs')" "d_sb d = b"
    for par d fs r fs'
    using writes_localD(3) [OF assms(3), of d b' par t fs] that assms(2) by simp
  show "stays b b' proj s (snd (bdfs_blend_create v env bmo dir d mode excl s))"
    unfolding bdfs_blend_create_def stays_def using assms
    by (intro create_upper_local) (auto dest: cr split: prod.splits option.splits)
  show "stays b b' proj s (snd (bdfs_blend_mkdir v env bmo dir d mode s))"
    unfolding bdfs_blend_mkdir_def stays_def
    using assms writes_localD(2) [OF assms(3)] mkdir_sb
    by (intro create_upper_local) auto
  show "stays b b' proj s (snd (bdfs_blend_symlink v env bmo dir d t s))"
    unfolding bdfs_blend_symlink_def stays_def using assms
    by (intro create_upper_local) (auto dest: sl split: prod.splits option.splits)
qed

lemma run_wop_stays:
  assumes "upper_on b s" and "b' \<noteq> b" and "vfs_writes_local v proj" and "upper_mount_on b bmo"
    and "\<And>m. vfs_lookups_local v m"
  shows "stays b b' proj s (run_wop v env bmo op s)"
  using creates_stay [OF assms] unlink_stays [OF assms(1-3)] rename_stays [OF assms(1-3,5)]
    link_stays [OF assms(1-3,5)] write_stays [OF assms(1-3)]
  by (cases op) simp_all

end
