(* ===== verification/Bdfs_Copyup.thy ===== *)
theory Bdfs_Copyup
  imports Bdfs_Blend_Ops
begin

text \<open>
  Copy-up: a write to a file of a lower layer makes the kernel ask the daemon, by an event,
  to copy the file to the upper layer; the caller sleeps until the daemon's
  \<open>BDFS_IOC_COPYUP_COMPLETE\<close> marks the inode as an upper one (\<open>bdfs_blend.c\<close>,
  \<open>bdfs_main.c\<close>).

  The handlers that sleep take the wait as an argument: a function from the state to the
  state after it and the value of \<open>wait_event_interruptible_timeout\<close>.  The protocol of
  several callers and the daemon is the step relation \<open>copyup_step\<close> over the same
  definitions, with the list of sleeping callers.
\<close>

section \<open>The table of pending copy-ups\<close>

definition ihold :: "nat \<Rightarrow> 'f bstate \<Rightarrow> 'f bstate" where
  "ihold i s = s\<lparr>inodes := (inodes s)(i := map_option (\<lambda>bi. bi\<lparr>bi_count := Suc (bi_count bi)\<rparr>) (inodes s i))\<rparr>"

text \<open>\<open>iput\<close> drops a reference; the last one frees the inode (\<open>bdfs_blend_free_inode\<close>).\<close>

definition iput :: "nat \<Rightarrow> 'f bstate \<Rightarrow> 'f bstate" where
  "iput i s =
     (case inodes s i of
        None \<Rightarrow> s
      | Some bi \<Rightarrow>
          if bi_count bi \<le> 1 then s\<lparr>inodes := (inodes s)(i := None)\<rparr>
          else s\<lparr>inodes := (inodes s)(i \<mapsto> bi\<lparr>bi_count := bi_count bi - 1\<rparr>)\<rparr>)"

definition bdfs_copyup_register :: "kenv \<Rightarrow> uuid \<Rightarrow> u64 \<Rightarrow> nat \<Rightarrow> 'f bstate \<Rightarrow> 'f bstate" where
  "bdfs_copyup_register env uuid ino i s =
     (if kzalloc_fail env 3 then s
      else let s1 = ihold i s in
           s1\<lparr>copyup_table := \<lparr>cu_btrfs_uuid = uuid, cu_inode_no = ino, cu_inode = i\<rparr> # copyup_table s1\<rparr>)"

definition copyup_match :: "uuid \<Rightarrow> u64 \<Rightarrow> bdfs_copyup_entry \<Rightarrow> bool" where
  "copyup_match uuid ino e \<longleftrightarrow> cu_inode_no e = ino \<and> cu_btrfs_uuid e = uuid"

definition bdfs_copyup_lookup_and_remove :: "uuid \<Rightarrow> u64 \<Rightarrow> 'f bstate \<Rightarrow> nat option \<times> 'f bstate" where
  "bdfs_copyup_lookup_and_remove uuid ino s =
     (case List.find (copyup_match uuid ino) (copyup_table s) of
        None \<Rightarrow> (None, s)
      | Some e \<Rightarrow>
          (Some (cu_inode e),
           s\<lparr>copyup_table := remove_first (copyup_match uuid ino) (copyup_table s)\<rparr>))"

section \<open>Asking for a copy-up\<close>

text \<open>Buffers of 256 bytes hold the two paths; an unresolved path stays empty.\<close>

definition copyup_lower_path :: "'f vfs \<Rightarrow> bdfs_blend_inode_info \<Rightarrow> 'f \<Rightarrow> string" where
  "copyup_lower_path v bi fs =
     (case bi_real_path bi of
        None \<Rightarrow> []
      | Some p \<Rightarrow> (case vfs_d_path v p 256 fs of Inl _ \<Rightarrow> [] | Inr q \<Rightarrow> q))"

text \<open>
  With an upper mount but no real path the relative path of a NULL dentry is taken:
  \<open>None\<close>.
\<close>

definition copyup_upper_path ::
  "'f vfs \<Rightarrow> kenv \<Rightarrow> bdfs_blend_mount \<Rightarrow> bdfs_blend_inode_info \<Rightarrow> 'f \<Rightarrow> string option" where
  "copyup_upper_path v env bm bi fs =
     (case bm_btrfs_mnt bm of
        None \<Rightarrow> Some []
      | Some m \<Rightarrow>
          (case vfs_d_path v \<lparr>p_mnt = m, p_dentry = mnt_root m\<rparr> 256 fs of
             Inl _ \<Rightarrow> Some []
           | Inr rp \<Rightarrow>
               if kzalloc_fail env 0 then Some []
               else (case bi_real_path bi of
                       None \<Rightarrow> None
                     | Some p \<Rightarrow>
                         (case bdfs_blend_rel_path (p_dentry p) PATH_MAX of
                            Inl _ \<Rightarrow> Some []
                          | Inr rel \<Rightarrow> Some (snprintf 256 (rp @ ''/'' @ rel))))))"

definition copyup_event_msg :: "string \<Rightarrow> string \<Rightarrow> string" where
  "copyup_event_msg lower upper =
     snprintf BDFS_MSG_MAX (''copyup_needed lower='' @ lower @ '' upper='' @ upper)"

text \<open>Up to the wait: the table entry and the event.\<close>

definition trigger_copyup_begin ::
  "'f vfs \<Rightarrow> kenv \<Rightarrow> bdfs_blend_mount option \<Rightarrow> nat \<Rightarrow> 'f bstate \<Rightarrow> unit kres \<times> 'f bstate" where
  "trigger_copyup_begin v env bmo i s =
     (case (bmo, inodes s i) of
        (Some bm, Some bi) \<Rightarrow>
          let s1 = bdfs_copyup_register env (bm_btrfs_uuid bm) (ri_ino (bi_attr bi)) i s in
          (case copyup_upper_path v env bm bi (backing s) of
             None \<Rightarrow> (Inl Oops, s1)
           | Some upper \<Rightarrow>
               (Inr (), bdfs_emit_event env BDFS_EVT_COPYUP_NEEDED (Some (bm_btrfs_uuid bm))
                  (ri_ino (bi_attr bi))
                  (Some (copyup_event_msg (copyup_lower_path v bi (backing s)) upper)) s1))
      | _ \<Rightarrow> (Inl Oops, s))"

definition bdfs_blend_trigger_copyup ::
  "'f vfs \<Rightarrow> kenv \<Rightarrow> bdfs_blend_mount option \<Rightarrow> ('f bstate \<Rightarrow> 'f bstate \<times> int) \<Rightarrow> nat \<Rightarrow>
   'f bstate \<Rightarrow> unit kres \<times> 'f bstate" where
  "bdfs_blend_trigger_copyup v env bmo wait i s =
     (case trigger_copyup_begin v env bmo i s of
        (Inl e, s1) \<Rightarrow> (Inl e, s1)
      | (Inr _, s1) \<Rightarrow>
          (case wait s1 of
             (s2, timeout) \<Rightarrow>
               if timeout < 0 then (Inl (Eno EINTR), s2)
               else if timeout = 0 then (Inl (Eno ETIMEDOUT), s2)
               else (Inr (), s2)))"

section \<open>Operations that may copy up\<close>

definition bdfs_blend_open ::
  "'f vfs \<Rightarrow> kenv \<Rightarrow> bdfs_blend_mount option \<Rightarrow> ('f bstate \<Rightarrow> 'f bstate \<times> int) \<Rightarrow> nat \<Rightarrow> bool \<Rightarrow>
   'f bstate \<Rightarrow> vpath kres \<times> 'f bstate" where
  "bdfs_blend_open v env bmo wait i write s =
     (case inodes s i of
        None \<Rightarrow> (Inl Oops, s)
      | Some bi \<Rightarrow>
          (case (if \<not> bi_is_upper bi \<and> write then bdfs_blend_trigger_copyup v env bmo wait i s
                 else (Inr (), s)) of
             (Inl e, s1) \<Rightarrow> (Inl e, s1)
           | (Inr _, s1) \<Rightarrow>
               (case inodes s1 i of
                  None \<Rightarrow> (Inl Oops, s1)
                | Some bi1 \<Rightarrow>
                    (case bi_real_path bi1 of
                       None \<Rightarrow> (Inl Oops, s1)
                     | Some p \<Rightarrow>
                         (case finish_open v (p_dentry p) (backing s1) of
                            Some e \<Rightarrow> (Inl (Eno e), s1)
                          | None \<Rightarrow> (Inr p, s1))))))"

definition bdfs_blend_setattr ::
  "'f vfs \<Rightarrow> kenv \<Rightarrow> bdfs_blend_mount option \<Rightarrow> ('f bstate \<Rightarrow> 'f bstate \<times> int) \<Rightarrow> nat \<Rightarrow> dentry \<Rightarrow>
   (rinode \<Rightarrow> rinode) \<Rightarrow> 'f bstate \<Rightarrow> unit kres \<times> 'f bstate" where
  "bdfs_blend_setattr v env bmo wait i dentry attr s =
     (case inodes s i of
        None \<Rightarrow> (Inl Oops, s)
      | Some bi \<Rightarrow>
          (case (if \<not> bi_is_upper bi then bdfs_blend_trigger_copyup v env bmo wait i s
                 else (Inr (), s)) of
             (Inl e, s1) \<Rightarrow> (Inl e, s1)
           | (Inr _, s1) \<Rightarrow>
               (case setattr_prepare v dentry attr (backing s1) of
                  Some e \<Rightarrow> (Inl (Eno e), s1)
                | None \<Rightarrow>
                    (case inodes s1 i of
                       None \<Rightarrow> (Inl Oops, s1)
                     | Some bi1 \<Rightarrow>
                         (case bi_real_path bi1 of
                            None \<Rightarrow> (Inl Oops, s1)
                          | Some p \<Rightarrow>
                              (case notify_change v (p_dentry p) attr (backing s1) of
                                 (Some e, fs') \<Rightarrow> (Inl (Eno e), s1\<lparr>backing := fs'\<rparr>)
                               | (None, fs') \<Rightarrow>
                                   (Inr (), s1\<lparr>backing := fs',
                                      inodes := (inodes s1)(i \<mapsto> bi1\<lparr>bi_attr := attr (bi_attr bi1)\<rparr>)\<rparr>)))))))"

section \<open>Completion\<close>

definition bdfs_blend_complete_copyup :: "nat \<Rightarrow> vpath \<Rightarrow> 'f bstate \<Rightarrow> 'f bstate" where
  "bdfs_blend_complete_copyup i upper_path s =
     s\<lparr>inodes := (inodes s)(i := map_option
         (\<lambda>bi. bi\<lparr>bi_real_path := Some upper_path, bi_is_upper := True, bi_copyup_done := 1\<rparr>)
         (inodes s i))\<rparr>"

definition bdfs_copyup_complete ::
  "'f vfs \<Rightarrow> kenv \<Rightarrow> bdfs_ioctl_copyup_complete \<Rightarrow> 'f bstate \<Rightarrow> unit kres \<times> 'f bstate" where
  "bdfs_copyup_complete v env arg s =
     (if copy_from_user_fail env then (Inl (Eno EFAULT), s)
      else case kern_path v (cc_upper_path arg) (backing s) of
        Inl e \<Rightarrow> (Inl (Eno e), s)
      | Inr upper_path \<Rightarrow>
          (case bdfs_copyup_lookup_and_remove (cc_btrfs_uuid arg) (cc_inode_no arg) s of
             (None, s1) \<Rightarrow> (Inl (Eno ENOENT), s1)
           | (Some i, s1) \<Rightarrow> (Inr (), iput i (bdfs_blend_complete_copyup i upper_path s1))))"

section \<open>The protocol\<close>

text \<open>A sleeping caller: who, on which inode, and whether its table entry was allocated.\<close>

record waiter =
  wt_task :: nat
  wt_inode :: nat
  wt_registered :: bool

record 'f cusys =
  cs_state :: "'f bstate"
  cs_waiters :: "waiter list"

text \<open>
  A caller starts (write-mode open, or setattr) on a lower inode; the daemon completes; a
  caller is woken once the condition holds; a caller gives up on a timeout or a signal; a
  lookup makes a new inode.
\<close>

inductive copyup_step :: "'f vfs \<Rightarrow> bdfs_blend_mount \<Rightarrow> 'f cusys \<Rightarrow> 'f cusys \<Rightarrow> bool"
  for v :: "'f vfs" and bm :: bdfs_blend_mount where
  begin_wait:
    "inodes (cs_state c) i = Some bi \<Longrightarrow> \<not> bi_is_upper bi \<Longrightarrow>
     trigger_copyup_begin v env (Some bm) i (cs_state c) = (Inr (), s') \<Longrightarrow>
     copyup_step v bm c
       \<lparr>cs_state = s', cs_waiters = \<lparr>wt_task = t, wt_inode = i, wt_registered = (\<not> kzalloc_fail env 3)\<rparr>
          # cs_waiters c\<rparr>"
| complete:
    "copyup_step v bm c (c\<lparr>cs_state := snd (bdfs_copyup_complete v env arg (cs_state c))\<rparr>)"
| wake:
    "w \<in> set (cs_waiters c) \<Longrightarrow> inodes (cs_state c) (wt_inode w) = Some bi \<Longrightarrow>
     bi_copyup_done bi \<noteq> 0 \<Longrightarrow>
     copyup_step v bm c (c\<lparr>cs_waiters := remove1 w (cs_waiters c)\<rparr>)"
| give_up:
    "w \<in> set (cs_waiters c) \<Longrightarrow>
     copyup_step v bm c (c\<lparr>cs_waiters := remove1 w (cs_waiters c)\<rparr>)"
| lookup:
    "copyup_step v bm c
       (c\<lparr>cs_state := snd (bdfs_blend_lookup v env (Some bm) dir d (cs_state c))\<rparr>)"

section \<open>Invariants\<close>

text \<open>
  An inode is an upper one exactly when its copy-up flag is set, and then has a real path;
  inode numbers not yet handed out are free; a table entry points to a live inode and holds
  a reference on it beyond the one of its dentry.
\<close>

definition table_refs :: "nat \<Rightarrow> 'f bstate \<Rightarrow> nat" where
  "table_refs i s = length (filter (\<lambda>e. cu_inode e = i) (copyup_table s))"

definition inode_ok :: "bdfs_blend_inode_info \<Rightarrow> bool" where
  "inode_ok bi \<longleftrightarrow>
     (bi_is_upper bi \<longleftrightarrow> bi_copyup_done bi \<noteq> 0) \<and> (bi_is_upper bi \<longrightarrow> bi_real_path bi \<noteq> None)"

definition blend_inv :: "'f bstate \<Rightarrow> bool" where
  "blend_inv s \<longleftrightarrow>
     (\<forall>i bi. inodes s i = Some bi \<longrightarrow> inode_ok bi \<and> table_refs i s < bi_count bi) \<and>
     (\<forall>i. next_inode s \<le> i \<longrightarrow> inodes s i = None) \<and>
     (\<forall>e \<in> set (copyup_table s). inodes s (cu_inode e) \<noteq> None)"

text \<open>A registered sleeper on an inode still to be copied can be found by the daemon.\<close>

definition waiters_inv :: "'f cusys \<Rightarrow> bool" where
  "waiters_inv c \<longleftrightarrow>
     (\<forall>w \<in> set (cs_waiters c). wt_registered w \<longrightarrow>
        (\<forall>bi. inodes (cs_state c) (wt_inode w) = Some bi \<longrightarrow> bi_copyup_done bi = 0 \<longrightarrow>
           (\<exists>e \<in> set (copyup_table (cs_state c)). cu_inode e = wt_inode w)))"

definition protocol_inv :: "'f cusys \<Rightarrow> bool" where
  "protocol_inv c \<longleftrightarrow>
     blend_inv (cs_state c) \<and> waiters_inv c \<and>
     (\<forall>w \<in> set (cs_waiters c). wt_inode w < next_inode (cs_state c))"

text \<open>
  What a sleep may do: keep the inode invariant, and return a positive value only once the
  flag is set (the condition of \<open>wait_event_interruptible_timeout\<close>).
\<close>

definition wait_reports :: "('f bstate \<Rightarrow> 'f bstate \<times> int) \<Rightarrow> nat \<Rightarrow> bool" where
  "wait_reports wait i \<longleftrightarrow>
     (\<forall>s s' t. wait s = (s', t) \<longrightarrow> blend_inv s \<longrightarrow>
        blend_inv s' \<and> (0 < t \<longrightarrow> (\<exists>bi. inodes s' i = Some bi \<and> bi_copyup_done bi \<noteq> 0)))"

section \<open>Frame lemmas\<close>

lemma emit_event_bframe [simp]:
  "inodes (bdfs_emit_event env t u i m s) = inodes s"
  "copyup_table (bdfs_emit_event env t u i m s) = copyup_table s"
  "next_inode (bdfs_emit_event env t u i m s) = next_inode s"
  "blend_mounts (bdfs_emit_event env t u i m s) = blend_mounts s"
  "dcache (bdfs_emit_event env t u i m s) = dcache s"
  "backing (bdfs_emit_event env t u i m s) = backing s"
  by (simp_all add: bdfs_emit_event_def Let_def)

lemma blend_inv_emit [simp]: "blend_inv (bdfs_emit_event env t u i m s) = blend_inv s"
  by (simp add: blend_inv_def table_refs_def)

lemma blend_inv_dcache [simp]: "blend_inv (s\<lparr>dcache := dc\<rparr>) = blend_inv s"
  by (simp add: blend_inv_def table_refs_def)

lemma blend_inv_backing [simp]: "blend_inv (s\<lparr>backing := fs\<rparr>) = blend_inv s"
  by (simp add: blend_inv_def table_refs_def)

lemma filter_remove_first:
  "List.find P xs = Some e \<Longrightarrow>
   length (filter Q xs) = length (filter Q (remove_first P xs)) + (if Q e then 1 else 0)"
  by (induction xs) (auto split: if_splits)

section \<open>The table and the inodes\<close>

lemma blend_invD:
  assumes "blend_inv s" and "inodes s i = Some bi"
  shows "inode_ok bi" and "table_refs i s < bi_count bi" and "i < next_inode s"
proof -
  show "inode_ok bi" "table_refs i s < bi_count bi" using assms by (auto simp: blend_inv_def)
  show "i < next_inode s"
    using assms unfolding blend_inv_def by (metis not_le_imp_less option.distinct(1))
qed

lemma register_inv:
  assumes "blend_inv s" and "inodes s i = Some bi"
  shows "blend_inv (bdfs_copyup_register env u ino i s)"
  using assms blend_invD [OF assms]
  by (auto simp: bdfs_copyup_register_def ihold_def blend_inv_def table_refs_def inode_ok_def Let_def)

lemma trigger_begin_inv:
  "blend_inv s \<Longrightarrow> blend_inv (snd (trigger_copyup_begin v env bmo i s))"
  by (auto simp: trigger_copyup_begin_def Let_def register_inv split: option.split)

lemma complete_removes:
  assumes "blend_inv s" and "List.find (copyup_match u ino) (copyup_table s) = Some e"
  obtains bi where "inodes s (cu_inode e) = Some bi" and "1 < bi_count bi"
    and "table_refs (cu_inode e) s =
      Suc (table_refs (cu_inode e) (s\<lparr>copyup_table := remove_first (copyup_match u ino) (copyup_table s)\<rparr>))"
proof -
  obtain bi where bi: "inodes s (cu_inode e) = Some bi"
    using assms find_SomeD [OF assms(2)] by (auto simp: blend_inv_def)
  have r: "table_refs (cu_inode e) s =
      Suc (table_refs (cu_inode e) (s\<lparr>copyup_table := remove_first (copyup_match u ino) (copyup_table s)\<rparr>))"
    using filter_remove_first [OF assms(2), of "\<lambda>x. cu_inode x = cu_inode e"]
    by (simp add: table_refs_def)
  then have "1 < bi_count bi" using blend_invD(2) [OF assms(1) bi] by linarith
  then show ?thesis using that bi r by blast
qed

text \<open>
  What a successful completion does: the first matching entry goes, its inode becomes an
  upper one with the given path, and loses the table's reference.
\<close>

lemma complete_copyup_effect:
  assumes "blend_inv s" and "\<not> copy_from_user_fail env"
    and "kern_path v (cc_upper_path arg) (backing s) = Inr p"
    and "List.find (copyup_match (cc_btrfs_uuid arg) (cc_inode_no arg)) (copyup_table s) = Some e"
    and "inodes s (cu_inode e) = Some bi"
  shows "bdfs_copyup_complete v env arg s =
    (Inr (), s\<lparr>copyup_table := remove_first (copyup_match (cc_btrfs_uuid arg) (cc_inode_no arg)) (copyup_table s),
       inodes := (inodes s)(cu_inode e \<mapsto> bi\<lparr>bi_real_path := Some p, bi_is_upper := True,
          bi_copyup_done := 1, bi_count := bi_count bi - 1\<rparr>)\<rparr>)"
proof -
  have "1 < bi_count bi" using complete_removes [OF assms(1,4)] assms(5) by (metis option.inject)
  then show ?thesis
    using assms(2-5)
    by (simp add: bdfs_copyup_complete_def bdfs_copyup_lookup_and_remove_def
        bdfs_blend_complete_copyup_def iput_def)
qed

lemma complete_cases:
  assumes "blend_inv s"
  shows "snd (bdfs_copyup_complete v env arg s) = s \<or>
    (\<exists>p e bi. kern_path v (cc_upper_path arg) (backing s) = Inr p \<and>
       List.find (copyup_match (cc_btrfs_uuid arg) (cc_inode_no arg)) (copyup_table s) = Some e \<and>
       inodes s (cu_inode e) = Some bi \<and>
       snd (bdfs_copyup_complete v env arg s) =
         s\<lparr>copyup_table := remove_first (copyup_match (cc_btrfs_uuid arg) (cc_inode_no arg)) (copyup_table s),
           inodes := (inodes s)(cu_inode e \<mapsto> bi\<lparr>bi_real_path := Some p, bi_is_upper := True,
             bi_copyup_done := 1, bi_count := bi_count bi - 1\<rparr>)\<rparr>)"
proof (cases "\<exists>p e. \<not> copy_from_user_fail env \<and> kern_path v (cc_upper_path arg) (backing s) = Inr p \<and>
    List.find (copyup_match (cc_btrfs_uuid arg) (cc_inode_no arg)) (copyup_table s) = Some e")
  case False
  then have "snd (bdfs_copyup_complete v env arg s) = s"
    by (auto simp: bdfs_copyup_complete_def bdfs_copyup_lookup_and_remove_def
        split: sum.split option.split)
  then show ?thesis by simp
next
  case True
  then obtain p e where pe: "\<not> copy_from_user_fail env" "kern_path v (cc_upper_path arg) (backing s) = Inr p"
    "List.find (copyup_match (cc_btrfs_uuid arg) (cc_inode_no arg)) (copyup_table s) = Some e" by blast
  obtain bi where bi: "inodes s (cu_inode e) = Some bi" using complete_removes [OF assms pe(3)] .
  show ?thesis using complete_copyup_effect [OF assms pe bi] pe bi by simp
qed

lemma complete_inv:
  assumes "blend_inv s"
  shows "blend_inv (snd (bdfs_copyup_complete v env arg s))"
  using complete_cases [OF assms, of v env arg]
proof (elim disjE exE conjE)
  fix p e bi
  let ?P = "copyup_match (cc_btrfs_uuid arg) (cc_inode_no arg)"
  assume f: "List.find ?P (copyup_table s) = Some e" and bi: "inodes s (cu_inode e) = Some bi"
    and eq: "snd (bdfs_copyup_complete v env arg s) =
      s\<lparr>copyup_table := remove_first ?P (copyup_table s),
        inodes := (inodes s)(cu_inode e \<mapsto> bi\<lparr>bi_real_path := Some p, bi_is_upper := True,
          bi_copyup_done := 1, bi_count := bi_count bi - 1\<rparr>)\<rparr>"
  have refs: "length (filter (\<lambda>x. cu_inode x = j) (remove_first ?P (copyup_table s))) +
      (if cu_inode e = j then 1 else 0) = table_refs j s" for j
    using filter_remove_first [OF f, of "\<lambda>x. cu_inode x = j"] by (simp add: table_refs_def)
  have sub: "set (remove_first ?P (copyup_table s)) \<subseteq> set (copyup_table s)"
    by (rule set_remove_first_subset)
  have lt: "table_refs (cu_inode e) s < bi_count bi" using blend_invD(2) [OF assms bi] .
  let ?s' = "snd (bdfs_copyup_complete v env arg s)"
  have "inode_ok bi' \<and> table_refs i ?s' < bi_count bi'" if "inodes ?s' i = Some bi'" for i bi'
    using that refs [of i] lt blend_invD [OF assms, of i]
    by (auto simp: eq table_refs_def inode_ok_def split: if_splits)
  moreover have "inodes ?s' i = None" if "next_inode ?s' \<le> i" for i
    using that assms bi by (auto simp: eq blend_inv_def)
  moreover have "inodes ?s' (cu_inode x) \<noteq> None" if "x \<in> set (copyup_table ?s')" for x
    using that assms sub by (auto simp: eq blend_inv_def)
  ultimately show ?thesis unfolding blend_inv_def by blast
qed (use assms in simp)

lemma make_inode_inv:
  assumes "blend_inv s"
  shows "blend_inv (snd (bdfs_blend_make_inode v env p u s))"
proof -
  have free: "table_refs (next_inode s) s = 0"
    using assms by (auto simp: table_refs_def blend_inv_def filter_empty_conv)
  have "inode_ok bi \<Longrightarrow> bi_count bi = 1 \<Longrightarrow>
      blend_inv (s\<lparr>inodes := (inodes s)(next_inode s \<mapsto> bi), next_inode := Suc (next_inode s)\<rparr>) \<and>
      blend_inv (s\<lparr>next_inode := Suc (next_inode s), inodes := (inodes s)(next_inode s \<mapsto> bi)\<rparr>)" for bi
    using assms free by (auto simp: blend_inv_def table_refs_def)
  then show ?thesis
    using assms
    by (auto simp: bdfs_blend_make_inode_def new_inode_def inode_ok_def bdfs_blend_alloc_inode_def
        split: option.split)
qed

lemma lookup_inv:
  assumes "blend_inv s"
  shows "blend_inv (snd (bdfs_blend_lookup v env bmo dir d s))"
proof -
  have f: "blend_inv (snd (lookup_found v env p u d s))" for p u
    using make_inode_inv [OF assms, of v env p u]
    by (auto simp: lookup_found_def split: prod.splits sum.splits option.splits)
  show ?thesis
    using assms f by (simp add: bdfs_blend_lookup_def Let_def split: sum.split option.split)
qed

section \<open>The steps keep the invariants\<close>

lemma make_inode_table:
  "copyup_table (snd (bdfs_blend_make_inode v env p u s)) = copyup_table s \<and>
   (i < next_inode s \<longrightarrow> inodes (snd (bdfs_blend_make_inode v env p u s)) i = inodes s i)"
  by (simp add: bdfs_blend_make_inode_def new_inode_def split: option.split)

lemma lookup_table:
  "copyup_table (snd (bdfs_blend_lookup v env bmo dir d s)) = copyup_table s \<and>
   (i < next_inode s \<longrightarrow> inodes (snd (bdfs_blend_lookup v env bmo dir d s)) i = inodes s i)"
proof -
  have "copyup_table (snd (lookup_found v env p u d s)) = copyup_table s \<and>
      (i < next_inode s \<longrightarrow> inodes (snd (lookup_found v env p u d s)) i = inodes s i)" for p u
    using make_inode_table [of v env p u s i]
    by (auto simp: lookup_found_def split: prod.splits sum.splits option.splits)
  then show ?thesis
    by (simp add: bdfs_blend_lookup_def Let_def split: sum.split option.split)
qed

lemma copyup_step_inv: "copyup_step v bm c c' \<Longrightarrow> blend_inv (cs_state c) \<Longrightarrow> blend_inv (cs_state c')"
proof (induction rule: copyup_step.induct)
  case (begin_wait c i bi env s' t)
  then show ?case
    using trigger_begin_inv [of "cs_state c" v env "Some bm" i] by simp
qed (simp_all add: complete_inv lookup_inv)

lemma trigger_begin_table:
  assumes "trigger_copyup_begin v env (Some bm) i s = (Inr (), s')"
  shows "set (copyup_table s) \<subseteq> set (copyup_table s')"
    and "\<not> kzalloc_fail env 3 \<Longrightarrow> \<exists>e \<in> set (copyup_table s'). cu_inode e = i"
    and "map_option bi_copyup_done (inodes s' j) = map_option bi_copyup_done (inodes s j)"
  using assms
  by (auto simp: trigger_copyup_begin_def bdfs_copyup_register_def ihold_def Let_def
      split: option.splits if_splits)

lemma complete_keeps_pending:
  assumes "blend_inv s"
    and "inodes (snd (bdfs_copyup_complete v env arg s)) i = Some bi" and "bi_copyup_done bi = 0"
  shows "\<exists>bi0. inodes s i = Some bi0 \<and> bi_copyup_done bi0 = 0"
    and "e \<in> set (copyup_table s) \<Longrightarrow> cu_inode e = i \<Longrightarrow>
      e \<in> set (copyup_table (snd (bdfs_copyup_complete v env arg s)))"
proof -
  have other: "x \<in> set (remove_first P xs)" if "List.find P xs = Some y" "x \<in> set xs" "x \<noteq> y" for P xs
    and x y :: bdfs_copyup_entry
    using that by (induction xs) (auto split: if_splits)
  show "\<exists>bi0. inodes s i = Some bi0 \<and> bi_copyup_done bi0 = 0"
    using complete_cases [OF assms(1), of v env arg] assms(2,3) by (auto split: if_splits)
  show "e \<in> set (copyup_table (snd (bdfs_copyup_complete v env arg s)))"
    if "e \<in> set (copyup_table s)" "cu_inode e = i"
    using complete_cases [OF assms(1), of v env arg] assms(2,3) that
    by (auto split: if_splits intro: other)
qed

lemma waiters_complete:
  assumes "blend_inv (cs_state c)" and "waiters_inv c"
  shows "waiters_inv (c\<lparr>cs_state := snd (bdfs_copyup_complete v env arg (cs_state c))\<rparr>)"
  using assms(2) complete_keeps_pending [OF assms(1), of v env arg]
  unfolding waiters_inv_def by simp meson

lemma waiters_lookup:
  assumes "blend_inv (cs_state c)" and "waiters_inv c"
    and live: "\<forall>w \<in> set (cs_waiters c). wt_inode w < next_inode (cs_state c)"
  shows "waiters_inv (c\<lparr>cs_state := snd (bdfs_blend_lookup v env bmo dir d (cs_state c))\<rparr>)"
  using assms(2) live lookup_table [of v env bmo dir d "cs_state c"]
  unfolding waiters_inv_def by simp

lemma waiters_begin:
  assumes "waiters_inv c" and "trigger_copyup_begin v env (Some bm) i (cs_state c) = (Inr (), s')"
  shows "waiters_inv \<lparr>cs_state = s', cs_waiters =
     \<lparr>wt_task = t, wt_inode = i, wt_registered = (\<not> kzalloc_fail env 3)\<rparr> # cs_waiters c\<rparr>"
proof -
  have "\<exists>e \<in> set (copyup_table s'). cu_inode e = wt_inode w"
    if w: "w \<in> set (cs_waiters c)" "wt_registered w" "inodes s' (wt_inode w) = Some bi"
      "bi_copyup_done bi = 0" for w bi
  proof -
    obtain bi0 where "inodes (cs_state c) (wt_inode w) = Some bi0" "bi_copyup_done bi0 = 0"
      using trigger_begin_table(3) [OF assms(2), of "wt_inode w"] w(3,4)
      by (cases "inodes (cs_state c) (wt_inode w)") auto
    then obtain e where "e \<in> set (copyup_table (cs_state c))" "cu_inode e = wt_inode w"
      using assms(1) w(1,2) unfolding waiters_inv_def by blast
    then show ?thesis using trigger_begin_table(1) [OF assms(2)] by blast
  qed
  then show ?thesis
    using trigger_begin_table(2) [OF assms(2)] by (auto simp: waiters_inv_def)
qed

lemma next_inode_mono:
  "next_inode s \<le> next_inode (snd (bdfs_blend_lookup v env bmo dir d s))"
  "next_inode (snd (trigger_copyup_begin v env bmo i s)) = next_inode s"
proof -
  have "next_inode s \<le> next_inode (snd (lookup_found v env p u d s))" for p u
    by (auto simp: lookup_found_def bdfs_blend_make_inode_def new_inode_def
        split: prod.splits sum.splits option.splits if_splits)
  then show "next_inode s \<le> next_inode (snd (bdfs_blend_lookup v env bmo dir d s))"
    by (simp add: bdfs_blend_lookup_def Let_def split: sum.split option.split)
  show "next_inode (snd (trigger_copyup_begin v env bmo i s)) = next_inode s"
    by (simp add: trigger_copyup_begin_def bdfs_copyup_register_def ihold_def Let_def split: option.split)
qed

lemma next_inode_complete:
  "blend_inv s \<Longrightarrow> next_inode (snd (bdfs_copyup_complete v env arg s)) = next_inode s"
  using complete_cases [of s v env arg] by auto

lemma copyup_step_protocol:
  assumes "copyup_step v bm c c'" and "protocol_inv c"
  shows "protocol_inv c'"
  using assms
proof (induction rule: copyup_step.induct)
  case (begin_wait c i bi env s' t)
  have inv: "blend_inv (cs_state c)" "waiters_inv c" using begin_wait(4) by (auto simp: protocol_inv_def)
  have "blend_inv s'" "next_inode s' = next_inode (cs_state c)"
    using trigger_begin_inv [OF inv(1), of v env "Some bm" i]
      next_inode_mono(2) [of v env "Some bm" i "cs_state c"] begin_wait(3) by simp_all
  then show ?case
    using begin_wait waiters_begin [OF inv(2) begin_wait(3)] blend_invD(3) [OF inv(1) begin_wait(1)]
    by (auto simp: protocol_inv_def)
next
  case (complete c env arg)
  then show ?case
    by (simp add: protocol_inv_def complete_inv next_inode_complete waiters_complete)
next
  case (lookup c env dir d)
  then show ?case
    using next_inode_mono(1) [of "cs_state c" v env "Some bm" dir d]
    by (auto simp: protocol_inv_def lookup_inv waiters_lookup intro: less_le_trans)
qed (auto simp: protocol_inv_def waiters_inv_def dest: notin_set_remove1 in_set_remove1 [THEN iffD1]
      set_remove1_subset [THEN subsetD])

lemma copyup_reachable_inv:
  "(copyup_step v bm)\<^sup>*\<^sup>* c c' \<Longrightarrow> protocol_inv c \<Longrightarrow> protocol_inv c'"
  by (induction rule: rtranclp_induct) (auto intro: copyup_step_protocol)

text \<open>
  A write-mode open, or a setattr, that gets past the wait works on an upper inode.
\<close>

lemma trigger_copyup_upper:
  assumes "blend_inv s" and "wait_reports wait i"
    and "bdfs_blend_trigger_copyup v env bmo wait i s = (Inr (), s')"
  shows "blend_inv s' \<and> (\<exists>bi. inodes s' i = Some bi \<and> bi_is_upper bi)"
proof -
  obtain s1 where s1: "trigger_copyup_begin v env bmo i s = (Inr (), s1)"
    using assms(3) by (auto simp: bdfs_blend_trigger_copyup_def split: prod.splits sum.splits)
  have inv1: "blend_inv s1" using trigger_begin_inv [OF assms(1), of v env bmo i] s1 by simp
  obtain t where t: "wait s1 = (s', t)" "0 < t"
    using assms(3) s1 by (auto simp: bdfs_blend_trigger_copyup_def split: prod.splits if_splits)
  then have "blend_inv s'" "\<exists>bi. inodes s' i = Some bi \<and> bi_copyup_done bi \<noteq> 0"
    using assms(2) inv1 unfolding wait_reports_def by blast+
  then show ?thesis using blend_invD(1) [of s' i] by (auto simp: inode_ok_def)
qed

lemma open_write_upper:
  assumes "blend_inv s" and "wait_reports wait i"
    and "bdfs_blend_open v env bmo wait i True s = (Inr p, s')"
  shows "\<exists>bi. inodes s' i = Some bi \<and> bi_is_upper bi \<and> bi_real_path bi = Some p"
proof -
  obtain bi where bi: "inodes s i = Some bi"
    using assms(3) by (auto simp: bdfs_blend_open_def split: option.splits)
  show ?thesis
  proof (cases "bi_is_upper bi")
    case True
    then show ?thesis using assms(3) bi
      by (auto simp: bdfs_blend_open_def split: option.splits)
  next
    case False
    then obtain s1 where s1: "bdfs_blend_trigger_copyup v env bmo wait i s = (Inr (), s1)"
      using assms(3) bi by (auto simp: bdfs_blend_open_def split: prod.splits sum.splits)
    then obtain bi1 where "inodes s1 i = Some bi1" "bi_is_upper bi1"
      using trigger_copyup_upper [OF assms(1,2) s1] by blast
    then show ?thesis using assms(3) bi False s1
      by (auto simp: bdfs_blend_open_def split: option.splits)
  qed
qed

end
