(* ===== verification/Bdfs_Readdir.thy ===== *)
theory Bdfs_Readdir
  imports Bdfs_Copyup
begin

text \<open>
  Directory listing of the blend file system (\<open>bdfs_blend.c\<close>): the entries of the
  directory's own backing directory, then those of each lower layer whose name does not
  fall in a hash bucket already seen.  The caller's buffer takes \<open>rc_room\<close> more entries.
\<close>

section \<open>The callback\<close>

abbreviation (input) BDFS_DEDUP_MASK :: u32 where "BDFS_DEDUP_MASK \<equiv> 511"

record bdfs_readdir_ctx =
  rc_pos :: nat
  rc_seen :: "nat set"
  rc_dedup :: bool
  rc_out :: "dirent list"
  rc_room :: nat

definition dedup_bucket :: "'f vfs \<Rightarrow> string \<Rightarrow> nat" where
  "dedup_bucket v name = unat (and (full_name_hash v name) BDFS_DEDUP_MASK)"

definition bdfs_dedup_test_set :: "'f vfs \<Rightarrow> string \<Rightarrow> bdfs_readdir_ctx \<Rightarrow> bool \<times> bdfs_readdir_ctx" where
  "bdfs_dedup_test_set v name rc =
     (let h = dedup_bucket v name in (h \<in> rc_seen rc, rc\<lparr>rc_seen := insert h (rc_seen rc)\<rparr>))"

text \<open>\<open>dir_emit\<close> fails when the caller's buffer is full.\<close>

definition dir_emit :: "dirent \<Rightarrow> bdfs_readdir_ctx \<Rightarrow> bool \<times> bdfs_readdir_ctx" where
  "dir_emit e rc =
     (if rc_room rc = 0 then (False, rc)
      else (True, rc\<lparr>rc_out := rc_out rc @ [e], rc_room := rc_room rc - 1\<rparr>))"

definition bdfs_filldir :: "'f vfs \<Rightarrow> dirent \<Rightarrow> bdfs_readdir_ctx \<Rightarrow> bool \<times> bdfs_readdir_ctx" where
  "bdfs_filldir v e rc =
     (case bdfs_dedup_test_set v (de_name e) rc of
        (already, rc1) \<Rightarrow> if rc_dedup rc \<and> already then (True, rc1) else dir_emit e rc1)"

text \<open>The loop of \<open>iterate_dir\<close>: it stops, at that entry, when the callback returns false.\<close>

fun iterate_entries :: "'f vfs \<Rightarrow> dirent list \<Rightarrow> nat \<Rightarrow> bdfs_readdir_ctx \<Rightarrow> bdfs_readdir_ctx" where
  "iterate_entries v [] end_pos rc = rc\<lparr>rc_pos := end_pos\<rparr>"
| "iterate_entries v (e # es) end_pos rc =
     (case bdfs_filldir v e (rc\<lparr>rc_pos := de_pos e\<rparr>) of
        (True, rc1) \<Rightarrow> iterate_entries v es end_pos rc1
      | (False, rc1) \<Rightarrow> rc1)"

section \<open>The two passes\<close>

definition open_and_iterate ::
  "'f vfs \<Rightarrow> vpath \<Rightarrow> 'f \<Rightarrow> (errno option \<times> dirent list \<times> nat) option" where
  "open_and_iterate v p fs =
     (case dentry_open v p fs of Some _ \<Rightarrow> None | None \<Rightarrow> Some (vfs_iterate v p fs))"

text \<open>The directory of a layer that corresponds to the blend directory, when it opens.\<close>

definition layer_dir ::
  "'f vfs \<Rightarrow> kenv \<Rightarrow> vpath \<Rightarrow> 'f \<Rightarrow> vfsmount \<Rightarrow> (errno option \<times> dirent list \<times> nat) option" where
  "layer_dir v env p fs m =
     (if kzalloc_fail env 0 then None
      else case bdfs_blend_rel_path (p_dentry p) PATH_MAX of
        Inl _ \<Rightarrow> None
      | Inr relpath \<Rightarrow>
          (case vfs_path_lookup v (mnt_root m) m relpath fs of
             Inl _ \<Rightarrow> None
           | Inr lower_path \<Rightarrow> open_and_iterate v lower_path fs))"

fun readdir_layers ::
  "'f vfs \<Rightarrow> kenv \<Rightarrow> bdfs_blend_inode_info \<Rightarrow> 'f \<Rightarrow> bdfs_dwarfs_layer list \<Rightarrow> bdfs_readdir_ctx \<Rightarrow>
   bdfs_readdir_ctx kres" where
  "readdir_layers v env bi fs [] rc = Inr rc"
| "readdir_layers v env bi fs (l # ls) rc =
     (case layer_mnt l of
        None \<Rightarrow> readdir_layers v env bi fs ls rc
      | Some m \<Rightarrow>
          (case bi_real_path bi of
             None \<Rightarrow> if kzalloc_fail env 0 then readdir_layers v env bi fs ls rc else Inl Oops
           | Some p \<Rightarrow>
               (case layer_dir v env p fs m of
                  None \<Rightarrow> readdir_layers v env bi fs ls rc
                | Some (_, es, end_pos) \<Rightarrow>
                    readdir_layers v env bi fs ls
                      (iterate_entries v es end_pos (rc\<lparr>rc_pos := 0\<rparr>)))))"

text \<open>The result: the return value, the entries given to the caller, the new position.\<close>

definition bdfs_blend_iterate_shared ::
  "'f vfs \<Rightarrow> kenv \<Rightarrow> bdfs_blend_mount option \<Rightarrow> nat \<Rightarrow> nat \<Rightarrow> nat \<Rightarrow> 'f bstate \<Rightarrow>
   (errno option \<times> dirent list \<times> nat) kres" where
  "bdfs_blend_iterate_shared v env bmo i caller_pos room s =
     (case inodes s i of
        None \<Rightarrow> Inl Oops
      | Some bi \<Rightarrow>
          let rc0 = \<lparr>rc_pos = caller_pos, rc_seen = {}, rc_dedup = False, rc_out = [],
                     rc_room = room\<rparr>;
              (ret, rc1) =
                (case (bmo, bi_real_path bi) of
                   (Some bm, Some p) \<Rightarrow>
                     if bm_btrfs_mnt bm = None then (None, rc0)
                     else (case open_and_iterate v p (backing s) of
                             None \<Rightarrow> (None, rc0)
                           | Some (r, es, end_pos) \<Rightarrow> (r, iterate_entries v es end_pos rc0))
                 | _ \<Rightarrow> (None, rc0));
              rc2 = rc1\<lparr>rc_dedup := True\<rparr>
          in (case (case bmo of None \<Rightarrow> Inr rc2
                    | Some bm \<Rightarrow> readdir_layers v env bi (backing s) (bm_dwarfs_layers bm) rc2) of
                Inl e \<Rightarrow> Inl e
              | Inr rc3 \<Rightarrow> Inr (ret, rc_out rc3, rc_pos rc3)))"

section \<open>What a listing should be\<close>

text \<open>The entries whose bucket is new, in order.\<close>

fun fresh_entries :: "'f vfs \<Rightarrow> nat set \<Rightarrow> dirent list \<Rightarrow> dirent list" where
  "fresh_entries v seen [] = []"
| "fresh_entries v seen (e # es) =
     (let h = dedup_bucket v (de_name e) in
      if h \<in> seen then fresh_entries v seen es
      else e # fresh_entries v (insert h seen) es)"

definition listing :: "(errno option \<times> dirent list \<times> nat) option \<Rightarrow> dirent list" where
  "listing r = (case r of None \<Rightarrow> [] | Some (_, es, _) \<Rightarrow> es)"

definition own_listing ::
  "'f vfs \<Rightarrow> bdfs_blend_mount \<Rightarrow> vpath \<Rightarrow> 'f \<Rightarrow> dirent list" where
  "own_listing v bm p fs = (if bm_btrfs_mnt bm = None then [] else listing (open_and_iterate v p fs))"

definition lower_listing ::
  "'f vfs \<Rightarrow> kenv \<Rightarrow> bdfs_blend_mount \<Rightarrow> vpath \<Rightarrow> 'f \<Rightarrow> dirent list" where
  "lower_listing v env bm p fs =
     concat (map (\<lambda>l. case layer_mnt l of None \<Rightarrow> [] | Some m \<Rightarrow> listing (layer_dir v env p fs m))
               (bm_dwarfs_layers bm))"

definition seen_after :: "'f vfs \<Rightarrow> dirent list \<Rightarrow> nat set \<Rightarrow> nat set" where
  "seen_after v es seen = seen \<union> (\<lambda>e. dedup_bucket v (de_name e)) ` set es"

section \<open>Lemmas\<close>

lemma seen_after_simps [simp]:
  "seen_after v [] seen = seen"
  "seen_after v (e # es) seen = seen_after v es (insert (dedup_bucket v (de_name e)) seen)"
  by (auto simp: seen_after_def)

lemma filldir_first:
  "\<not> rc_dedup rc \<Longrightarrow> 0 < rc_room rc \<Longrightarrow>
   bdfs_filldir v e rc = (True, rc\<lparr>rc_seen := insert (dedup_bucket v (de_name e)) (rc_seen rc),
      rc_out := rc_out rc @ [e], rc_room := rc_room rc - 1\<rparr>)"
  by (simp add: bdfs_filldir_def bdfs_dedup_test_set_def dir_emit_def Let_def)

lemma filldir_skip:
  assumes "rc_dedup rc" and "dedup_bucket v (de_name e) \<in> rc_seen rc"
  shows "bdfs_filldir v e rc = (True, rc)"
proof -
  have "insert (dedup_bucket v (de_name e)) (rc_seen rc) = rc_seen rc"
    using assms(2) by (rule insert_absorb)
  then show ?thesis
    using assms by (simp add: bdfs_filldir_def bdfs_dedup_test_set_def Let_def)
qed

lemma filldir_fresh:
  "rc_dedup rc \<Longrightarrow> dedup_bucket v (de_name e) \<notin> rc_seen rc \<Longrightarrow> 0 < rc_room rc \<Longrightarrow>
   bdfs_filldir v e rc = (True, rc\<lparr>rc_seen := insert (dedup_bucket v (de_name e)) (rc_seen rc),
      rc_out := rc_out rc @ [e], rc_room := rc_room rc - 1\<rparr>)"
  by (simp add: bdfs_filldir_def bdfs_dedup_test_set_def dir_emit_def Let_def)

lemma iterate_first_pass:
  assumes "\<not> rc_dedup rc" and "length es \<le> rc_room rc"
  shows "rc_out (iterate_entries v es end_pos rc) = rc_out rc @ es \<and>
         rc_seen (iterate_entries v es end_pos rc) = seen_after v es (rc_seen rc) \<and>
         rc_room (iterate_entries v es end_pos rc) = rc_room rc - length es"
  using assms
proof (induction es arbitrary: rc)
  case (Cons e es)
  then show ?case by (simp add: filldir_first)
qed simp

lemma iterate_dedup_pass:
  assumes "rc_dedup rc" and "length es \<le> rc_room rc"
  shows "rc_out (iterate_entries v es end_pos rc) = rc_out rc @ fresh_entries v (rc_seen rc) es \<and>
         rc_seen (iterate_entries v es end_pos rc) = seen_after v es (rc_seen rc) \<and>
         rc_room rc \<le> rc_room (iterate_entries v es end_pos rc) + length es \<and>
         rc_dedup (iterate_entries v es end_pos rc)"
  using assms
proof (induction es arbitrary: rc)
  case (Cons e es)
  show ?case
  proof (cases "dedup_bucket v (de_name e) \<in> rc_seen rc")
    case True
    then have "insert (dedup_bucket v (de_name e)) (rc_seen rc) = rc_seen rc"
      by (simp add: insert_absorb)
    then show ?thesis
      using Cons.IH [of "rc\<lparr>rc_pos := de_pos e\<rparr>"] Cons.prems True by (simp add: filldir_skip Let_def)
  next
    case False
    let ?rc' = "rc\<lparr>rc_pos := de_pos e, rc_seen := insert (dedup_bucket v (de_name e)) (rc_seen rc),
       rc_out := rc_out rc @ [e], rc_room := rc_room rc - 1\<rparr>"
    have le: "length es \<le> rc_room rc - 1" using Cons.prems by auto
    show ?thesis
      using Cons.IH [of ?rc'] le Cons.prems False by (auto simp: filldir_fresh Let_def)
  qed
qed simp

lemma fresh_entries_append:
  "fresh_entries v seen (xs @ ys) = fresh_entries v seen xs @ fresh_entries v (seen_after v xs seen) ys"
proof (induction xs arbitrary: seen)
  case (Cons e xs)
  then show ?case by (simp add: Let_def insert_absorb)
qed simp

lemma readdir_layers_out:
  assumes "bi_real_path bi = Some p" and "rc_dedup rc"
    and "length (concat (map (\<lambda>l. case layer_mnt l of None \<Rightarrow> []
           | Some m \<Rightarrow> listing (layer_dir v env p fs m)) ls)) \<le> rc_room rc"
  shows "\<exists>rc'. readdir_layers v env bi fs ls rc = Inr rc' \<and>
    rc_out rc' = rc_out rc @ fresh_entries v (rc_seen rc)
      (concat (map (\<lambda>l. case layer_mnt l of None \<Rightarrow> []
         | Some m \<Rightarrow> listing (layer_dir v env p fs m)) ls))"
  using assms(2,3)
proof (induction ls arbitrary: rc)
  case (Cons l ls)
  show ?case
  proof (cases "\<exists>m r es end_pos. layer_mnt l = Some m \<and> layer_dir v env p fs m = Some (r, es, end_pos)")
    case False
    then show ?thesis
      using Cons assms(1) by (auto simp: listing_def split: option.splits)
  next
    case True
    then obtain m r es end_pos where l: "layer_mnt l = Some m"
      "layer_dir v env p fs m = Some (r, es, end_pos)" by blast
    let ?rc = "iterate_entries v es end_pos (rc\<lparr>rc_pos := 0\<rparr>)"
    have pass: "rc_out ?rc = rc_out rc @ fresh_entries v (rc_seen rc) es"
      "rc_seen ?rc = seen_after v es (rc_seen rc)" "rc_room rc \<le> rc_room ?rc + length es" "rc_dedup ?rc"
      using iterate_dedup_pass [of "rc\<lparr>rc_pos := 0\<rparr>" es v end_pos] Cons.prems l
      by (simp_all add: listing_def)
    then show ?thesis
      using Cons.IH [of ?rc] Cons.prems l assms(1)
      by (simp add: listing_def fresh_entries_append)
  qed
qed simp

text \<open>With room for everything, a listing is its own entries and the fresh lower ones.\<close>

lemma iterate_shared_out:
  assumes "inodes s i = Some bi" and "bi_real_path bi = Some p"
    and "length (own_listing v bm p (backing s)) + length (lower_listing v env bm p (backing s)) \<le> room"
  shows "\<exists>ret pos. bdfs_blend_iterate_shared v env (Some bm) i caller_pos room s =
    Inr (ret, own_listing v bm p (backing s) @
         fresh_entries v (seen_after v (own_listing v bm p (backing s)) {})
           (lower_listing v env bm p (backing s)), pos)"
proof -
  let ?rc0 = "\<lparr>rc_pos = caller_pos, rc_seen = {}, rc_dedup = False, rc_out = [], rc_room = room\<rparr>"
  obtain ret rc1 where rc1: "(if bm_btrfs_mnt bm = None then (None, ?rc0)
       else (case open_and_iterate v p (backing s) of
               None \<Rightarrow> (None, ?rc0)
             | Some (r, es, end_pos) \<Rightarrow> (r, iterate_entries v es end_pos ?rc0))) = (ret, rc1)"
    by fastforce
  have o: "rc_out rc1 = own_listing v bm p (backing s)"
    "rc_seen rc1 = seen_after v (own_listing v bm p (backing s)) {}"
    "rc_room rc1 = room - length (own_listing v bm p (backing s))"
    using rc1 iterate_first_pass [of ?rc0 "own_listing v bm p (backing s)"] assms(3)
    by (auto simp: own_listing_def listing_def split: if_splits option.splits prod.splits)
  have room: "length (lower_listing v env bm p (backing s)) \<le> rc_room (rc1\<lparr>rc_dedup := True\<rparr>)"
    using assms(3) o(3) by simp
  obtain rc3 where "readdir_layers v env bi (backing s) (bm_dwarfs_layers bm) (rc1\<lparr>rc_dedup := True\<rparr>) = Inr rc3"
    "rc_out rc3 = rc_out rc1 @ fresh_entries v (rc_seen rc1) (lower_listing v env bm p (backing s))"
    using readdir_layers_out [OF assms(2) _ room [unfolded lower_listing_def]]
    by (auto simp: lower_listing_def)
  then show ?thesis
    using assms(1,2) rc1 o by (simp add: bdfs_blend_iterate_shared_def)
qed

section \<open>Properties of the fresh entries\<close>

lemma fresh_entries_buckets:
  "distinct (map (\<lambda>e. dedup_bucket v (de_name e)) (fresh_entries v seen es)) \<and>
   (\<forall>e \<in> set (fresh_entries v seen es). dedup_bucket v (de_name e) \<notin> seen) \<and>
   set (fresh_entries v seen es) \<subseteq> set es"
proof (induction es arbitrary: seen)
  case (Cons e es)
  show ?case
    using Cons.IH [of seen] Cons.IH [of "insert (dedup_bucket v (de_name e)) seen"]
    by (auto simp: Let_def split: if_splits)
qed simp

lemma fresh_entries_cover:
  "e \<in> set es \<Longrightarrow> dedup_bucket v (de_name e) \<in> seen \<or>
   (\<exists>e' \<in> set (fresh_entries v seen es). dedup_bucket v (de_name e') = dedup_bucket v (de_name e))"
proof (induction es arbitrary: seen)
  case (Cons x es)
  show ?case
  proof (cases "dedup_bucket v (de_name x) \<in> seen")
    case True
    then show ?thesis using Cons.IH [of seen] Cons.prems by (auto simp: Let_def)
  next
    case False
    then show ?thesis
      using Cons.IH [of "insert (dedup_bucket v (de_name x)) seen"] Cons.prems
      by (auto simp: Let_def split: if_splits)
  qed
qed simp

lemma distinct_names_of_buckets:
  "distinct (map (\<lambda>e. dedup_bucket v (de_name e)) es) \<Longrightarrow> distinct (map de_name es)"
  by (induction es) auto

end
