(* ===== verification/Bdfs_Blend_Mount.thy ===== *)
theory Bdfs_Blend_Mount
  imports Bdfs_Readdir
begin

text \<open>
  The blend file system type and its mounts (\<open>bdfs_blend.c\<close>): the superblock's setup and
  teardown, the ioctls that book a blend mount and remove it, the ioctl that resolves a
  path of the blended namespace, and the module-level setup of the file system type.
\<close>

section \<open>Superblocks\<close>

text \<open>
  \<open>bdfs_blend_init_fs_context\<close>: the superblock gets a mount structure of its own, with no
  layers, that is on no list.
\<close>

definition zero_mount_opts :: bdfs_mount_opts where
  "zero_mount_opts = \<lparr>mo_flags = 0, mo_compression = 0, mo_block_size_bits = 0,
     mo_cache_size_mb = 0, mo_worker_threads = 0\<rparr>"

definition zero_blend_mount :: "nat \<Rightarrow> bdfs_blend_mount" where
  "zero_blend_mount addr = \<lparr>bm_addr = addr, bm_mount_point = [], bm_btrfs_mnt = None,
     bm_btrfs_uuid = zero_uuid, bm_dwarfs_layers = [], bm_opts = zero_mount_opts, bm_sb = None\<rparr>"

definition bdfs_blend_init_fs_context ::
  "kenv \<Rightarrow> 'f bstate \<Rightarrow> bdfs_blend_mount kres \<times> 'f bstate" where
  "bdfs_blend_init_fs_context env s =
     (if kzalloc_fail env 0 then (Inl (Eno ENOMEM), s)
      else (Inr (zero_blend_mount (next_bm s)), s\<lparr>next_bm := Suc (next_bm s)\<rparr>))"

definition S_IFDIR_0755 :: u16 where "S_IFDIR_0755 = 0x41ED"

text \<open>
  The root inode has no real path.  \<open>d_make_root\<close> drops the inode when it fails; the new
  \<open>s_fs_info\<close> and the root inode are the result.
\<close>

definition bdfs_blend_fill_super ::
  "kenv \<Rightarrow> nat \<Rightarrow> bdfs_blend_mount \<Rightarrow> 'f bstate \<Rightarrow> (bdfs_blend_mount \<times> nat) kres \<times> 'f bstate" where
  "bdfs_blend_fill_super env sb bm s =
     (let bm1 = bm\<lparr>bm_sb := Some sb\<rparr> in
      case new_inode env s of
        (None, s1) \<Rightarrow> (Inl (Eno ENOMEM), s1)
      | (Some i, s1) \<Rightarrow>
          let root = bdfs_blend_alloc_inode\<lparr>bi_iops := Dir_iops,
                bi_attr := zero_rinode\<lparr>ri_ino := 1, ri_mode := S_IFDIR_0755, ri_nlink := 2\<rparr>\<rparr>;
              s2 = s1\<lparr>inodes := (inodes s1)(i \<mapsto> root)\<rparr>
          in if kzalloc_fail env 1 then (Inl (Eno ENOMEM), iput i s2)
             else (Inr (bm1, i), s2\<lparr>dcache := (dcache s2)([] \<mapsto> i)\<rparr>))"

text \<open>\<open>list_del\<close> of a structure that is on no list follows NULL pointers.\<close>

definition bdfs_blend_put_super ::
  "bdfs_blend_mount option \<Rightarrow> 'f bstate \<Rightarrow> unit kres \<times> 'f bstate" where
  "bdfs_blend_put_super bmo s =
     (case bmo of
        None \<Rightarrow> (Inr (), s)
      | Some bm \<Rightarrow>
          if \<exists>b \<in> set (blend_mounts s). bm_addr b = bm_addr bm then
            (Inr (), s\<lparr>blend_mounts := remove_first (\<lambda>b. bm_addr b = bm_addr bm) (blend_mounts s)\<rparr>)
          else (Inl Oops, s))"

section \<open>The mount ioctls\<close>

definition hex_bytes :: "uuid \<Rightarrow> string" where
  "hex_bytes u = concat (map hex2 u)"

definition blend_event_msg :: "bdfs_ioctl_mount_blend \<Rightarrow> string" where
  "blend_event_msg arg = snprintf BDFS_MSG_MAX
     (''blend mount='' @ mb_mount_point arg @ '' btrfs_uuid='' @ hex_bytes (mb_btrfs_uuid arg) @
      '' dwarfs_uuid='' @ hex_bytes (mb_dwarfs_uuid arg))"

definition bdfs_blend_mount_ioctl ::
  "kenv \<Rightarrow> bdfs_ioctl_mount_blend \<Rightarrow> 'f bstate \<Rightarrow> unit kres \<times> 'f bstate" where
  "bdfs_blend_mount_ioctl env arg s =
     (if copy_from_user_fail env then (Inl (Eno EFAULT), s)
      else if kzalloc_fail env 0 then (Inl (Eno ENOMEM), s)
      else
        let bm = (zero_blend_mount (next_bm s))\<lparr>bm_btrfs_uuid := mb_btrfs_uuid arg,
                   bm_mount_point := strscpy BDFS_PATH_MAX (mb_mount_point arg),
                   bm_opts := mb_opts arg\<rparr>;
            s1 = s\<lparr>blend_mounts := blend_mounts s @ [bm], next_bm := Suc (next_bm s)\<rparr>
        in (Inr (), bdfs_emit_event env BDFS_EVT_BLEND_MOUNTED (Some (mb_btrfs_uuid arg)) 0
              (Some (blend_event_msg arg)) s1))"

definition bdfs_blend_umount ::
  "kenv \<Rightarrow> bdfs_ioctl_umount_blend \<Rightarrow> 'f bstate \<Rightarrow> unit kres \<times> 'f bstate" where
  "bdfs_blend_umount env arg s =
     (if copy_from_user_fail env then (Inl (Eno EFAULT), s)
      else case List.find (\<lambda>b. bm_mount_point b = ub_mount_point arg) (blend_mounts s) of
        None \<Rightarrow> (Inl (Eno ENOENT), s)
      | Some bm \<Rightarrow>
          let s1 = s\<lparr>blend_mounts :=
                remove_first (\<lambda>b. bm_mount_point b = ub_mount_point arg) (blend_mounts s)\<rparr>;
              s2 = bdfs_emit_event env BDFS_EVT_BLEND_UNMOUNTED (Some (bm_btrfs_uuid bm)) 0
                     (Some (ub_mount_point arg)) s1
          in (Inr (), (case bm_sb bm of
                         None \<Rightarrow> s2
                       | Some sb \<Rightarrow> s2\<lparr>deactivated := deactivated s2 @ [sb]\<rparr>)))"

section \<open>Resolving a path\<close>

fun resolve_layers :: "'f vfs \<Rightarrow> 'f \<Rightarrow> string \<Rightarrow> errno \<Rightarrow> bdfs_dwarfs_layer list \<Rightarrow> errno + vpath" where
  "resolve_layers v fs rel ret [] = Inl ret"
| "resolve_layers v fs rel ret (l # ls) =
     (case layer_mnt l of
        None \<Rightarrow> resolve_layers v fs rel ret ls
      | Some m \<Rightarrow>
          (case vfs_path_lookup v (mnt_root m) m rel fs of
             Inr p \<Rightarrow> Inr p
           | Inl e \<Rightarrow> resolve_layers v fs rel e ls))"

definition strip_mount :: "string \<Rightarrow> string \<Rightarrow> string option" where
  "strip_mount path mp =
     (if take (length mp) path = mp then
        Some (case drop (length mp) path of
                [] \<Rightarrow> [] | c # cs \<Rightarrow> if c = CHR ''/'' then cs else c # cs)
      else None)"

text \<open>The loop over the mounts; \<open>ret\<close> is the error of the last lookup so far.\<close>

fun resolve_mounts ::
  "'f vfs \<Rightarrow> 'f \<Rightarrow> string \<Rightarrow> errno \<Rightarrow> bdfs_blend_mount list \<Rightarrow> (vpath \<times> u32) kres" where
  "resolve_mounts v fs path ret [] = Inl (Eno ret)"
| "resolve_mounts v fs path ret (bm # bms) =
     (case strip_mount path (bm_mount_point bm) of
        None \<Rightarrow> resolve_mounts v fs path ret bms
      | Some rel \<Rightarrow>
          (case bm_btrfs_mnt bm of
             None \<Rightarrow> Inl Oops
           | Some m \<Rightarrow>
               (case vfs_path_lookup v (mnt_root m) m rel fs of
                  Inr p \<Rightarrow> Inr (p, BDFS_LAYER_UPPER)
                | Inl e \<Rightarrow>
                    (case resolve_layers v fs rel e (bm_dwarfs_layers bm) of
                       Inr p \<Rightarrow> Inr (p, BDFS_LAYER_LOWER)
                     | Inl e' \<Rightarrow> resolve_mounts v fs path e' bms))))"

definition bdfs_resolve_path ::
  "'f vfs \<Rightarrow> kenv \<Rightarrow> bdfs_ioctl_resolve_path \<Rightarrow> 'f bstate \<Rightarrow> bdfs_ioctl_resolve_path kres" where
  "bdfs_resolve_path v env arg s =
     (if copy_from_user_fail env then Inl (Eno EFAULT)
      else case resolve_mounts v (backing s) (rs_path arg) ENOENT (blend_mounts s) of
        Inl e \<Rightarrow> Inl e
      | Inr (resolved, layer) \<Rightarrow>
          if kzalloc_fail env 0 then Inl (Eno ENOMEM)
          else (case vfs_d_path v resolved BDFS_PATH_MAX (backing s) of
                  Inl e \<Rightarrow> Inl (Eno e)
                | Inr p \<Rightarrow>
                    if uaccess_fail env (UArg 0) then Inl (Eno EFAULT)
                    else Inr (arg\<lparr>rs_layer := layer,
                                rs_real_path := strncpy (BDFS_PATH_MAX - 1) p\<rparr>)))"

section \<open>Module-level setup\<close>

record init_env =
  ie_netlink_fail :: bool
  ie_misc_register :: "errno option"
  ie_cache_fail :: bool
  ie_register_filesystem :: "errno option"

definition bdfs_blend_init :: "init_env \<Rightarrow> 'f bstate \<Rightarrow> unit kres \<times> 'f bstate" where
  "bdfs_blend_init ie s =
     (if ie_cache_fail ie then (Inl (Eno ENOMEM), s)
      else case ie_register_filesystem ie of
        Some e \<Rightarrow> (Inl (Eno e), s\<lparr>inode_cachep := False\<rparr>)
      | None \<Rightarrow> (Inr (), s\<lparr>inode_cachep := True, blend_fs_registered := True\<rparr>))"

definition bdfs_blend_exit :: "'f bstate \<Rightarrow> 'f bstate" where
  "bdfs_blend_exit s = s\<lparr>blend_fs_registered := False, inode_cachep := False\<rparr>"

text \<open>
  The mounts that the ioctl books have no upper layer, no lower layers and no superblock;
  their addresses are distinct and below the allocator.
\<close>

definition mounts_inv :: "'f bstate \<Rightarrow> bool" where
  "mounts_inv s \<longleftrightarrow>
     (\<forall>bm \<in> set (blend_mounts s). bm_btrfs_mnt bm = None \<and> bm_dwarfs_layers bm = [] \<and>
        bm_sb bm = None \<and> bm_addr bm < next_bm s) \<and>
     distinct (map bm_addr (blend_mounts s))"

section \<open>Lemmas\<close>

lemma emit_event_bframe2 [simp]:
  "next_bm (bdfs_emit_event env t u i m s) = next_bm s"
  "deactivated (bdfs_emit_event env t u i m s) = deactivated s"
  "inode_cachep (bdfs_emit_event env t u i m s) = inode_cachep s"
  "blend_fs_registered (bdfs_emit_event env t u i m s) = blend_fs_registered s"
  "ctl_dev_registered (bdfs_emit_event env t u i m s) = ctl_dev_registered s"
  by (simp_all add: bdfs_emit_event_def Let_def)

lemma mounts_inv_mount:
  "mounts_inv s \<Longrightarrow> mounts_inv (snd (bdfs_blend_mount_ioctl env arg s))"
  by (auto simp: mounts_inv_def bdfs_blend_mount_ioctl_def zero_blend_mount_def Let_def)

lemma mounts_inv_umount:
  assumes "mounts_inv s"
  shows "mounts_inv (snd (bdfs_blend_umount env arg s))"
proof (cases "\<not> copy_from_user_fail env \<and>
    List.find (\<lambda>b. bm_mount_point b = ub_mount_point arg) (blend_mounts s) \<noteq> None")
  case False
  then show ?thesis using assms by (auto simp: bdfs_blend_umount_def)
next
  case True
  then obtain bm where bm: "List.find (\<lambda>b. bm_mount_point b = ub_mount_point arg) (blend_mounts s) = Some bm"
    by blast
  then have "bm_sb bm = None" using assms find_SomeD [OF bm] by (auto simp: mounts_inv_def)
  then show ?thesis
    using True bm assms set_remove_first_subset [of "\<lambda>b. bm_mount_point b = ub_mount_point arg" "blend_mounts s"]
    by (auto simp: bdfs_blend_umount_def mounts_inv_def Let_def distinct_map_remove_first)
qed

lemma resolve_mounts_booked:
  assumes "\<forall>bm \<in> set bms. bm_btrfs_mnt bm = None"
  shows "resolve_mounts v fs path ret bms =
    (if \<exists>bm \<in> set bms. strip_mount path (bm_mount_point bm) \<noteq> None then Inl Oops else Inl (Eno ret))"
  using assms by (induction bms) (auto split: option.splits)

end
