(* ===== verification/Bdfs_Main.thy ===== *)
theory Bdfs_Main
  imports Bdfs_Blend_Mount
begin

text \<open>
  The control device (\<open>bdfs_main.c\<close>): the dispatch of \<open>/dev/bdfs_ctl\<close> ioctls, module init
  and exit, and the invariant that every ioctl keeps.

  Promote and demote are dispatched to the handlers of import and export, which read the
  caller's structure with their own layout; the argument of these two commands is therefore
  the user memory itself, as the byte at every offset, and the two decoders follow the
  layout of the handlers' structures on a 64-bit little-endian target.
\<close>

section \<open>User memory read as a structure\<close>

type_synonym umem = "nat \<Rightarrow> u8"

definition mem_bytes :: "umem \<Rightarrow> nat \<Rightarrow> nat \<Rightarrow> u8 list" where
  "mem_bytes m off n = map m [off..<off + n]"

definition mem_num :: "umem \<Rightarrow> nat \<Rightarrow> nat \<Rightarrow> nat" where
  "mem_num m off n = foldr (\<lambda>b a. unat b + 256 * a) (mem_bytes m off n) 0"

definition mem_str :: "umem \<Rightarrow> nat \<Rightarrow> nat \<Rightarrow> string" where
  "mem_str m off n = map (\<lambda>b. char_of (unat b)) (takeWhile (\<lambda>b. b \<noteq> 0) (mem_bytes m off n))"

definition read_import :: "umem \<Rightarrow> bdfs_ioctl_import_from_dwarfs" where
  "read_import m = \<lparr>im_partition_uuid = mem_bytes m 0 16, im_image_id = of_nat (mem_num m 16 8),
     im_btrfs_mount = mem_str m 24 4096, im_subvol_name = mem_str m 4120 256,
     im_flags = of_nat (mem_num m 4376 4)\<rparr>"

definition read_export :: "umem \<Rightarrow> bdfs_ioctl_export_to_dwarfs" where
  "read_export m = \<lparr>ex_partition_uuid = mem_bytes m 0 16, ex_btrfs_subvol_id = of_nat (mem_num m 16 8),
     ex_btrfs_mount = mem_str m 24 4096, ex_image_name = mem_str m 4120 256,
     ex_compression = of_nat (mem_num m 4376 4), ex_block_size_bits = of_nat (mem_num m 4380 4),
     ex_worker_threads = of_nat (mem_num m 4384 4), ex_flags = of_nat (mem_num m 4388 4),
     ex_parent_snap_path = mem_str m 4392 4096\<rparr>"

text \<open>The caller's structures for the two commands begin with the path.\<close>

definition holds_str :: "umem \<Rightarrow> nat \<Rightarrow> string \<Rightarrow> bool" where
  "holds_str m off s \<longleftrightarrow>
     (\<forall>i < length s. m (off + i) = of_nat (of_char (s ! i))) \<and> m (off + length s) = 0"

definition holds_promote :: "umem \<Rightarrow> bdfs_ioctl_promote_to_btrfs \<Rightarrow> bool" where
  "holds_promote m a \<longleftrightarrow> holds_str m 0 (pr_blend_path a) \<and> holds_str m 4096 (pr_subvol_name a)"

section \<open>Dispatch\<close>

datatype ioctl_cmd =
    BDFS_IOC_REGISTER_PARTITION bdfs_ioctl_register_partition
  | BDFS_IOC_UNREGISTER_PARTITION bdfs_ioctl_unregister_partition
  | BDFS_IOC_LIST_PARTITIONS bdfs_ioctl_list_partitions
  | BDFS_IOC_MOUNT_BLEND bdfs_ioctl_mount_blend
  | BDFS_IOC_UMOUNT_BLEND bdfs_ioctl_umount_blend
  | BDFS_IOC_EXPORT_TO_DWARFS bdfs_ioctl_export_to_dwarfs
  | BDFS_IOC_MOUNT_DWARFS_IMAGE bdfs_ioctl_mount_dwarfs_image
  | BDFS_IOC_UMOUNT_DWARFS_IMAGE bdfs_ioctl_umount_dwarfs_image
  | BDFS_IOC_LIST_DWARFS_IMAGES bdfs_ioctl_list_dwarfs_images
  | BDFS_IOC_IMPORT_FROM_DWARFS bdfs_ioctl_import_from_dwarfs
  | BDFS_IOC_STORE_DWARFS_IMAGE bdfs_ioctl_store_dwarfs_image
  | BDFS_IOC_SNAPSHOT_DWARFS_CONTAINER bdfs_ioctl_snapshot_dwarfs_container
  | BDFS_IOC_LIST_BTRFS_SUBVOLS bdfs_ioctl_list_btrfs_subvols
  | BDFS_IOC_COPYUP_COMPLETE bdfs_ioctl_copyup_complete
  | BDFS_IOC_RESOLVE_PATH bdfs_ioctl_resolve_path
  | BDFS_IOC_PROMOTE_TO_BTRFS umem
  | BDFS_IOC_DEMOTE_TO_DWARFS umem
  | BDFS_IOC_OTHER u32

text \<open>What the call leaves in the caller's memory on success or failure.\<close>

datatype ioctl_out =
    Out_none
  | Out_id u64
  | Out_partitions "bdfs_partition list_out"
  | Out_images "bdfs_dwarfs_image list_out"
  | Out_subvols "bdfs_btrfs_subvol list_out"
  | Out_resolved bdfs_ioctl_resolve_path

definition ret_unit :: "unit kres \<times> 's \<Rightarrow> unit kres \<times> ioctl_out \<times> 's" where
  "ret_unit r = (fst r, Out_none, snd r)"

definition ret_id :: "u64 kres \<times> 's \<Rightarrow> unit kres \<times> ioctl_out \<times> 's" where
  "ret_id r = (case fst r of Inl e \<Rightarrow> (Inl e, Out_none, snd r) | Inr i \<Rightarrow> (Inr (), Out_id i, snd r))"

fun bdfs_ctl_ioctl ::
  "'f vfs \<Rightarrow> kenv \<Rightarrow> ioctl_cmd \<Rightarrow> 'f bstate \<Rightarrow> unit kres \<times> ioctl_out \<times> 'f bstate" where
  "bdfs_ctl_ioctl v env (BDFS_IOC_REGISTER_PARTITION a) s = ret_unit (bdfs_register_partition env a s)"
| "bdfs_ctl_ioctl v env (BDFS_IOC_UNREGISTER_PARTITION a) s = ret_unit (bdfs_unregister_partition env a s)"
| "bdfs_ctl_ioctl v env (BDFS_IOC_LIST_PARTITIONS a) s =
     (case bdfs_list_partitions env a s of (r, out) \<Rightarrow> (r, Out_partitions out, s))"
| "bdfs_ctl_ioctl v env (BDFS_IOC_MOUNT_BLEND a) s = ret_unit (bdfs_blend_mount_ioctl env a s)"
| "bdfs_ctl_ioctl v env (BDFS_IOC_UMOUNT_BLEND a) s = ret_unit (bdfs_blend_umount env a s)"
| "bdfs_ctl_ioctl v env (BDFS_IOC_EXPORT_TO_DWARFS a) s = ret_id (bdfs_dwarfs_export env a s)"
| "bdfs_ctl_ioctl v env (BDFS_IOC_MOUNT_DWARFS_IMAGE a) s = ret_unit (bdfs_dwarfs_mount_image env a s)"
| "bdfs_ctl_ioctl v env (BDFS_IOC_UMOUNT_DWARFS_IMAGE a) s = ret_unit (bdfs_dwarfs_umount_image env a s)"
| "bdfs_ctl_ioctl v env (BDFS_IOC_LIST_DWARFS_IMAGES a) s =
     (case bdfs_dwarfs_list_images env a s of (r, out) \<Rightarrow> (r, Out_images out, s))"
| "bdfs_ctl_ioctl v env (BDFS_IOC_IMPORT_FROM_DWARFS a) s = ret_id (bdfs_btrfs_import env a s)"
| "bdfs_ctl_ioctl v env (BDFS_IOC_STORE_DWARFS_IMAGE a) s = ret_id (bdfs_btrfs_store_image env a s)"
| "bdfs_ctl_ioctl v env (BDFS_IOC_SNAPSHOT_DWARFS_CONTAINER a) s =
     ret_id (bdfs_btrfs_snapshot_container env a s)"
| "bdfs_ctl_ioctl v env (BDFS_IOC_LIST_BTRFS_SUBVOLS a) s =
     (case bdfs_btrfs_list_subvols env a s of (r, out) \<Rightarrow> (r, Out_subvols out, s))"
| "bdfs_ctl_ioctl v env (BDFS_IOC_COPYUP_COMPLETE a) s = ret_unit (bdfs_copyup_complete v env a s)"
| "bdfs_ctl_ioctl v env (BDFS_IOC_RESOLVE_PATH a) s =
     (case bdfs_resolve_path v env a s of
        Inl e \<Rightarrow> (Inl e, Out_none, s) | Inr out \<Rightarrow> (Inr (), Out_resolved out, s))"
| "bdfs_ctl_ioctl v env (BDFS_IOC_PROMOTE_TO_BTRFS m) s = ret_id (bdfs_btrfs_import env (read_import m) s)"
| "bdfs_ctl_ioctl v env (BDFS_IOC_DEMOTE_TO_DWARFS m) s = ret_id (bdfs_dwarfs_export env (read_export m) s)"
| "bdfs_ctl_ioctl v env (BDFS_IOC_OTHER n) s = (Inl (Eno ENOTTY), Out_none, s)"

section \<open>Module init and exit\<close>

text \<open>\<open>nl_sock\<close> is whether the socket exists; releasing it leaves no user of the pointer.\<close>

definition bdfs_init :: "init_env \<Rightarrow> 'f bstate \<Rightarrow> unit kres \<times> 'f bstate" where
  "bdfs_init ie s =
     (if ie_netlink_fail ie then (Inl (Eno ENOMEM), s)
      else
        let s1 = s\<lparr>nl_sock := True\<rparr> in
        case ie_misc_register ie of
          Some e \<Rightarrow> (Inl (Eno e), s1\<lparr>nl_sock := False\<rparr>)
        | None \<Rightarrow>
            (case bdfs_blend_init ie (s1\<lparr>ctl_dev_registered := True\<rparr>) of
               (Inl e, s2) \<Rightarrow> (Inl e, s2\<lparr>ctl_dev_registered := False, nl_sock := False\<rparr>)
             | (Inr _, s2) \<Rightarrow> (Inr (), s2)))"

fun exit_loop :: "bdfs_partition_entry list \<Rightarrow> unit kres" where
  "exit_loop [] = Inr ()"
| "exit_loop (e # es) =
     (case part_ops_destroy (ent_ops e) e of Inl err \<Rightarrow> Inl err | Inr _ \<Rightarrow> exit_loop es)"

definition bdfs_exit :: "'f bstate \<Rightarrow> unit kres \<times> 'f bstate" where
  "bdfs_exit s =
     (let s1 = bdfs_blend_exit s in
      case exit_loop (partition_list s1) of
        Inl e \<Rightarrow> (Inl e, s1)
      | Inr _ \<Rightarrow> (Inr (), s1\<lparr>partition_list := [], ctl_dev_registered := False, nl_sock := False\<rparr>))"

text \<open>The module's static data when it is loaded, on backing file systems \<open>fs\<close>.\<close>

definition module_loaded :: "'f \<Rightarrow> 'f bstate" where
  "module_loaded fs =
     \<lparr>partition_list = [], partition_count = 0, nl_sock = False, nl_out = [],
      blend_mounts = [], next_bm = 0, copyup_table = [], inodes = (\<lambda>_. None), next_inode = 0,
      dcache = (\<lambda>_. None), deactivated = [], inode_cachep = False, blend_fs_registered = False,
      ctl_dev_registered = False, backing = fs\<rparr>"

section \<open>The module's invariant\<close>

definition module_inv :: "'f bstate \<Rightarrow> bool" where
  "module_inv s \<longleftrightarrow> kernel_inv s \<and> blend_inv s \<and> mounts_inv s"

text \<open>
  The partition an ioctl addresses, when it uses private data without checking the type,
  with the type it takes for granted.
\<close>

fun assumed_type :: "ioctl_cmd \<Rightarrow> (uuid \<times> u32) option" where
  "assumed_type (BDFS_IOC_MOUNT_DWARFS_IMAGE a) = Some (md_partition_uuid a, BDFS_PART_DWARFS_BACKED)"
| "assumed_type (BDFS_IOC_UMOUNT_DWARFS_IMAGE a) = Some (ud_partition_uuid a, BDFS_PART_DWARFS_BACKED)"
| "assumed_type (BDFS_IOC_LIST_DWARFS_IMAGES a) = Some (li_partition_uuid a, BDFS_PART_DWARFS_BACKED)"
| "assumed_type (BDFS_IOC_IMPORT_FROM_DWARFS a) = Some (im_partition_uuid a, BDFS_PART_BTRFS_BACKED)"
| "assumed_type (BDFS_IOC_SNAPSHOT_DWARFS_CONTAINER a) = Some (sc_partition_uuid a, BDFS_PART_BTRFS_BACKED)"
| "assumed_type (BDFS_IOC_LIST_BTRFS_SUBVOLS a) = Some (ls_partition_uuid a, BDFS_PART_BTRFS_BACKED)"
| "assumed_type (BDFS_IOC_PROMOTE_TO_BTRFS m) = Some (mem_bytes m 0 16, BDFS_PART_BTRFS_BACKED)"
| "assumed_type _ = None"

definition wrong_type :: "uuid \<Rightarrow> u32 \<Rightarrow> 'f bstate \<Rightarrow> bool" where
  "wrong_type u t s \<longleftrightarrow>
     (case bdfs_find_partition_locked u s of
        None \<Rightarrow> False | Some e \<Rightarrow> part_type (ent_desc e) \<noteq> t)"

definition type_confused :: "ioctl_cmd \<Rightarrow> 'f bstate \<Rightarrow> bool" where
  "type_confused cmd s \<longleftrightarrow>
     (case assumed_type cmd of None \<Rightarrow> False | Some (u, t) \<Rightarrow> wrong_type u t s)"

text \<open>A resolve request that matches a booked mount.\<close>

definition resolves_booked :: "ioctl_cmd \<Rightarrow> 'f bstate \<Rightarrow> bool" where
  "resolves_booked cmd s \<longleftrightarrow>
     (case cmd of
        BDFS_IOC_RESOLVE_PATH a \<Rightarrow>
          (\<exists>bm \<in> set (blend_mounts s). strip_mount (rs_path a) (bm_mount_point bm) \<noteq> None)
      | _ \<Rightarrow> False)"

inductive module_reach :: "'f vfs \<Rightarrow> 'f bstate \<Rightarrow> 'f bstate \<Rightarrow> bool"
  for v :: "'f vfs" and s0 :: "'f bstate" where
  reach_start: "module_reach v s0 s0"
| reach_ioctl: "module_reach v s0 s \<Longrightarrow> bdfs_ctl_ioctl v env cmd s = (r, out, s') \<Longrightarrow> module_reach v s0 s'"
| reach_lookup: "module_reach v s0 s \<Longrightarrow> bdfs_blend_lookup v env bmo dir d s = (rl, s') \<Longrightarrow> module_reach v s0 s'"
| reach_copyup: "module_reach v s0 s \<Longrightarrow> trigger_copyup_begin v env bmo i s = (rc, s') \<Longrightarrow> module_reach v s0 s'"
| reach_write: "module_reach v s0 s \<Longrightarrow> module_reach v s0 (run_wop v env bmo op s)"

text \<open>The ioctls on partitions leave the blend part of the state alone.\<close>

definition same_blend :: "'f bstate \<Rightarrow> 'f bstate \<Rightarrow> bool" where
  "same_blend s s' \<longleftrightarrow> kstate.more s' = kstate.more s"

text \<open>The operations of the blend file system leave the partitions, the socket and the mounts alone.\<close>

definition same_kernel :: "'f bstate \<Rightarrow> 'f bstate \<Rightarrow> bool" where
  "same_kernel s s' \<longleftrightarrow>
     partition_list s' = partition_list s \<and> partition_count s' = partition_count s \<and>
     nl_out s' = nl_out s \<and> blend_mounts s' = blend_mounts s \<and> next_bm s' = next_bm s"

text \<open>All that was multicast carries the message type of the end of a dump.\<close>

definition sends_done :: "'z kstate_scheme \<Rightarrow> bool" where
  "sends_done s \<longleftrightarrow> (\<forall>m \<in> set (nl_out s). nlm_type m = NLMSG_DONE)"

section \<open>Every ioctl keeps the invariant\<close>

lemma kernel_inv_bframe [simp]:
  "kernel_inv (s\<lparr>blend_mounts := a\<rparr>) = kernel_inv s"
  "kernel_inv (s\<lparr>next_bm := b\<rparr>) = kernel_inv s"
  "kernel_inv (s\<lparr>copyup_table := c\<rparr>) = kernel_inv s"
  "kernel_inv (s\<lparr>inodes := d\<rparr>) = kernel_inv s"
  "kernel_inv (s\<lparr>next_inode := e\<rparr>) = kernel_inv s"
  "kernel_inv (s\<lparr>dcache := f\<rparr>) = kernel_inv s"
  "kernel_inv (s\<lparr>deactivated := g\<rparr>) = kernel_inv s"
  "kernel_inv (s\<lparr>backing := h\<rparr>) = kernel_inv s"
  by (simp_all add: kernel_inv_def)

lemma same_blend_inv: "same_blend s s' \<Longrightarrow> blend_inv s' = blend_inv s \<and> mounts_inv s' = mounts_inv s"
  by (cases s; cases s') (simp add: same_blend_def blend_inv_def mounts_inv_def table_refs_def)

lemma more_update [simp]:
  "kstate.more (registry_add e s) = kstate.more s"
  "kstate.more (registry_del u s) = kstate.more s"
  by (simp_all add: registry_add_def registry_del_def)

lemma partition_ioctls_same_blend:
  "same_blend s (snd (bdfs_register_partition env a1 s))"
  "same_blend s (snd (bdfs_unregister_partition env a2 s))"
  "same_blend s (snd (bdfs_dwarfs_export env a3 s))"
  "same_blend s (snd (bdfs_dwarfs_mount_image env a4 s))"
  "same_blend s (snd (bdfs_dwarfs_umount_image env a5 s))"
  "same_blend s (snd (bdfs_btrfs_import env a6 s))"
  "same_blend s (snd (bdfs_btrfs_store_image env a7 s))"
  "same_blend s (snd (bdfs_btrfs_snapshot_container env a8 s))"
proof -
  show "same_blend s (snd (bdfs_register_partition env a1 s))"
    by (simp add: same_blend_def bdfs_register_partition_def Let_def split: option.split sum.split)
  show "same_blend s (snd (bdfs_unregister_partition env a2 s))"
    by (simp add: same_blend_def bdfs_unregister_partition_def Let_def split: option.split sum.split)
  show "same_blend s (snd (bdfs_dwarfs_export env a3 s))"
    by (simp add: same_blend_def bdfs_dwarfs_export_def Let_def split: option.split part_priv.split)
  show "same_blend s (snd (bdfs_dwarfs_mount_image env a4 s))"
    by (simp add: same_blend_def bdfs_dwarfs_mount_image_def Let_def split: option.split part_priv.split)
  show "same_blend s (snd (bdfs_dwarfs_umount_image env a5 s))"
    by (simp add: same_blend_def bdfs_dwarfs_umount_image_def Let_def split: option.split part_priv.split)
  show "same_blend s (snd (bdfs_btrfs_import env a6 s))"
    by (simp add: same_blend_def bdfs_btrfs_import_def Let_def split: option.split part_priv.split)
  show "same_blend s (snd (bdfs_btrfs_store_image env a7 s))"
    by (simp add: same_blend_def bdfs_btrfs_store_image_def Let_def split: option.split part_priv.split)
  show "same_blend s (snd (bdfs_btrfs_snapshot_container env a8 s))"
    by (simp add: same_blend_def bdfs_btrfs_snapshot_container_def Let_def split: option.split part_priv.split)
qed

lemmas kernel_inv_ioctls =
  register_partition_inv unregister_partition_inv dwarfs_export_inv dwarfs_mount_inv
  dwarfs_umount_inv btrfs_import_inv btrfs_store_inv btrfs_snapshot_inv

lemma module_inv_same_blend:
  "module_inv s \<Longrightarrow> kernel_inv s' \<Longrightarrow> same_blend s s' \<Longrightarrow> module_inv s'"
  using same_blend_inv [of s s'] by (simp add: module_inv_def)

lemma blend_inv_mounts [simp]:
  "blend_inv (s\<lparr>blend_mounts := a\<rparr>) = blend_inv s"
  "blend_inv (s\<lparr>blend_mounts := a, next_bm := b\<rparr>) = blend_inv s"
  "blend_inv (s\<lparr>deactivated := g\<rparr>) = blend_inv s"
  by (simp_all add: blend_inv_def table_refs_def)

lemma mount_ioctls_blend:
  "blend_inv s \<Longrightarrow> blend_inv (snd (bdfs_blend_mount_ioctl env a s))"
  "kernel_inv s \<Longrightarrow> kernel_inv (snd (bdfs_blend_mount_ioctl env a s))"
  "blend_inv s \<Longrightarrow> blend_inv (snd (bdfs_blend_umount env b s))"
  "kernel_inv s \<Longrightarrow> kernel_inv (snd (bdfs_blend_umount env b s))"
  by (simp_all add: bdfs_blend_mount_ioctl_def bdfs_blend_umount_def Let_def split: option.split)

lemma module_inv_complete:
  assumes "module_inv s"
  shows "module_inv (snd (bdfs_copyup_complete v env a s))"
proof -
  have inv: "kernel_inv s" "blend_inv s" "mounts_inv s" using assms by (auto simp: module_inv_def)
  have "kernel_inv (snd (bdfs_copyup_complete v env a s)) \<and> mounts_inv (snd (bdfs_copyup_complete v env a s))"
    using complete_cases [OF inv(2), of v env a] inv(1,3) by (auto simp: mounts_inv_def)
  then show ?thesis using complete_inv [OF inv(2)] by (simp add: module_inv_def)
qed

lemma module_inv_ioctl:
  assumes "module_inv s"
  shows "module_inv (snd (snd (bdfs_ctl_ioctl v env cmd s)))"
proof -
  have k: "kernel_inv s" "blend_inv s" "mounts_inv s" using assms by (auto simp: module_inv_def)
  have ret: "snd (snd (ret_id r)) = snd r" "snd (snd (ret_unit r')) = snd r'" for r r'
    by (simp_all add: ret_id_def ret_unit_def split: sum.split)
  note same = module_inv_same_blend [OF assms]
  note part = same [OF register_partition_inv [OF k(1)] partition_ioctls_same_blend(1)]
    same [OF unregister_partition_inv [OF k(1)] partition_ioctls_same_blend(2)]
    same [OF dwarfs_export_inv [OF k(1)] partition_ioctls_same_blend(3)]
    same [OF dwarfs_mount_inv [OF k(1)] partition_ioctls_same_blend(4)]
    same [OF dwarfs_umount_inv [OF k(1)] partition_ioctls_same_blend(5)]
    same [OF btrfs_import_inv [OF k(1)] partition_ioctls_same_blend(6)]
    same [OF btrfs_store_inv [OF k(1)] partition_ioctls_same_blend(7)]
    same [OF btrfs_snapshot_inv [OF k(1)] partition_ioctls_same_blend(8)]
  have "module_inv (snd (bdfs_blend_mount_ioctl env a s))" for a
    using k by (simp add: module_inv_def mount_ioctls_blend mounts_inv_mount)
  moreover have "module_inv (snd (bdfs_blend_umount env b s))" for b
    using k by (simp add: module_inv_def mount_ioctls_blend mounts_inv_umount)
  ultimately show ?thesis
    using assms by (cases cmd) (simp_all add: ret part module_inv_complete split: prod.split sum.split)
qed

lemma module_inv_lookup:
  assumes "module_inv s"
  shows "module_inv (snd (bdfs_blend_lookup v env bmo dir d s))"
proof -
  have f: "kernel_inv (snd (lookup_found v env p u d s)) \<and> mounts_inv (snd (lookup_found v env p u d s))"
    for p u
    using assms
    by (auto simp: module_inv_def mounts_inv_def lookup_found_def bdfs_blend_make_inode_def new_inode_def
        split: option.split sum.split prod.split if_splits)
  have "kernel_inv (snd (bdfs_blend_lookup v env bmo dir d s)) \<and>
      mounts_inv (snd (bdfs_blend_lookup v env bmo dir d s))"
    using assms f
    by (auto simp: module_inv_def mounts_inv_def bdfs_blend_lookup_def Let_def split: sum.split option.split)
  then show ?thesis using assms by (simp add: module_inv_def lookup_inv)
qed

lemma module_inv_trigger:
  assumes "module_inv s"
  shows "module_inv (snd (trigger_copyup_begin v env bmo i s))"
proof -
  have "kernel_inv (snd (trigger_copyup_begin v env bmo i s)) \<and>
      mounts_inv (snd (trigger_copyup_begin v env bmo i s))"
    using assms
    by (auto simp: module_inv_def mounts_inv_def trigger_copyup_begin_def bdfs_copyup_register_def
        ihold_def Let_def split: option.split)
  then show ?thesis using assms by (simp add: module_inv_def trigger_begin_inv)
qed

lemma same_kernel_inv: "same_kernel s s' \<Longrightarrow> kernel_inv s' = kernel_inv s \<and> mounts_inv s' = mounts_inv s"
  by (simp add: same_kernel_def kernel_inv_def mounts_inv_def)

lemma make_inode_same_kernel: "same_kernel s (snd (bdfs_blend_make_inode v env p u s))"
  by (auto simp: same_kernel_def bdfs_blend_make_inode_def new_inode_def split: option.split sum.split prod.split)

lemma instantiate_keeps:
  "same_kernel s (snd (instantiate_upper v env p d s))"
  "blend_inv s \<Longrightarrow> blend_inv (snd (instantiate_upper v env p d s))"
proof -
  show "same_kernel s (snd (instantiate_upper v env p d s))"
    using make_inode_same_kernel [of s v env p True]
    by (auto simp: instantiate_upper_def same_kernel_def split: prod.splits sum.splits option.splits)
  show "blend_inv s \<Longrightarrow> blend_inv (snd (instantiate_upper v env p d s))"
    using make_inode_inv [of s v env p True]
    by (auto simp: instantiate_upper_def split: prod.splits sum.splits option.splits)
qed

lemma create_upper_keeps:
  "same_kernel s (snd (create_upper v env bmo dir d mk s))"
  "blend_inv s \<Longrightarrow> blend_inv (snd (create_upper v env bmo dir d mk s))"
proof -
  have "same_kernel s (snd (instantiate_upper v env p d (s\<lparr>backing := fs\<rparr>)))" for p fs
    using instantiate_keeps(1) [of "s\<lparr>backing := fs\<rparr>" v env p d] by (simp add: same_kernel_def)
  moreover have "same_kernel s s" "\<And>fs. same_kernel s (s\<lparr>backing := fs\<rparr>)" by (simp_all add: same_kernel_def)
  ultimately show "same_kernel s (snd (create_upper v env bmo dir d mk s))"
    by (simp add: create_upper_def split: option.split sum.split prod.split)
  show "blend_inv s \<Longrightarrow> blend_inv (snd (create_upper v env bmo dir d mk s))"
    by (simp add: create_upper_def instantiate_keeps(2) split: option.split sum.split prod.split)
qed

lemma vfs_result_keeps [simp]:
  "same_kernel s (snd (vfs_result r s))" "blend_inv s \<Longrightarrow> blend_inv (snd (vfs_result r s))"
  by (auto simp: vfs_result_def same_kernel_def split: prod.split option.split)

lemma write_iter_keeps:
  "same_kernel s (snd (bdfs_blend_write_iter v i data s))"
  "blend_inv s \<Longrightarrow> blend_inv (snd (bdfs_blend_write_iter v i data s))"
proof -
  show "same_kernel s (snd (bdfs_blend_write_iter v i data s))"
    by (simp add: bdfs_blend_write_iter_def same_kernel_def split: option.split sum.split prod.split)
  show "blend_inv s \<Longrightarrow> blend_inv (snd (bdfs_blend_write_iter v i data s))"
    by (auto simp: bdfs_blend_write_iter_def blend_inv_def table_refs_def inode_ok_def
        split: option.split sum.split prod.split) fastforce
qed

lemma run_wop_keeps:
  "same_kernel s (run_wop v env bmo op s)"
  "blend_inv s \<Longrightarrow> blend_inv (run_wop v env bmo op s)"
proof -
  note defs = bdfs_blend_create_def bdfs_blend_mkdir_def bdfs_blend_symlink_def bdfs_blend_unlink_def
    bdfs_blend_rmdir_def bdfs_blend_rename_def bdfs_blend_link_def
  have r: "same_kernel s s" by (simp add: same_kernel_def)
  show "same_kernel s (run_wop v env bmo op s)"
    by (cases op) (simp_all add: defs r create_upper_keeps write_iter_keeps split: option.split sum.split)
  show "blend_inv s \<Longrightarrow> blend_inv (run_wop v env bmo op s)"
    by (cases op) (simp_all add: defs create_upper_keeps write_iter_keeps split: option.split sum.split)
qed

lemma module_inv_run_wop: "module_inv s \<Longrightarrow> module_inv (run_wop v env bmo op s)"
  using run_wop_keeps [of s v env bmo op] same_kernel_inv by (auto simp: module_inv_def)

lemma module_reach_inv: "module_reach v s0 s \<Longrightarrow> module_inv s0 \<Longrightarrow> module_inv s"
proof (induction rule: module_reach.induct)
  case (reach_ioctl s env cmd r out s')
  then show ?case using module_inv_ioctl [of s v env cmd] by simp
next
  case (reach_lookup s env bmo dir d rl s')
  then show ?case using module_inv_lookup [of s v env bmo dir d] by simp
next
  case (reach_copyup s env bmo i rc s')
  then show ?case using module_inv_trigger [of s v env bmo i] by simp
qed (simp_all add: module_inv_run_wop)

section \<open>Which ioctls go through a wrong pointer\<close>

text \<open>With the invariant, the private data have the type that the descriptor says.\<close>

lemma private_cases:
  assumes "kernel_inv s" and "bdfs_find_partition_locked u s = Some e"
  shows "(\<exists>p. ent_private e = Some (DwarfsPriv p)) \<longleftrightarrow> part_type (ent_desc e) = BDFS_PART_DWARFS_BACKED"
    and "(\<exists>p. ent_private e = Some (BtrfsPriv p)) \<longleftrightarrow> part_type (ent_desc e) = BDFS_PART_BTRFS_BACKED"
  using kernel_inv_find [OF assms] by (auto simp: entry_ok_def split: option.splits part_priv.splits)

lemma dwarfs_oops:
  assumes "kernel_inv s"
  shows "fst (bdfs_dwarfs_export env a1 s) \<noteq> Inl Oops"
    and "fst (bdfs_dwarfs_mount_image env a2 s) = Inl Oops \<longleftrightarrow> \<not> copy_from_user_fail env \<and>
      wrong_type (md_partition_uuid a2) BDFS_PART_DWARFS_BACKED s"
    and "fst (bdfs_dwarfs_umount_image env a3 s) = Inl Oops \<longleftrightarrow> \<not> copy_from_user_fail env \<and>
      wrong_type (ud_partition_uuid a3) BDFS_PART_DWARFS_BACKED s"
    and "fst (bdfs_dwarfs_list_images env a4 s) = Inl Oops \<longleftrightarrow> \<not> copy_from_user_fail env \<and>
      wrong_type (li_partition_uuid a4) BDFS_PART_DWARFS_BACKED s"
proof -
  show "fst (bdfs_dwarfs_export env a1 s) \<noteq> Inl Oops"
    using private_cases [OF assms, of "ex_partition_uuid a1"]
    by (auto simp: wrong_type_def bdfs_dwarfs_export_def Let_def split: option.split part_priv.split)
  show "fst (bdfs_dwarfs_mount_image env a2 s) = Inl Oops \<longleftrightarrow> \<not> copy_from_user_fail env \<and>
      wrong_type (md_partition_uuid a2) BDFS_PART_DWARFS_BACKED s"
    using private_cases [OF assms, of "md_partition_uuid a2"]
    by (auto simp: wrong_type_def bdfs_dwarfs_mount_image_def Let_def split: option.splits part_priv.splits if_splits)
  show "fst (bdfs_dwarfs_umount_image env a3 s) = Inl Oops \<longleftrightarrow> \<not> copy_from_user_fail env \<and>
      wrong_type (ud_partition_uuid a3) BDFS_PART_DWARFS_BACKED s"
    using private_cases [OF assms, of "ud_partition_uuid a3"]
    by (auto simp: wrong_type_def bdfs_dwarfs_umount_image_def Let_def split: option.splits part_priv.splits if_splits)
  show "fst (bdfs_dwarfs_list_images env a4 s) = Inl Oops \<longleftrightarrow> \<not> copy_from_user_fail env \<and>
      wrong_type (li_partition_uuid a4) BDFS_PART_DWARFS_BACKED s"
    using private_cases [OF assms, of "li_partition_uuid a4"]
    by (auto simp: wrong_type_def bdfs_dwarfs_list_images_def list_ioctl_def Let_def
        split: option.splits part_priv.splits if_splits prod.splits)
qed

lemma btrfs_oops:
  assumes "kernel_inv s"
  shows "fst (bdfs_btrfs_store_image env a1 s) \<noteq> Inl Oops"
    and "fst (bdfs_btrfs_import env a2 s) = Inl Oops \<longleftrightarrow> \<not> copy_from_user_fail env \<and>
      wrong_type (im_partition_uuid a2) BDFS_PART_BTRFS_BACKED s"
    and "fst (bdfs_btrfs_snapshot_container env a3 s) = Inl Oops \<longleftrightarrow> \<not> copy_from_user_fail env \<and>
      wrong_type (sc_partition_uuid a3) BDFS_PART_BTRFS_BACKED s"
    and "fst (bdfs_btrfs_list_subvols env a4 s) = Inl Oops \<longleftrightarrow> \<not> copy_from_user_fail env \<and>
      wrong_type (ls_partition_uuid a4) BDFS_PART_BTRFS_BACKED s"
proof -
  show "fst (bdfs_btrfs_store_image env a1 s) \<noteq> Inl Oops"
    using private_cases [OF assms, of "st_partition_uuid a1"]
    by (auto simp: wrong_type_def bdfs_btrfs_store_image_def Let_def split: option.split part_priv.split)
  show "fst (bdfs_btrfs_import env a2 s) = Inl Oops \<longleftrightarrow> \<not> copy_from_user_fail env \<and>
      wrong_type (im_partition_uuid a2) BDFS_PART_BTRFS_BACKED s"
    using private_cases [OF assms, of "im_partition_uuid a2"]
    by (auto simp: wrong_type_def bdfs_btrfs_import_def Let_def split: option.splits part_priv.splits if_splits)
  show "fst (bdfs_btrfs_snapshot_container env a3 s) = Inl Oops \<longleftrightarrow> \<not> copy_from_user_fail env \<and>
      wrong_type (sc_partition_uuid a3) BDFS_PART_BTRFS_BACKED s"
    using private_cases [OF assms, of "sc_partition_uuid a3"]
    by (auto simp: wrong_type_def bdfs_btrfs_snapshot_container_def Let_def split: option.splits part_priv.splits if_splits)
  show "fst (bdfs_btrfs_list_subvols env a4 s) = Inl Oops \<longleftrightarrow> \<not> copy_from_user_fail env \<and>
      wrong_type (ls_partition_uuid a4) BDFS_PART_BTRFS_BACKED s"
    using private_cases [OF assms, of "ls_partition_uuid a4"]
    by (auto simp: wrong_type_def bdfs_btrfs_list_subvols_def list_ioctl_def Let_def
        split: option.splits part_priv.splits if_splits prod.splits)
qed

lemma registry_oops:
  assumes "kernel_inv s"
  shows "fst (bdfs_register_partition env a1 s) \<noteq> Inl Oops"
    and "fst (bdfs_unregister_partition env a2 s) \<noteq> Inl Oops"
proof -
  show "fst (bdfs_register_partition env a1 s) \<noteq> Inl Oops"
    by (auto simp: bdfs_register_partition_def select_part_ops_def bdfs_dwarfs_part_init_def
        bdfs_btrfs_part_init_def bdfs_blend_part_init_def Let_def)
  show "fst (bdfs_unregister_partition env a2 s) \<noteq> Inl Oops"
  proof (cases "bdfs_find_partition_locked (up_uuid a2) s")
    case (Some e)
    then show ?thesis
      using part_ops_destroy_ok [OF kernel_inv_find [OF assms Some]]
      by (auto simp: bdfs_unregister_partition_def Let_def)
  qed (simp add: bdfs_unregister_partition_def)
qed

lemma blend_ioctls_oops:
  "fst (bdfs_blend_mount_ioctl env a1 s) \<noteq> Inl Oops"
  "fst (bdfs_blend_umount env a2 s) \<noteq> Inl Oops"
  "fst (bdfs_copyup_complete v env a3 s) \<noteq> Inl Oops"
  by (simp_all add: bdfs_blend_mount_ioctl_def bdfs_blend_umount_def bdfs_copyup_complete_def
      bdfs_copyup_lookup_and_remove_def Let_def split: option.split sum.split)

lemma resolve_oops:
  assumes "mounts_inv s"
  shows "bdfs_resolve_path v env a s = Inl Oops \<longleftrightarrow>
    \<not> copy_from_user_fail env \<and> resolves_booked (BDFS_IOC_RESOLVE_PATH a) s"
proof -
  have "\<forall>bm \<in> set (blend_mounts s). bm_btrfs_mnt bm = None"
    using assms by (auto simp: mounts_inv_def)
  then show ?thesis
    by (simp add: bdfs_resolve_path_def resolve_mounts_booked resolves_booked_def)
qed

lemma list_partitions_oops: "fst (bdfs_list_partitions env a s) \<noteq> Inl Oops"
  by (simp add: bdfs_list_partitions_def list_ioctl_def Let_def split: prod.split)

lemma ioctl_oops_iff:
  assumes "module_inv s"
  shows "fst (bdfs_ctl_ioctl v env cmd s) = Inl Oops \<longleftrightarrow>
    \<not> copy_from_user_fail env \<and> (type_confused cmd s \<or> resolves_booked cmd s)"
proof -
  have k: "kernel_inv s" "mounts_inv s" using assms by (auto simp: module_inv_def)
  have ret: "fst (ret_id r) = Inl Oops \<longleftrightarrow> fst r = Inl Oops" "fst (ret_unit r') = fst r'"
    for r :: "u64 kres \<times> 'f bstate" and r' :: "unit kres \<times> 'f bstate"
    by (simp_all add: ret_id_def ret_unit_def split: sum.split)
  have pr: "fst (case x of (r, out) \<Rightarrow> (r, g out, s)) = fst x" for x :: "unit kres \<times> 'd" and g :: "'d \<Rightarrow> ioctl_out"
    by (cases x) simp
  show ?thesis
  proof (cases cmd)
    case (BDFS_IOC_RESOLVE_PATH a)
    then show ?thesis
      using resolve_oops [OF k(2), of v env a]
      by (auto simp: type_confused_def split: sum.split)
  qed (simp_all add: ret pr registry_oops [OF k(1)] dwarfs_oops [OF k(1)] btrfs_oops [OF k(1)]
      blend_ioctls_oops list_partitions_oops type_confused_def resolves_booked_def read_import_def)
qed

section \<open>What is multicast\<close>

lemma sends_done_frame [simp]:
  "sends_done (bdfs_emit_event env t u i m s) = sends_done s"
  "sends_done (set_private u' p s) = sends_done s"
  "sends_done (registry_add e s) = sends_done s" "sends_done (registry_del u' s) = sends_done s"
  by (auto simp: sends_done_def bdfs_emit_event_def registry_add_def registry_del_def Let_def)

lemma sends_done_bframe [simp]:
  "sends_done (s\<lparr>blend_mounts := a\<rparr>) = sends_done s" "sends_done (s\<lparr>next_bm := b\<rparr>) = sends_done s"
  "sends_done (s\<lparr>copyup_table := c\<rparr>) = sends_done s" "sends_done (s\<lparr>inodes := d\<rparr>) = sends_done s"
  "sends_done (s\<lparr>next_inode := e\<rparr>) = sends_done s" "sends_done (s\<lparr>dcache := f\<rparr>) = sends_done s"
  "sends_done (s\<lparr>deactivated := g\<rparr>) = sends_done s" "sends_done (s\<lparr>backing := h\<rparr>) = sends_done s"
  by (simp_all add: sends_done_def)

lemma partition_ioctls_done:
  assumes "sends_done s"
  shows "sends_done (snd (bdfs_register_partition env a1 s))"
    and "sends_done (snd (bdfs_unregister_partition env a2 s))"
    and "sends_done (snd (bdfs_dwarfs_export env a3 s))"
    and "sends_done (snd (bdfs_dwarfs_mount_image env a4 s))"
    and "sends_done (snd (bdfs_dwarfs_umount_image env a5 s))"
    and "sends_done (snd (bdfs_btrfs_import env a6 s))"
    and "sends_done (snd (bdfs_btrfs_store_image env a7 s))"
    and "sends_done (snd (bdfs_btrfs_snapshot_container env a8 s))"
proof -
  show "sends_done (snd (bdfs_register_partition env a1 s))"
    using assms by (simp add: bdfs_register_partition_def Let_def split: option.split sum.split)
  show "sends_done (snd (bdfs_unregister_partition env a2 s))"
    using assms by (simp add: bdfs_unregister_partition_def Let_def split: option.split sum.split)
  show "sends_done (snd (bdfs_dwarfs_export env a3 s))"
    using assms by (simp add: bdfs_dwarfs_export_def Let_def split: option.split part_priv.split)
  show "sends_done (snd (bdfs_dwarfs_mount_image env a4 s))"
    using assms by (simp add: bdfs_dwarfs_mount_image_def Let_def split: option.split part_priv.split)
  show "sends_done (snd (bdfs_dwarfs_umount_image env a5 s))"
    using assms by (simp add: bdfs_dwarfs_umount_image_def Let_def split: option.split part_priv.split)
  show "sends_done (snd (bdfs_btrfs_import env a6 s))"
    using assms by (simp add: bdfs_btrfs_import_def Let_def split: option.split part_priv.split)
  show "sends_done (snd (bdfs_btrfs_store_image env a7 s))"
    using assms by (simp add: bdfs_btrfs_store_image_def Let_def split: option.split part_priv.split)
  show "sends_done (snd (bdfs_btrfs_snapshot_container env a8 s))"
    using assms by (simp add: bdfs_btrfs_snapshot_container_def Let_def split: option.split part_priv.split)
qed

lemma iput_done [simp]: "sends_done (iput i s) = sends_done s"
  by (simp add: iput_def split: option.split)

lemma blend_ioctls_done:
  assumes "sends_done s"
  shows "sends_done (snd (bdfs_blend_mount_ioctl env a1 s))"
    and "sends_done (snd (bdfs_blend_umount env a2 s))"
    and "sends_done (snd (bdfs_copyup_complete v env a3 s))"
  using assms
  by (simp_all add: bdfs_blend_mount_ioctl_def bdfs_blend_umount_def bdfs_copyup_complete_def
      bdfs_copyup_lookup_and_remove_def bdfs_blend_complete_copyup_def Let_def split: option.split sum.split)

lemma ioctl_done:
  assumes "sends_done s"
  shows "sends_done (snd (snd (bdfs_ctl_ioctl v env cmd s)))"
proof -
  have ret: "snd (snd (ret_id r)) = snd r" "snd (snd (ret_unit r')) = snd r'" for r r'
    by (simp_all add: ret_id_def ret_unit_def split: sum.split)
  show ?thesis
    using assms by (cases cmd)
      (simp_all add: ret partition_ioctls_done blend_ioctls_done split: prod.split sum.split)
qed

lemma lookup_done: "sends_done s \<Longrightarrow> sends_done (snd (bdfs_blend_lookup v env bmo dir d s))"
  by (auto simp: bdfs_blend_lookup_def lookup_found_def bdfs_blend_make_inode_def new_inode_def Let_def
      split: sum.split option.split prod.split)

lemma trigger_done: "sends_done s \<Longrightarrow> sends_done (snd (trigger_copyup_begin v env bmo i s))"
  by (simp add: trigger_copyup_begin_def bdfs_copyup_register_def ihold_def Let_def split: option.split)

lemma run_wop_done: "sends_done s \<Longrightarrow> sends_done (run_wop v env bmo op s)"
  using run_wop_keeps(1) [of s v env bmo op] by (simp add: sends_done_def same_kernel_def)

lemma module_reach_done: "module_reach v s0 s \<Longrightarrow> sends_done s0 \<Longrightarrow> sends_done s"
proof (induction rule: module_reach.induct)
  case (reach_ioctl s env cmd r out s')
  then show ?case using ioctl_done [of s v env cmd] by simp
next
  case (reach_lookup s env bmo dir d rl s')
  then show ?case using lookup_done [of s v env bmo dir d] by simp
next
  case (reach_copyup s env bmo i rc s')
  then show ?case using trigger_done [of s v env bmo i] by simp
qed (simp_all add: run_wop_done)

section \<open>Init and exit\<close>

lemma exit_loop_ok: "\<forall>e \<in> set es. entry_ok e \<Longrightarrow> exit_loop es = Inr ()"
proof (induction es)
  case (Cons e es)
  then show ?case using part_ops_destroy_ok [of e] by auto
qed simp

lemma bdfs_exit_ok:
  "kernel_inv s \<Longrightarrow> fst (bdfs_exit s) = Inr () \<and> partition_list (snd (bdfs_exit s)) = [] \<and>
   \<not> ctl_dev_registered (snd (bdfs_exit s)) \<and> \<not> nl_sock (snd (bdfs_exit s)) \<and>
   \<not> blend_fs_registered (snd (bdfs_exit s)) \<and> \<not> inode_cachep (snd (bdfs_exit s))"
  by (simp add: bdfs_exit_def bdfs_blend_exit_def kernel_inv_def exit_loop_ok)

end
