(* ===== verification/Bdfs_Kernel_Props.thy ===== *)
theory Bdfs_Kernel_Props
  imports Bdfs_Main
begin

text \<open>
  Properties of the kernel module's control interface: the invariant of every reachable
  state, which ioctls go through a wrong pointer, registration and removal of partitions,
  the numbering of images and subvolumes, the list ioctls, and module init and exit.  The
  sample inputs at the start serve the concrete instances of the properties.
\<close>

section \<open>Reachable states\<close>

definition reachable :: "'f vfs \<Rightarrow> init_env \<Rightarrow> 'f \<Rightarrow> 'f bstate \<Rightarrow> bool" where
  "reachable v ie fs s \<longleftrightarrow>
     fst (bdfs_init ie (module_loaded fs)) = Inr () \<and>
     module_reach v (snd (bdfs_init ie (module_loaded fs))) s"

section \<open>Sample inputs\<close>

text \<open>Nothing fails but the copy to a kernel address.\<close>

definition quiet_env :: kenv where
  "quiet_env = \<lparr>copy_from_user_fail = False, kzalloc_fail = (\<lambda>_. False),
     uaccess_fail = (\<lambda>p. p = KStack), skb_fail = False, nlmsg_put_fail = False,
     random_uuid = replicate 16 7, ktime_ns = 0\<rparr>"

definition quiet_init :: init_env where
  "quiet_init = \<lparr>ie_netlink_fail = False, ie_misc_register = None, ie_cache_fail = False,
     ie_register_filesystem = None\<rparr>"

definition sample_uuid :: uuid where
  "sample_uuid = replicate 16 1"

definition sample_part :: "u32 \<Rightarrow> bdfs_partition" where
  "sample_part t = zero_partition\<lparr>part_magic := BDFS_MAGIC, part_type := t, part_uuid := sample_uuid\<rparr>"

definition started :: "'f \<Rightarrow> 'f bstate" where
  "started fs = snd (bdfs_init quiet_init (module_loaded fs))"

definition with_part :: "u32 \<Rightarrow> 'f \<Rightarrow> 'f bstate" where
  "with_part t fs = snd (bdfs_register_partition quiet_env \<lparr>rp_part = sample_part t\<rparr> (started fs))"

definition sample_export :: bdfs_ioctl_export_to_dwarfs where
  "sample_export = \<lparr>ex_partition_uuid = sample_uuid, ex_btrfs_subvol_id = 256, ex_btrfs_mount = ''/mnt/b'',
     ex_image_name = ''img'', ex_compression = BDFS_COMPRESS_ZSTD, ex_block_size_bits = 0,
     ex_worker_threads = 0, ex_flags = 0, ex_parent_snap_path = []\<rparr>"

definition with_image :: "'f \<Rightarrow> 'f bstate" where
  "with_image fs = snd (bdfs_dwarfs_export quiet_env sample_export (with_part BDFS_PART_DWARFS_BACKED fs))"

lemma quiet_env_simps [simp]:
  "\<not> copy_from_user_fail quiet_env" "kzalloc_fail quiet_env = (\<lambda>_. False)"
  "uaccess_fail quiet_env = (\<lambda>p. p = KStack)" "\<not> skb_fail quiet_env" "\<not> nlmsg_put_fail quiet_env"
  "random_uuid quiet_env = replicate 16 7" "ktime_ns quiet_env = 0"
  by (simp_all add: quiet_env_def)

lemma started_reachable: "reachable v quiet_init fs (started fs)"
  by (simp add: reachable_def started_def quiet_init_def bdfs_init_def bdfs_blend_init_def reach_start)

lemma with_part_reachable: "reachable v quiet_init fs (with_part t fs)"
proof -
  have "bdfs_ctl_ioctl v quiet_env (BDFS_IOC_REGISTER_PARTITION \<lparr>rp_part = sample_part t\<rparr>) (started fs) =
      (fst (bdfs_register_partition quiet_env \<lparr>rp_part = sample_part t\<rparr> (started fs)), Out_none, with_part t fs)"
    by (simp add: with_part_def ret_unit_def)
  then show ?thesis
    using started_reachable [of v fs] unfolding reachable_def by (blast intro: reach_ioctl)
qed

lemma sample_uuid_simps [simp]:
  "\<not> uuid_is_zero sample_uuid" "length sample_uuid = 16"
  by (simp_all add: sample_uuid_def uuid_is_zero_def numeral_eq_Suc)

lemma sample_allowed: "t \<in> {BDFS_PART_DWARFS_BACKED, BDFS_PART_BTRFS_BACKED, BDFS_PART_HYBRID_BLEND} \<Longrightarrow>
   register_allowed quiet_env (sample_part t)"
  by (auto simp: register_allowed_def sample_part_def zero_partition_def)

lemma started_empty [simp]: "partition_list (started fs) = []" "partition_count (started fs) = 0"
  "nl_sock (started fs)" "blend_mounts (started fs) = []"
  by (simp_all add: started_def quiet_init_def bdfs_init_def bdfs_blend_init_def module_loaded_def)

lemma with_part_list:
  "partition_list (with_part BDFS_PART_DWARFS_BACKED fs) =
     [\<lparr>ent_desc = sample_part BDFS_PART_DWARFS_BACKED, ent_ops = Dwarfs_part_ops,
       ent_private = Some (DwarfsPriv \<lparr>dp_images = [], dp_next_image_id = 1, dp_backing_dir = []\<rparr>),
       ent_refcount = 1\<rparr>]"
  "partition_list (with_part BDFS_PART_BTRFS_BACKED fs) =
     [\<lparr>ent_desc = sample_part BDFS_PART_BTRFS_BACKED, ent_ops = Btrfs_part_ops,
       ent_private = Some (BtrfsPriv \<lparr>bp_subvols = [], bp_images = [], bp_next_image_id = 1,
         bp_next_subvol_seq = 1\<rparr>),
       ent_refcount = 1\<rparr>]"
  by (simp_all add: with_part_def bdfs_register_partition_def sample_part_def assign_uuid_def
      select_part_ops_def bdfs_dwarfs_part_init_def bdfs_btrfs_part_init_def registry_add_def
      zero_partition_def strscpy_def Let_def)

lemma sample_export_ok:
  "bdfs_dwarfs_export quiet_env sample_export (with_part BDFS_PART_DWARFS_BACKED fs) = (Inr 1, with_image fs)"
  by (simp add: with_image_def bdfs_dwarfs_export_def sample_export_def bdfs_find_partition_locked_def
      with_part_list sample_part_def Let_def)

lemma with_part_find:
  "bdfs_find_partition_locked sample_uuid (with_part BDFS_PART_DWARFS_BACKED fs) =
     Some (hd (partition_list (with_part BDFS_PART_DWARFS_BACKED fs)))"
  by (simp add: bdfs_find_partition_locked_def with_part_list sample_part_def)

lemma with_image_reachable: "reachable v quiet_init fs (with_image fs)"
proof -
  have "bdfs_ctl_ioctl v quiet_env (BDFS_IOC_EXPORT_TO_DWARFS sample_export) (with_part BDFS_PART_DWARFS_BACKED fs) =
      (Inr (), Out_id 1, with_image fs)"
    by (simp add: sample_export_ok ret_id_def)
  then show ?thesis
    using with_part_reachable [of v fs] unfolding reachable_def by (blast intro: reach_ioctl)
qed

lemma module_inv_loaded: "module_inv (module_loaded fs)"
  by (simp add: module_inv_def module_loaded_def kernel_inv_def blend_inv_def mounts_inv_def table_refs_def)

lemma module_inv_init:
  "fst (bdfs_init ie s) = Inr () \<Longrightarrow> module_inv s \<Longrightarrow> module_inv (snd (bdfs_init ie s))"
  by (auto simp: module_inv_def bdfs_init_def bdfs_blend_init_def kernel_inv_def blend_inv_def
      mounts_inv_def table_refs_def Let_def split: if_splits option.splits)

lemma reachable_inv:
  assumes "reachable v ie fs s"
  shows "module_inv s"
proof (rule module_reach_inv)
  show "module_reach v (snd (bdfs_init ie (module_loaded fs))) s"
    using assms by (simp add: reachable_def)
  show "module_inv (snd (bdfs_init ie (module_loaded fs)))"
    using assms by (intro module_inv_init module_inv_loaded) (simp add: reachable_def)
qed

lemma reachable_kernel_inv: "reachable v ie fs s \<Longrightarrow> kernel_inv s"
  by (drule reachable_inv) (simp add: module_inv_def)

lemma dwarfs_find_update:
  "(\<And>i. img_image_id (f i) = img_image_id i) \<Longrightarrow>
   dwarfs_find_image k (dwarfs_update_image k f p) = map_option f (dwarfs_find_image k p)"
  by (simp add: dwarfs_find_image_def dwarfs_update_image_def find_update_first_same)

section \<open>Invariant and pointers\<close>

text \<open>
  C2: after a successful load, every state the module reaches through ioctls, lookups,
  copy-up requests and write operations satisfies the invariant: each registered partition
  has the operations and the private data of its type with images and subvolumes numbered
  in order, the counter is the number of partitions, each copy-up entry holds a reference
  to a live inode, and booked mounts are distinct.
\<close>

theorem module_invariant:
  assumes "reachable v ie fs s"
  shows "module_inv s"
  using assms by (rule reachable_inv)

theorem module_invariant_witness:
  "module_inv (with_part BDFS_PART_DWARFS_BACKED ([] :: tree_fs)) \<and>
   length (partition_list (with_part BDFS_PART_DWARFS_BACKED ([] :: tree_fs))) = 1"
  by (simp add: module_invariant [OF with_part_reachable [of tree_vfs]] with_part_list)

text \<open>
  C27: in a reachable state an ioctl uses a pointer of the wrong kind (a null pointer or the
  private data of another backend) exactly when its argument was read and it either
  addresses a partition whose type it takes for granted without checking, or resolves a
  path below a booked blend mount, whose upper layer is never set.
\<close>

theorem ioctl_wrong_pointer:
  assumes "reachable v ie fs s"
  shows "fst (bdfs_ctl_ioctl v env cmd s) = Inl Oops \<longleftrightarrow>
    \<not> copy_from_user_fail env \<and> (type_confused cmd s \<or> resolves_booked cmd s)"
  using ioctl_oops_iff [OF reachable_inv [OF assms]] .

theorem ioctl_wrong_pointer_witness:
  "fst (bdfs_ctl_ioctl tree_vfs quiet_env
     (BDFS_IOC_IMPORT_FROM_DWARFS \<lparr>im_partition_uuid = sample_uuid, im_image_id = 1, im_btrfs_mount = [],
        im_subvol_name = [], im_flags = 0\<rparr>) (with_part BDFS_PART_DWARFS_BACKED [])) = Inl Oops"
  unfolding ioctl_wrong_pointer [OF with_part_reachable]
  by (simp add: type_confused_def wrong_type_def bdfs_find_partition_locked_def with_part_list
      sample_part_def)

section \<open>Registration\<close>

text \<open>
  C30: a permitted registration appends one entry with the caller's descriptor (and a
  generated UUID when the caller gave none), raises the counter, and is found under its
  UUID, which was not in use; lookups of other UUIDs are unchanged.  The result is an error
  exactly when the UUID cannot be copied out.
\<close>

theorem register_partition_effect:
  assumes "register_allowed env (rp_part arg)"
    and "d = assign_uuid env (rp_part arg)" and "bdfs_find_partition_locked (part_uuid d) s = None"
    and "bdfs_register_partition env arg s = (r, s')"
  shows "(\<exists>e. ent_desc e = d \<and> partition_list s' = partition_list s @ [e] \<and>
      bdfs_find_partition_locked (part_uuid d) s' = Some e) \<and>
    partition_count s' = partition_count s + 1 \<and>
    (\<forall>u. u \<noteq> part_uuid d \<longrightarrow> bdfs_find_partition_locked u s' = bdfs_find_partition_locked u s) \<and>
    (r = Inr () \<longleftrightarrow> \<not> uaccess_fail env KStack)"
proof -
  obtain e where e: "ent_desc e = d" and reg: "bdfs_register_partition env arg s =
      (if uaccess_fail env KStack then Inl (Eno EFAULT) else Inr (),
       bdfs_emit_event env BDFS_EVT_PARTITION_ADDED (Some (entry_uuid e)) 0 None (registry_add e s))"
    using register_partition_list [OF assms(1), of s] assms(2) by metis
  have s': "s' = bdfs_emit_event env BDFS_EVT_PARTITION_ADDED (Some (entry_uuid e)) 0 None (registry_add e s)"
    and r: "r = (if uaccess_fail env KStack then Inl (Eno EFAULT) else Inr ())"
    using reg assms(4) by simp_all
  have "bdfs_find_partition_locked u (registry_add e s) = bdfs_find_partition_locked u s"
    if "u \<noteq> part_uuid d" for u
    using that e by (simp add: registry.look_add split: option.split)
  then show ?thesis
    using e s' r assms(3) registry.look_add_fresh [of e s]
    by (auto simp: registry.elems_add registry_add_def)
qed

theorem register_partition_effect_witness:
  "(\<exists>e. ent_desc e = sample_part BDFS_PART_DWARFS_BACKED \<and>
      partition_list (with_part BDFS_PART_DWARFS_BACKED ([] :: tree_fs)) = [e])"
  using register_partition_effect [of quiet_env "\<lparr>rp_part = sample_part BDFS_PART_DWARFS_BACKED\<rparr>"
      "sample_part BDFS_PART_DWARFS_BACKED" "started ([] :: tree_fs)"]
    sample_allowed [of BDFS_PART_DWARFS_BACKED]
  by (simp add: with_part_def assign_uuid_def sample_part_def bdfs_find_partition_locked_def)
     (metis prod.collapse)

text \<open>
  A registration that is not permitted (unreadable argument, wrong magic number or
  type, no memory) returns an error and leaves the module as it was.
\<close>

theorem register_partition_refused:
  assumes "\<not> register_allowed env (rp_part arg)"
  shows "\<exists>e. bdfs_register_partition env arg s = (Inl (Eno e), s)"
  using register_refused [OF assms, of s] by (metis prod.collapse)

theorem register_partition_refused_witness:
  "\<exists>e. bdfs_register_partition quiet_env \<lparr>rp_part = zero_partition\<rparr> (started ([] :: tree_fs)) =
     (Inl (Eno e), started [])"
  by (rule register_partition_refused) (simp add: register_allowed_def zero_partition_def)

text \<open>
  The UUID is copied out to the kernel's own copy of the argument.  Where
  \<open>copy_to_user\<close> refuses kernel addresses, no registration reports success: a permitted one
  returns \<open>-EFAULT\<close> although the partition has been registered.
\<close>

theorem register_partition_efault:
  assumes "uaccess_checks_range env"
  shows "fst (bdfs_register_partition env arg s) \<noteq> Inr () \<and>
    (register_allowed env (rp_part arg) \<longrightarrow>
       fst (bdfs_register_partition env arg s) = Inl (Eno EFAULT) \<and>
       length (partition_list (snd (bdfs_register_partition env arg s))) = Suc (length (partition_list s)))"
proof (cases "register_allowed env (rp_part arg)")
  case True
  then obtain e where "bdfs_register_partition env arg s =
      (if uaccess_fail env KStack then Inl (Eno EFAULT) else Inr (),
       bdfs_emit_event env BDFS_EVT_PARTITION_ADDED (Some (entry_uuid e)) 0 None (registry_add e s))"
    using register_partition_list [of env arg s] by metis
  then show ?thesis using assms by (simp add: uaccess_checks_range_def registry.elems_add)
next
  case False
  then show ?thesis using register_refused [of env arg s] by auto
qed

theorem register_partition_efault_witness:
  "fst (bdfs_register_partition quiet_env \<lparr>rp_part = sample_part BDFS_PART_DWARFS_BACKED\<rparr>
     (started ([] :: tree_fs))) = Inl (Eno EFAULT)"
  using register_partition_efault [of quiet_env "\<lparr>rp_part = sample_part BDFS_PART_DWARFS_BACKED\<rparr>"
      "started ([] :: tree_fs)"]
    sample_allowed [of BDFS_PART_DWARFS_BACKED]
  by (simp add: uaccess_checks_range_def)

text \<open>
  Registering a partition under an unused UUID and unregistering that UUID gives back
  the registry, entry for entry, and the counter.
\<close>

theorem register_unregister_roundtrip:
  assumes "kernel_inv s" and "register_allowed env (rp_part arg)"
    and "u = part_uuid (assign_uuid env (rp_part arg))" and "bdfs_find_partition_locked u s = None"
    and "s1 = snd (bdfs_register_partition env arg s)"
    and "\<not> copy_from_user_fail env'"
    and "bdfs_unregister_partition env' \<lparr>up_uuid = u\<rparr> s1 = (r, s2)"
  shows "r = Inr () \<and> partition_list s2 = partition_list s \<and> partition_count s2 = partition_count s"
proof -
  obtain e where e: "ent_desc e = assign_uuid env (rp_part arg)"
    and s1: "s1 = bdfs_emit_event env BDFS_EVT_PARTITION_ADDED (Some (entry_uuid e)) 0 None (registry_add e s)"
    using register_partition_list [OF assms(2), of s] assms(5) by (metis snd_conv)
  have f: "bdfs_find_partition_locked u s1 = Some e"
    using registry.look_add_fresh [of e s] e assms(3,4) by (simp add: s1)
  have "kernel_inv s1" using register_partition_inv [OF assms(1)] by (simp add: assms(5))
  then obtain e' where d: "part_ops_destroy (ent_ops e) e = Inr e'"
    using part_ops_destroy_ok kernel_inv_find [OF _ f] by blast
  have l: "partition_list (registry_del u s1) = partition_list s"
    using registry.del_add_roundtrip [of e s] e assms(3,4)
    by (simp add: s1 registry.elems_del registry.elems_add)
  have c: "partition_count (registry_del u s1) = partition_count s"
    by (simp add: s1 registry_del_def registry_add_def)
  show ?thesis
    using assms(6,7) f d l c by (auto simp: bdfs_unregister_partition_def Let_def)
qed

theorem register_unregister_roundtrip_witness:
  "partition_list (snd (bdfs_unregister_partition quiet_env \<lparr>up_uuid = sample_uuid\<rparr>
     (with_part BDFS_PART_DWARFS_BACKED ([] :: tree_fs)))) = []"
proof -
  let ?arg = "\<lparr>rp_part = sample_part BDFS_PART_DWARFS_BACKED\<rparr>"
  let ?s1 = "with_part BDFS_PART_DWARFS_BACKED ([] :: tree_fs)"
  obtain r s2 where u: "bdfs_unregister_partition quiet_env \<lparr>up_uuid = sample_uuid\<rparr> ?s1 = (r, s2)"
    by (rule prod.exhaust)
  have k: "kernel_inv (started ([] :: tree_fs))" by (rule reachable_kernel_inv [OF started_reachable])
  have a: "register_allowed quiet_env (rp_part ?arg)" by (simp add: sample_allowed)
  have d: "sample_uuid = part_uuid (assign_uuid quiet_env (rp_part ?arg))"
    by (simp add: assign_uuid_def sample_part_def)
  have f: "bdfs_find_partition_locked sample_uuid (started ([] :: tree_fs)) = None"
    by (simp add: bdfs_find_partition_locked_def)
  have s: "?s1 = snd (bdfs_register_partition quiet_env ?arg (started ([] :: tree_fs)))"
    by (simp add: with_part_def)
  show ?thesis
    using register_unregister_roundtrip [OF k a d f s quiet_env_simps(1) u] u by simp
qed

section \<open>Images, subvolumes and lists\<close>

text \<open>
  C31: in a reachable state the images of a DwarFS-backed partition and the images and
  subvolumes of a BTRFS-backed one carry pairwise different identifiers, and the identifier
  the next object will get is not in use, as long as fewer than \<open>2 ^ 64 - 1\<close> were handed out.
\<close>

theorem object_ids_unique:
  assumes "reachable v ie fs s" and "e \<in> set (partition_list s)"
  shows "(\<forall>p. ent_private e = Some (DwarfsPriv p) \<and> length (dp_images p) < 2 ^ 64 - 1 \<longrightarrow>
       distinct (map img_image_id (dp_images p)) \<and> dp_next_image_id p \<notin> img_image_id ` set (dp_images p)) \<and>
    (\<forall>p. ent_private e = Some (BtrfsPriv p) \<and> length (bp_images p) < 2 ^ 64 - 1 \<and>
       length (bp_subvols p) < 2 ^ 64 - 1 \<longrightarrow>
       distinct (map (\<lambda>i. img_image_id (bie_desc i)) (bp_images p)) \<and>
       bp_next_image_id p \<notin> (\<lambda>i. img_image_id (bie_desc i)) ` set (bp_images p) \<and>
       distinct (map sv_subvol_id (bp_subvols p)) \<and>
       bp_next_subvol_seq p \<notin> sv_subvol_id ` set (bp_subvols p))"
proof -
  have ok: "entry_ok e"
    using reachable_kernel_inv [OF assms(1)] assms(2) by (simp add: kernel_inv_def)
  have uniq: "distinct ids \<and> nxt \<notin> set ids" if "seq_ids ids nxt" "length ids < 2 ^ 64 - 1" for ids nxt
    using seq_ids_distinct [OF seq_ids_snoc [OF that(1)]] that(2) by simp
  have "distinct (map img_image_id (dp_images p)) \<and> dp_next_image_id p \<notin> img_image_id ` set (dp_images p)"
    if "ent_private e = Some (DwarfsPriv p)" "length (dp_images p) < 2 ^ 64 - 1" for p
    using uniq [of "map img_image_id (dp_images p)" "dp_next_image_id p"] ok that by (simp add: entry_ok_def)
  moreover have "distinct (map (\<lambda>i. img_image_id (bie_desc i)) (bp_images p)) \<and>
      bp_next_image_id p \<notin> (\<lambda>i. img_image_id (bie_desc i)) ` set (bp_images p)"
    if "ent_private e = Some (BtrfsPriv p)" "length (bp_images p) < 2 ^ 64 - 1" for p
    using uniq [of "map (\<lambda>i. img_image_id (bie_desc i)) (bp_images p)" "bp_next_image_id p"] ok that
    by (simp add: entry_ok_def)
  moreover have "distinct (map sv_subvol_id (bp_subvols p)) \<and> bp_next_subvol_seq p \<notin> sv_subvol_id ` set (bp_subvols p)"
    if "ent_private e = Some (BtrfsPriv p)" "length (bp_subvols p) < 2 ^ 64 - 1" for p
    using uniq [of "map sv_subvol_id (bp_subvols p)" "bp_next_subvol_seq p"] ok that by (simp add: entry_ok_def)
  ultimately show ?thesis by blast
qed

theorem object_ids_unique_witness:
  "\<exists>e p. e \<in> set (partition_list (with_part BDFS_PART_DWARFS_BACKED ([] :: tree_fs))) \<and>
     ent_private e = Some (DwarfsPriv p) \<and> dp_next_image_id p \<notin> img_image_id ` set (dp_images p)"
  using object_ids_unique [OF with_part_reachable [of tree_vfs "[]" BDFS_PART_DWARFS_BACKED],
      of "hd (partition_list (with_part BDFS_PART_DWARFS_BACKED []))"]
  by (auto simp: with_part_list)

text \<open>
  Without faults, listing the partitions fills the caller's buffer with the first
  \<open>count\<close> descriptors in registration order and reports how many were copied and how many
  there are.
\<close>

theorem list_partitions_result:
  assumes "uaccess_ok env" and "length (partition_list s) < 2 ^ 32"
  shows "bdfs_list_partitions env arg s =
    (Inr (), \<lparr>lo_items = (if lp_parts arg then take (unat (lp_count arg)) (map ent_desc (partition_list s)) else []),
       lo_count = Some (if lp_parts arg then of_nat (min (unat (lp_count arg)) (length (partition_list s))) else 0),
       lo_total = Some (of_nat (length (partition_list s)))\<rparr>)"
  using assms list_ioctl_ok [of env "map ent_desc (partition_list s)" "lp_count arg" "lp_parts arg"]
  by (simp add: bdfs_list_partitions_def uaccess_ok_def)

theorem list_partitions_result_witness:
  "bdfs_list_partitions quiet_env \<lparr>lp_count = 8, lp_parts = True\<rparr>
     (with_part BDFS_PART_DWARFS_BACKED ([] :: tree_fs)) =
   (Inr (), \<lparr>lo_items = [sample_part BDFS_PART_DWARFS_BACKED], lo_count = Some 1, lo_total = Some 1\<rparr>)"
  using list_partitions_result [of quiet_env "with_part BDFS_PART_DWARFS_BACKED ([] :: tree_fs)"
      "\<lparr>lp_count = 8, lp_parts = True\<rparr>"]
  by (simp add: uaccess_ok_def with_part_list)

text \<open>
  An export that succeeds adds one image to the partition: listing the images of the
  partition afterwards gives the earlier images followed by the new one, under the
  identifier the export returned and the name the caller gave.
\<close>

theorem export_then_list:
  assumes "reachable v ie fs s" and "bdfs_dwarfs_export env arg s = (Inr image_id, s')"
    and "bdfs_find_partition_locked (ex_partition_uuid arg) s = Some e"
    and "ent_private e = Some (DwarfsPriv p)"
    and "uaccess_ok env'" and "li_partition_uuid l = ex_partition_uuid arg" and "li_images l"
    and "length (dp_images p) < unat (li_count l)"
  shows "\<exists>img. bdfs_dwarfs_list_images env' l s' =
      (Inr (), \<lparr>lo_items = dp_images p @ [img], lo_count = Some (of_nat (Suc (length (dp_images p)))),
                lo_total = Some (of_nat (Suc (length (dp_images p))))\<rparr>) \<and>
    img_image_id img = image_id \<and> image_id \<notin> img_image_id ` set (dp_images p) \<and>
    img_name img = strscpy (BDFS_NAME_MAX + 1) (ex_image_name arg) \<and>
    img_compression img = ex_compression arg"
proof -
  let ?img = "(export_image arg p)\<lparr>img_image_id := dp_next_image_id p\<rparr>"
  have "unat (li_count l) < 2 ^ 32" using unsigned_less [of "li_count l"] by simp
  then have len: "length (dp_images p) < 2 ^ 32 - 1" using assms(8) by simp
  have s': "s' = bdfs_emit_event env BDFS_EVT_SNAPSHOT_EXPORTED (Some (ex_partition_uuid arg))
      (dp_next_image_id p) (Some (export_event_msg arg))
      (set_private (ex_partition_uuid arg) (DwarfsPriv (dwarfs_add_image (export_image arg p) p)) s)"
    and id: "image_id = dp_next_image_id p"
    using assms(2-4) by (auto simp: bdfs_dwarfs_export_def Let_def split: if_splits)
  have ids: "seq_ids (map img_image_id (dp_images p)) (dp_next_image_id p)"
    using kernel_inv_find [OF reachable_kernel_inv [OF assms(1)] assms(3)] assms(4)
    by (simp add: entry_ok_def)
  have "dp_next_image_id p \<notin> img_image_id ` set (dp_images p)"
    using seq_ids_distinct [OF seq_ids_snoc [OF ids]] len by simp
  moreover have "bdfs_dwarfs_list_images env' l s' =
      list_ioctl env' (li_count l) True (dp_images p @ [?img])"
    using assms(3-7) by (simp add: s' bdfs_dwarfs_list_images_def find_set_private dwarfs_add_image_def uaccess_ok_def)
  moreover have "list_ioctl env' (li_count l) True (dp_images p @ [?img]) =
      (Inr (), \<lparr>lo_items = dp_images p @ [?img], lo_count = Some (of_nat (Suc (length (dp_images p)))),
                lo_total = Some (of_nat (Suc (length (dp_images p))))\<rparr>)"
    using list_ioctl_ok [OF assms(5), of "dp_images p @ [?img]" "li_count l" True] len assms(8)
    by (simp add: min_absorb2 Suc_leI)
  ultimately show ?thesis
    using id by (intro exI [of _ ?img]) (simp add: export_image_def)
qed

theorem export_then_list_witness:
  "\<exists>img. bdfs_dwarfs_list_images quiet_env \<lparr>li_partition_uuid = sample_uuid, li_count = 4, li_images = True\<rparr>
      (with_image ([] :: tree_fs)) =
      (Inr (), \<lparr>lo_items = [img], lo_count = Some 1, lo_total = Some 1\<rparr>) \<and> img_name img = ''img''"
  using export_then_list [OF with_part_reachable [of tree_vfs "[]" BDFS_PART_DWARFS_BACKED]
      sample_export_ok [of "[]"], of _ "\<lparr>dp_images = [], dp_next_image_id = 1, dp_backing_dir = []\<rparr>" quiet_env
      "\<lparr>li_partition_uuid = sample_uuid, li_count = 4, li_images = True\<rparr>"]
  by (simp add: sample_export_def with_part_find with_part_list uaccess_ok_def) blast

text \<open>
  No image is ever marked as mounted, so the check against mounting an image twice
  never applies: a mount that succeeds can be repeated, and succeeds again.
\<close>

theorem image_mounted_twice:
  assumes "reachable v ie fs s" and "bdfs_dwarfs_mount_image env arg s = (r, s')"
    and "\<not> copy_from_user_fail env'"
  shows "r \<noteq> Inl (Eno EBUSY) \<and>
    (r = Inr () \<longrightarrow> fst (bdfs_dwarfs_mount_image env' arg s') = Inr ())"
proof -
  let ?u = "md_partition_uuid arg" and ?k = "md_image_id arg"
  consider "copy_from_user_fail env" | "bdfs_find_partition_locked ?u s = None"
    | e where "bdfs_find_partition_locked ?u s = Some e" "\<nexists>p. ent_private e = Some (DwarfsPriv p)"
    | e p where "bdfs_find_partition_locked ?u s = Some e" "ent_private e = Some (DwarfsPriv p)"
        "dwarfs_find_image ?k p = None"
    | e p img where "\<not> copy_from_user_fail env" "bdfs_find_partition_locked ?u s = Some e"
        "ent_private e = Some (DwarfsPriv p)" "dwarfs_find_image ?k p = Some img"
    by (metis option.exhaust)
  then show ?thesis
  proof cases
    case (5 e p img)
    have "img_mounted img = 0"
      using kernel_inv_find [OF reachable_kernel_inv [OF assms(1)] 5(2)] 5(3,4)
      by (auto simp: entry_ok_def dwarfs_find_image_def dest: find_SomeD)
    then show ?thesis
      using assms(2,3) 5 by (auto simp: bdfs_dwarfs_mount_image_def Let_def dwarfs_find_update)
  qed (use assms(2) in \<open>auto simp: bdfs_dwarfs_mount_image_def split: option.splits part_priv.splits if_splits\<close>)
qed

theorem image_mounted_twice_witness:
  "fst (bdfs_dwarfs_mount_image quiet_env \<lparr>md_partition_uuid = sample_uuid, md_image_id = 1,
     md_mount_point = ''/mnt/d'', md_flags = 0, md_cache_size_mb = 0\<rparr>
     (snd (bdfs_dwarfs_mount_image quiet_env \<lparr>md_partition_uuid = sample_uuid, md_image_id = 1,
     md_mount_point = ''/mnt/d'', md_flags = 0, md_cache_size_mb = 0\<rparr> (with_image ([] :: tree_fs))))) = Inr ()"
proof -
  let ?a = "\<lparr>md_partition_uuid = sample_uuid, md_image_id = 1, md_mount_point = ''/mnt/d'', md_flags = 0,
     md_cache_size_mb = 0\<rparr>"
  have "fst (bdfs_dwarfs_mount_image quiet_env ?a (with_image ([] :: tree_fs))) = Inr ()"
    by (simp add: bdfs_dwarfs_mount_image_def with_image_def bdfs_dwarfs_export_def sample_export_def
        with_part_find with_part_list dwarfs_find_image_def dwarfs_add_image_def sample_part_def
        export_image_def zero_image_def Let_def)
  then show ?thesis
    using image_mounted_twice [OF with_image_reachable [of tree_vfs "[]"], of quiet_env ?a _ _ quiet_env]
    by (metis prod.collapse quiet_env_simps(1))
qed

section \<open>Promotion\<close>

text \<open>
  Promote is handled by the import code, which takes the first 16 bytes of the caller's
  structure for a partition UUID; they are the start of the path.  Unless a partition has
  those bytes as its UUID, promoting a path of 16 or more characters returns \<open>-ENOENT\<close> and
  changes nothing.
\<close>

theorem promote_reads_path_as_uuid:
  assumes "holds_promote m a" and "16 \<le> length (pr_blend_path a)" and "\<not> copy_from_user_fail env"
    and "bdfs_find_partition_locked (map (\<lambda>c. of_nat (of_char c)) (take 16 (pr_blend_path a))) s = None"
  shows "bdfs_ctl_ioctl v env (BDFS_IOC_PROMOTE_TO_BTRFS m) s = (Inl (Eno ENOENT), Out_none, s)"
proof -
  have "mem_bytes m 0 16 = map (\<lambda>c. of_nat (of_char c)) (take 16 (pr_blend_path a))"
    using assms(1,2) by (intro nth_equalityI) (auto simp: mem_bytes_def holds_promote_def holds_str_def)
  then show ?thesis
    using assms(3,4) by (simp add: read_import_def bdfs_btrfs_import_def ret_id_def)
qed

theorem promote_reads_path_as_uuid_witness:
  "bdfs_ctl_ioctl tree_vfs quiet_env (BDFS_IOC_PROMOTE_TO_BTRFS (\<lambda>i. if i < 16 then 47 else 0))
     (with_part BDFS_PART_BTRFS_BACKED []) = (Inl (Eno ENOENT), Out_none, with_part BDFS_PART_BTRFS_BACKED [])"
  by (rule promote_reads_path_as_uuid [where a = "\<lparr>pr_blend_path = replicate 16 (CHR ''/''), pr_subvol_name = [], pr_flags = 0\<rparr>"])
     (simp_all add: holds_promote_def holds_str_def bdfs_find_partition_locked_def with_part_list
       sample_part_def sample_uuid_def)

section \<open>Init and exit\<close>

text \<open>
  Loading the module either fails and leaves nothing registered, or registers the
  netlink socket, the control device, the inode cache and the file system type.
\<close>

theorem module_init_all_or_nothing:
  "case bdfs_init ie (module_loaded fs) of
     (Inl e, s) \<Rightarrow> s = module_loaded fs
   | (Inr _, s) \<Rightarrow> nl_sock s \<and> ctl_dev_registered s \<and> inode_cachep s \<and> blend_fs_registered s"
  by (simp add: bdfs_init_def bdfs_blend_init_def module_loaded_def Let_def split: option.split)

text \<open>
  Unloading the module from a reachable state destroys every partition through the
  operations of its type without going through a wrong pointer, and releases everything
  that loading registered.
\<close>

theorem module_exit_releases:
  assumes "reachable v ie fs s"
  shows "\<exists>s'. bdfs_exit s = (Inr (), s') \<and> partition_list s' = [] \<and> \<not> ctl_dev_registered s' \<and>
    \<not> nl_sock s' \<and> \<not> blend_fs_registered s' \<and> \<not> inode_cachep s'"
  using bdfs_exit_ok [OF reachable_kernel_inv [OF assms]] by (metis prod.collapse)

theorem module_exit_releases_witness:
  "\<exists>s'. bdfs_exit (with_part BDFS_PART_BTRFS_BACKED ([] :: tree_fs)) = (Inr (), s') \<and> partition_list s' = []"
  using module_exit_releases [OF with_part_reachable [of tree_vfs "[]" BDFS_PART_BTRFS_BACKED]] by blast

end
