(* ===== verification/Bdfs_Blend_Props.thy ===== *)
theory Bdfs_Blend_Props
  imports Bdfs_Kernel_Props Bdfs_Readdir
begin

text \<open>
  Properties of the blend file system: the relative path and its round trip, lookup as a
  refinement of the blended view, confinement of writes to the upper layer, the copy-up
  protocol, directory listings, and booked mounts.  The instances evaluate the operations
  on \<open>tree_vfs\<close>, with the upper layer on superblock 1 and one lower layer on superblock 2.
\<close>

section \<open>Sample file systems\<close>

definition root_of :: "nat \<Rightarrow> dentry" where
  "root_of b = \<lparr>d_sb = b, d_names = []\<rparr>"

definition mount_of :: "nat \<Rightarrow> vfsmount" where
  "mount_of b = \<lparr>mnt_id = b, mnt_root = root_of b\<rparr>"

definition sample_inode :: "u64 \<Rightarrow> u16 \<Rightarrow> rinode" where
  "sample_inode ino mode = zero_rinode\<lparr>ri_ino := ino, ri_mode := mode\<rparr>"

text \<open>
  Upper layer: the root and \<open>a\<close>; lower layer: the root, \<open>a\<close> and \<open>b\<close>.  The system's root file
  system, superblock 0, has a file \<open>u\<close>.
\<close>

definition sample_fs :: tree_fs where
  "sample_fs =
     [((1, []), sample_inode 1 0x41ED), ((1, [''a'']), sample_inode 2 0x81A4),
      ((2, []), sample_inode 1 0x41ED), ((2, [''a'']), sample_inode 5 0x81A4),
      ((2, [''b'']), sample_inode 6 0x81A4), ((0, [''u'']), sample_inode 9 0x81A4)]"

definition sample_layer :: bdfs_dwarfs_layer where
  "sample_layer = \<lparr>layer_mnt = Some (mount_of 2), layer_partition_uuid = sample_uuid, layer_image_id = 1, layer_priority = 0\<rparr>"

definition sample_bm :: bdfs_blend_mount where
  "sample_bm = (zero_blend_mount 0)\<lparr>bm_btrfs_mnt := Some (mount_of 1), bm_btrfs_uuid := sample_uuid,
     bm_dwarfs_layers := [sample_layer]\<rparr>"

definition upper_inode :: "string list \<Rightarrow> bdfs_blend_inode_info" where
  "upper_inode ns = bdfs_blend_alloc_inode\<lparr>bi_is_upper := True, bi_copyup_done := 1,
     bi_real_path := Some \<lparr>p_mnt = mount_of 1, p_dentry = \<lparr>d_sb = 1, d_names = ns\<rparr>\<rparr>\<rparr>"

definition lower_inode :: "u64 \<Rightarrow> string list \<Rightarrow> bdfs_blend_inode_info" where
  "lower_inode ino ns = bdfs_blend_alloc_inode\<lparr>bi_attr := sample_inode ino 0x81A4,
     bi_real_path := Some \<lparr>p_mnt = mount_of 2, p_dentry = \<lparr>d_sb = 2, d_names = ns\<rparr>\<rparr>\<rparr>"

text \<open>Inode 0 is the upper root directory, inode 1 the lower file \<open>b\<close>.\<close>

definition sample_state :: "tree_fs bstate" where
  "sample_state = (started sample_fs)\<lparr>inodes := [0 \<mapsto> upper_inode [], 1 \<mapsto> lower_inode 6 [''b'']],
     next_inode := 2\<rparr>"

definition sample_blend :: bdfs_ioctl_mount_blend where
  "sample_blend = \<lparr>mb_btrfs_uuid = sample_uuid, mb_dwarfs_uuid = sample_uuid, mb_mount_point = ''/m'',
     mb_opts = zero_mount_opts\<rparr>"

lemmas sample_defs = sample_state_def sample_bm_def sample_layer_def mount_of_def root_of_def
  upper_inode_def lower_inode_def bdfs_blend_alloc_inode_def zero_blend_mount_def

lemma tree_vfs_simps [simp]:
  "vfs_path_lookup tree_vfs = tree_path_lookup"
  "vfs_d_inode tree_vfs d fs = tree_lookup (d_sb d) (d_names d) fs"
  "lookup_one tree_vfs n d fs = Inr \<lparr>d_sb = d_sb d, d_names = d_names d @ [n]\<rparr>"
  "dentry_open tree_vfs p fs = None" "finish_open tree_vfs d fs = None"
  "vfs_iterate tree_vfs = tree_iterate" "full_name_hash tree_vfs = tree_hash"
  "setattr_prepare tree_vfs d a fs = None"
  "vfs_d_path tree_vfs p k fs = (let t = CHR ''/'' # join_names (d_names (p_dentry p))
     in if k < length t + 1 then Inl ENAMETOOLONG else Inr t)"
  "kern_path tree_vfs q fs = tree_path_lookup (root_of 0) (mount_of 0) q fs"
  by (simp_all add: tree_vfs_def root_of_def mount_of_def)

lemma sample_inv: "blend_inv sample_state"
  by (auto simp: sample_defs blend_inv_def table_refs_def inode_ok_def started_def quiet_init_def
      bdfs_init_def bdfs_blend_init_def module_loaded_def)

lemma backing_started [simp]: "backing (started fs) = fs"
  by (simp add: started_def quiet_init_def bdfs_init_def bdfs_blend_init_def module_loaded_def)

section \<open>Paths\<close>

text \<open>
  C29: the relative path of a dentry is computed from the leaf upwards in a fixed buffer; it
  fails with \<open>-ENAMETOOLONG\<close> exactly when the names with their separators do not fit, and
  otherwise gives the string whose components, read back from the root down, are the names
  of the dentry.
\<close>

theorem rel_path_roundtrip:
  assumes "\<forall>n \<in> set (d_names d). valid_name n"
  shows "if path_fits (d_names d)
    then \<exists>p. bdfs_blend_rel_path d PATH_MAX = Inr p \<and> path_names p = d_names d
    else bdfs_blend_rel_path d PATH_MAX = Inl ENAMETOOLONG"
  using assms by (simp add: rel_path_spec)

theorem rel_path_roundtrip_witness:
  "\<exists>p. bdfs_blend_rel_path \<lparr>d_sb = 1, d_names = [''usr'', ''lib'']\<rparr> PATH_MAX = Inr p \<and>
     path_names p = [''usr'', ''lib'']"
  using rel_path_roundtrip [of "\<lparr>d_sb = 1, d_names = [''usr'', ''lib'']\<rparr>"]
  by (simp add: valid_name_def path_fits_def)

section \<open>Lookup\<close>



section \<open>Writes\<close>






text \<open>
  C32: on an inode that is still in a lower layer, unlink, rmdir, rename and link return
  \<open>-EPERM\<close> and write returns \<open>-EROFS\<close>, and nothing changes.
\<close>

theorem lower_inode_write_refused:
  assumes "inodes s i = Some bi" and "\<not> bi_is_upper bi"
    and "inodes s dir = Some d1" and "inodes s dir2 = Some d2"
  shows "bdfs_blend_unlink v dir i s = (Inl (Eno EPERM), s) \<and>
    bdfs_blend_rmdir v dir i s = (Inl (Eno EPERM), s) \<and>
    bdfs_blend_rename v dir i dir2 name flags s = (Inl (Eno EPERM), s) \<and>
    bdfs_blend_link v i dir name s = (Inl (Eno EPERM), s) \<and>
    bdfs_blend_write_iter v i data s = (Inl (Eno EROFS), s)"
  using assms by (simp add: bdfs_blend_unlink_def bdfs_blend_rmdir_def bdfs_blend_rename_def
      bdfs_blend_link_def bdfs_blend_write_iter_def)

theorem lower_inode_write_refused_witness:
  "bdfs_blend_unlink tree_vfs 0 1 sample_state = (Inl (Eno EPERM), sample_state)"
  using lower_inode_write_refused [of sample_state 1 "lower_inode 6 [''b'']" 0 "upper_inode []" 0 "upper_inode []"]
  by (simp add: sample_state_def lower_inode_def bdfs_blend_alloc_inode_def)

text \<open>
  The root inode that mounting makes has no real path, so removing an upper file or
  directory directly below the root of a blend mount goes through a null pointer.
\<close>

theorem remove_below_root_wrong_pointer:
  assumes "bdfs_blend_fill_super env sb bm s = (Inr (bm', root), s')"
    and "i \<noteq> root" and "inodes s' i = Some bi" and "bi_is_upper bi"
  shows "fst (bdfs_blend_unlink v root i s') = Inl Oops \<and> fst (bdfs_blend_rmdir v root i s') = Inl Oops"
proof -
  have "\<exists>r. inodes s' root = Some r \<and> bi_real_path r = None"
    using assms(1)
    by (auto simp: bdfs_blend_fill_super_def new_inode_def bdfs_blend_alloc_inode_def Let_def split: if_splits)
  then show ?thesis
    using assms(3,4) by (auto simp: bdfs_blend_unlink_def bdfs_blend_rmdir_def split: option.split)
qed

theorem remove_below_root_wrong_pointer_witness:
  "fst (bdfs_blend_unlink tree_vfs 2 0 (snd (bdfs_blend_fill_super quiet_env 7 sample_bm sample_state))) = Inl Oops"
proof -
  have "bdfs_blend_fill_super quiet_env 7 sample_bm sample_state =
      (Inr (sample_bm\<lparr>bm_sb := Some 7\<rparr>, 2), snd (bdfs_blend_fill_super quiet_env 7 sample_bm sample_state))"
    by (simp add: bdfs_blend_fill_super_def new_inode_def sample_state_def Let_def)
  then show ?thesis
    using remove_below_root_wrong_pointer [of quiet_env 7 sample_bm sample_state _ 2 _ 0 "upper_inode []"]
    by (simp add: bdfs_blend_fill_super_def new_inode_def sample_state_def upper_inode_def Let_def)
qed

section \<open>Copy-up\<close>





definition sample_complete :: bdfs_ioctl_copyup_complete where
  "sample_complete = \<lparr>cc_btrfs_uuid = sample_uuid, cc_inode_no = 6, cc_upper_path = ''/u''\<rparr>"





lemma complete_backing: "backing (snd (bdfs_copyup_complete v env arg s)) = backing s"
  by (simp add: bdfs_copyup_complete_def bdfs_copyup_lookup_and_remove_def bdfs_blend_complete_copyup_def
      iput_def split: sum.split option.split)

lemma remove_first_keeps: "e \<in> set xs \<Longrightarrow> List.find P xs = Some x \<Longrightarrow> e \<noteq> x \<Longrightarrow> e \<in> set (remove_first P xs)"
  by (induction xs) (auto split: if_splits)

text \<open>
  C11: a caller that sleeps on a recorded request can always be served: completing the key
  of its entry, with a path that resolves, often enough sets the flag it waits for.  (More
  than one completion is needed when other inodes are pending under the same key.)
\<close>

theorem pending_copyup_completable:
  assumes "blend_inv s" and "e \<in> set (copyup_table s)"
    and "kern_path v path (backing s) = Inr p" and "\<not> copy_from_user_fail env"
    and "arg = \<lparr>cc_btrfs_uuid = cu_btrfs_uuid e, cc_inode_no = cu_inode_no e, cc_upper_path = path\<rparr>"
  shows "\<exists>n bi. inodes (((\<lambda>s. snd (bdfs_copyup_complete v env arg s)) ^^ n) s) (cu_inode e) = Some bi \<and>
    bi_copyup_done bi \<noteq> 0 \<and> bi_real_path bi = Some p"
  using assms(1-3)
proof (induction "length (copyup_table s)" arbitrary: s rule: less_induct)
  case less
  let ?P = "copyup_match (cc_btrfs_uuid arg) (cc_inode_no arg)"
  let ?f = "\<lambda>s. snd (bdfs_copyup_complete v env arg s)"
  have "?P e" using assms(5) by (simp add: copyup_match_def)
  then obtain x where x: "List.find ?P (copyup_table s) = Some x"
    using less.prems(2) by (metis find_None_iff not_Some_eq)
  obtain bi where bi: "inodes s (cu_inode x) = Some bi" using complete_removes [OF less.prems(1) x] .
  have eff: "?f s = s\<lparr>copyup_table := remove_first ?P (copyup_table s),
      inodes := (inodes s)(cu_inode x \<mapsto> bi\<lparr>bi_real_path := Some p, bi_is_upper := True,
        bi_copyup_done := 1, bi_count := bi_count bi - 1\<rparr>)\<rparr>"
    using complete_copyup_effect [OF less.prems(1) assms(4) _ x bi] less.prems(3) assms(5) by simp
  show ?case
  proof (cases "cu_inode x = cu_inode e")
    case True
    then show ?thesis
      using eff by (intro exI [of _ 1]) simp
  next
    case False
    then have "e \<in> set (copyup_table (?f s))"
      using remove_first_keeps [OF less.prems(2) x] eff by auto
    moreover have "length (copyup_table (?f s)) < length (copyup_table s)"
      using length_remove_first [OF x] eff by simp
    ultimately obtain n bi' where "inodes ((?f ^^ n) (?f s)) (cu_inode e) = Some bi'"
        "bi_copyup_done bi' \<noteq> 0" "bi_real_path bi' = Some p"
      using less.hyps [of "?f s"] complete_inv [OF less.prems(1)] less.prems(3)
      by (auto simp: complete_backing)
    then show ?thesis
      by (intro exI [of _ "Suc n"] exI [of _ bi']) (simp add: funpow_Suc_right del: funpow.simps)
  qed
qed

theorem pending_copyup_completable_witness:
  "\<exists>n bi. inodes (((\<lambda>s. snd (bdfs_copyup_complete tree_vfs quiet_env sample_complete s)) ^^ n)
     (bdfs_copyup_register quiet_env sample_uuid 6 1 sample_state)) 1 = Some bi \<and> bi_copyup_done bi \<noteq> 0"
proof -
  let ?s = "bdfs_copyup_register quiet_env sample_uuid 6 1 sample_state"
  let ?e = "\<lparr>cu_btrfs_uuid = sample_uuid, cu_inode_no = 6, cu_inode = 1\<rparr>"
  have "blend_inv ?s" by (rule register_inv [OF sample_inv]) (simp add: sample_state_def)
  moreover have "?e \<in> set (copyup_table ?s)" by (simp add: bdfs_copyup_register_def Let_def)
  moreover have "kern_path tree_vfs ''/u'' (backing ?s) =
      Inr \<lparr>p_mnt = mount_of 0, p_dentry = \<lparr>d_sb = 0, d_names = [''u'']\<rparr>\<rparr>"
    by (simp add: tree_path_lookup_def tree_lookup_def path_names_def sample_fs_def sample_state_def
        bdfs_copyup_register_def ihold_def root_of_def Let_def)
  ultimately show ?thesis
    using pending_copyup_completable [of ?s ?e tree_vfs "''/u''" _ quiet_env sample_complete]
    by (auto simp: sample_complete_def)
qed

text \<open>
  The pending table is keyed by the inode number copied from the backing inode, which
  two lower layers may share.  When two inodes wait under the same key, a completion sent
  for either is given to the one that asked last: that one becomes the upper file at the
  given path, and the other keeps waiting.
\<close>

theorem copyup_key_collision:
  assumes "blend_inv s" and "inodes s i = Some bi" and "inodes s j = Some bj" and "i \<noteq> j"
    and "\<not> kzalloc_fail env 3" and "\<not> copy_from_user_fail env"
    and "s1 = bdfs_copyup_register env u ino j (bdfs_copyup_register env u ino i s)"
    and "kern_path v path (backing s) = Inr p"
    and "s2 = snd (bdfs_copyup_complete v env \<lparr>cc_btrfs_uuid = u, cc_inode_no = ino, cc_upper_path = path\<rparr> s1)"
  shows "\<exists>bi' bj'. inodes s2 i = Some bi' \<and> inodes s2 j = Some bj' \<and>
    bi_copyup_done bj' = 1 \<and> bi_real_path bj' = Some p \<and>
    bi_copyup_done bi' = bi_copyup_done bi \<and> bi_real_path bi' = bi_real_path bi"
proof -
  have inv: "blend_inv s1"
    unfolding assms(7) by (intro register_inv) (use assms in \<open>simp_all add: bdfs_copyup_register_def ihold_def\<close>)
  have s1: "inodes s1 i = Some (bi\<lparr>bi_count := Suc (bi_count bi)\<rparr>)"
    "inodes s1 j = Some (bj\<lparr>bi_count := Suc (bi_count bj)\<rparr>)" "backing s1 = backing s"
    "List.find (copyup_match u ino) (copyup_table s1) = Some \<lparr>cu_btrfs_uuid = u, cu_inode_no = ino, cu_inode = j\<rparr>"
    using assms(2-5) by (simp_all add: assms(7) bdfs_copyup_register_def ihold_def copyup_match_def Let_def)
  show ?thesis
    using complete_copyup_effect [OF inv assms(6), of v "\<lparr>cc_btrfs_uuid = u, cc_inode_no = ino, cc_upper_path = path\<rparr>" p]
      s1 assms(4,8,9) by simp
qed

theorem copyup_key_collision_witness:
  "\<exists>bi' bj'. inodes (snd (bdfs_copyup_complete tree_vfs quiet_env sample_complete
       (bdfs_copyup_register quiet_env sample_uuid 6 0 (bdfs_copyup_register quiet_env sample_uuid 6 1 sample_state)))) 1 = Some bi' \<and>
     inodes (snd (bdfs_copyup_complete tree_vfs quiet_env sample_complete
       (bdfs_copyup_register quiet_env sample_uuid 6 0 (bdfs_copyup_register quiet_env sample_uuid 6 1 sample_state)))) 0 = Some bj' \<and>
     bi_copyup_done bi' = 0 \<and> bi_copyup_done bj' = 1"
proof -
  have "kern_path tree_vfs ''/u'' (backing sample_state) =
      Inr \<lparr>p_mnt = mount_of 0, p_dentry = \<lparr>d_sb = 0, d_names = [''u'']\<rparr>\<rparr>"
    by (simp add: tree_path_lookup_def tree_lookup_def path_names_def sample_fs_def sample_state_def root_of_def)
  then show ?thesis
    using copyup_key_collision [OF sample_inv, of 1 "lower_inode 6 [''b'']" 0 "upper_inode []" quiet_env _
        sample_uuid 6 tree_vfs "''/u''"]
    by (fastforce simp: sample_state_def sample_complete_def lower_inode_def bdfs_blend_alloc_inode_def)
qed

section \<open>Directory listings\<close>

lemma sample_listings:
  "own_listing tree_vfs sample_bm \<lparr>p_mnt = mount_of 1, p_dentry = root_of 1\<rparr> sample_fs =
     [\<lparr>de_name = ''a'', de_ino = 2, de_type = 0, de_pos = 0\<rparr>]"
  "lower_listing tree_vfs quiet_env sample_bm \<lparr>p_mnt = mount_of 1, p_dentry = root_of 1\<rparr> sample_fs =
     [\<lparr>de_name = ''a'', de_ino = 5, de_type = 0, de_pos = 0\<rparr>, \<lparr>de_name = ''b'', de_ino = 6, de_type = 0, de_pos = 1\<rparr>]"
  by code_simp+

lemma sample_root:
  "inodes sample_state 0 = Some (upper_inode [])"
  "bi_real_path (upper_inode []) = Some \<lparr>p_mnt = mount_of 1, p_dentry = root_of 1\<rparr>"
  "backing sample_state = sample_fs"
  by (simp_all add: sample_state_def upper_inode_def root_of_def)

text \<open>
  C28: with room for all entries, a listing gives the entries of the directory's own backing
  directory and then, from the lower layers in order, those whose hash bucket was not seen
  before: no name of the lower part repeats or was listed before, and a lower entry is left
  out only for an entry in the same bucket.  Where no two names share a bucket, the names
  listed are exactly those of all layers.
\<close>

theorem readdir_lists_all_layers:
  assumes "inodes s i = Some bi" and "bi_real_path bi = Some p"
    and "own = own_listing v bm p (backing s)" and "low = lower_listing v env bm p (backing s)"
    and "length own + length low \<le> room"
  shows "\<exists>ret pos fresh. bdfs_blend_iterate_shared v env (Some bm) i caller_pos room s = Inr (ret, own @ fresh, pos) \<and>
    set fresh \<subseteq> set low \<and> distinct (map de_name fresh) \<and> de_name ` set own \<inter> de_name ` set fresh = {} \<and>
    (\<forall>e \<in> set low. \<exists>e' \<in> set (own @ fresh). dedup_bucket v (de_name e') = dedup_bucket v (de_name e)) \<and>
    (inj_on (dedup_bucket v) (de_name ` set (own @ low)) \<longrightarrow>
       de_name ` set (own @ fresh) = de_name ` set (own @ low))"
proof -
  let ?fresh = "fresh_entries v (seen_after v own {}) low"
  have buckets: "distinct (map (\<lambda>e. dedup_bucket v (de_name e)) ?fresh)"
    "\<forall>e \<in> set ?fresh. dedup_bucket v (de_name e) \<notin> seen_after v own {}" "set ?fresh \<subseteq> set low"
    using fresh_entries_buckets [of v "seen_after v own {}" low] by auto
  have cover: "\<forall>e \<in> set low. \<exists>e' \<in> set (own @ ?fresh). dedup_bucket v (de_name e') = dedup_bucket v (de_name e)"
    using fresh_entries_cover [of _ low v "seen_after v own {}"] by (fastforce simp: seen_after_def)
  have disj: "de_name ` set own \<inter> de_name ` set ?fresh = {}"
    using buckets(2) by (auto simp: seen_after_def) (metis imageI)
  have names: "de_name ` set (own @ ?fresh) = de_name ` set (own @ low)"
    if inj: "inj_on (dedup_bucket v) (de_name ` set (own @ low))"
  proof
    show "de_name ` set (own @ ?fresh) \<subseteq> de_name ` set (own @ low)" using buckets(3) by auto
    show "de_name ` set (own @ low) \<subseteq> de_name ` set (own @ ?fresh)"
    proof
      fix x assume "x \<in> de_name ` set (own @ low)"
      then consider "x \<in> de_name ` set own" | e where "e \<in> set low" "x = de_name e" by auto
      then show "x \<in> de_name ` set (own @ ?fresh)"
      proof cases
        case (2 e)
        then obtain e' where e': "e' \<in> set (own @ ?fresh)" "dedup_bucket v (de_name e') = dedup_bucket v (de_name e)"
          using cover by blast
        then have "de_name e' \<in> de_name ` set (own @ low)" using buckets(3) by auto
        then have "de_name e' = de_name e" using inj_onD [OF inj e'(2)] 2 by auto
        then show ?thesis using 2 e' by (metis imageI)
      qed auto
    qed
  qed
  obtain ret pos where out: "bdfs_blend_iterate_shared v env (Some bm) i caller_pos room s = Inr (ret, own @ ?fresh, pos)"
    using iterate_shared_out [OF assms(1,2), of v bm env room caller_pos] assms(3-5) by blast
  show ?thesis
    by (intro exI [of _ ret] exI [of _ pos] exI [of _ ?fresh] conjI impI out buckets(3) disj cover names
        distinct_names_of_buckets [OF buckets(1)])
qed

theorem readdir_lists_all_layers_witness:
  "\<exists>ret pos fresh. bdfs_blend_iterate_shared tree_vfs quiet_env (Some sample_bm) 0 0 8 sample_state =
     Inr (ret, [\<lparr>de_name = ''a'', de_ino = 2, de_type = 0, de_pos = 0\<rparr>] @ fresh, pos) \<and>
     de_name ` set fresh = {''b''}"
proof -
  have ne: "dedup_bucket tree_vfs ''a'' \<noteq> dedup_bucket tree_vfs ''b''"
    by (simp add: dedup_bucket_def tree_hash_def of_char_def)
  then have inj: "inj_on (dedup_bucket tree_vfs) {''a'', ''b''}"
    by (simp add: inj_on_def)
  obtain ret pos fresh where *: "bdfs_blend_iterate_shared tree_vfs quiet_env (Some sample_bm) 0 0 8 sample_state =
     Inr (ret, [\<lparr>de_name = ''a'', de_ino = 2, de_type = 0, de_pos = 0\<rparr>] @ fresh, pos)"
     "{''a''} \<inter> de_name ` set fresh = {}" "insert ''a'' (de_name ` set fresh) = {''a'', ''b''}"
    using readdir_lists_all_layers [OF sample_root(1,2) refl refl, of tree_vfs sample_bm quiet_env 8 0,
        unfolded sample_root(3) sample_listings] inj
    by simp metis
  have "X = {b}" if "{a} \<inter> X = {}" "insert a X = {a, b}" "a \<noteq> b" for a b :: string and X
    using that by auto
  from this [OF *(2,3)] *(1) show ?thesis by auto
qed

lemma iterate_entries_pos:
  "iterate_entries v es end_pos (rc\<lparr>rc_pos := k\<rparr>) = iterate_entries v es end_pos rc"
  by (cases es) simp_all

lemma readdir_layers_pos:
  "readdir_layers v env bi fs ls rc = Inr rc1 \<Longrightarrow>
   \<exists>rc2. readdir_layers v env bi fs ls (rc\<lparr>rc_pos := k\<rparr>) = Inr rc2 \<and> rc_out rc2 = rc_out rc1"
  by (induction ls) (auto split: option.splits if_splits)

text \<open>
  A call that lists a directory ignores the position it is given: continuing from the
  position that a call returned gives the same entries again, so a reader that calls until
  nothing is returned never finishes on a directory with entries.
\<close>

theorem readdir_never_ends:
  assumes "bdfs_blend_iterate_shared v env bmo i pos room s = Inr (r, es, pos')"
  shows "\<exists>r' pos''. bdfs_blend_iterate_shared v env bmo i pos' room s = Inr (r', es, pos'')"
proof -
  let ?rc = "\<lambda>k. \<lparr>rc_pos = k, rc_seen = {}, rc_dedup = False, rc_out = [], rc_room = room\<rparr>"
  obtain bi where bi: "inodes s i = Some bi"
    using assms by (auto simp: bdfs_blend_iterate_shared_def split: option.splits)
  have same: "iterate_entries v xs e (?rc pos') = iterate_entries v xs e (?rc pos)" for xs e
    using iterate_entries_pos [where rc = "?rc pos" and k = pos'] by simp
  have lay: "\<forall>k. \<exists>rc2. readdir_layers v env bi fs ls
        \<lparr>rc_pos = k, rc_seen = {}, rc_dedup = True, rc_out = [], rc_room = room\<rparr> = Inr rc2 \<and> rc_out rc2 = rc_out rc1"
    if "readdir_layers v env bi fs ls
        \<lparr>rc_pos = pos, rc_seen = {}, rc_dedup = True, rc_out = [], rc_room = room\<rparr> = Inr rc1" for fs ls rc1
    using readdir_layers_pos [OF that] by simp
  show ?thesis
  proof (cases bmo)
    case None
    then show ?thesis using assms bi by (simp add: bdfs_blend_iterate_shared_def)
  next
    case (Some bm)
    show ?thesis
    proof (cases "bm_btrfs_mnt bm = None \<or> bi_real_path bi = None \<or>
        open_and_iterate v (the (bi_real_path bi)) (backing s) = None")
      case True
      then obtain rc1 where "readdir_layers v env bi (backing s) (bm_dwarfs_layers bm)
          \<lparr>rc_pos = pos, rc_seen = {}, rc_dedup = True, rc_out = [], rc_room = room\<rparr> = Inr rc1"
          "es = rc_out rc1"
        using assms bi Some by (auto simp: bdfs_blend_iterate_shared_def Let_def split: sum.splits option.splits if_splits)
      moreover from this obtain rc2 where "readdir_layers v env bi (backing s) (bm_dwarfs_layers bm)
          \<lparr>rc_pos = pos', rc_seen = {}, rc_dedup = True, rc_out = [], rc_room = room\<rparr> = Inr rc2"
          "rc_out rc2 = rc_out rc1"
        using lay by blast
      ultimately show ?thesis
        using True bi Some by (auto simp: bdfs_blend_iterate_shared_def Let_def split: option.splits)
    next
      case False
      then show ?thesis
        using assms bi Some by (auto simp: bdfs_blend_iterate_shared_def same)
    qed
  qed
qed

theorem readdir_never_ends_witness:
  "\<exists>r es pos r' pos'. es \<noteq> [] \<and>
     bdfs_blend_iterate_shared tree_vfs quiet_env (Some sample_bm) 0 0 8 sample_state = Inr (r, es, pos) \<and>
     bdfs_blend_iterate_shared tree_vfs quiet_env (Some sample_bm) 0 pos 8 sample_state = Inr (r', es, pos')"
proof -
  obtain r es pos where "bdfs_blend_iterate_shared tree_vfs quiet_env (Some sample_bm) 0 0 8 sample_state = Inr (r, es, pos)"
      "es \<noteq> []"
    using iterate_shared_out [OF sample_root(1,2), of tree_vfs sample_bm quiet_env 8 0,
        unfolded sample_root(3) sample_listings] by auto
  then show ?thesis using readdir_never_ends [of tree_vfs quiet_env "Some sample_bm" 0 0 8 sample_state r es pos] by blast
qed

section \<open>Booked mounts\<close>

text \<open>
  Booking a blend mount and removing it restores the list of mounts, provided the mount
  point fits its buffer and was not booked; both calls announce themselves, and no
  superblock is deactivated, since a booked mount never has one.
\<close>

theorem blend_mount_umount_roundtrip:
  assumes "\<not> copy_from_user_fail env" and "\<not> kzalloc_fail env 0"
    and "length (mb_mount_point arg) < BDFS_PATH_MAX"
    and "\<forall>b \<in> set (blend_mounts s). bm_mount_point b \<noteq> mb_mount_point arg"
    and "bdfs_blend_mount_ioctl env arg s = (r1, s1)"
    and "bdfs_blend_umount env \<lparr>ub_mount_point = mb_mount_point arg, ub_flags = fl\<rparr> s1 = (r2, s2)"
  shows "r1 = Inr () \<and> map bm_mount_point (blend_mounts s1) = map bm_mount_point (blend_mounts s) @ [mb_mount_point arg] \<and>
    r2 = Inr () \<and> blend_mounts s2 = blend_mounts s \<and> deactivated s2 = deactivated s"
proof -
  have none: "List.find (\<lambda>b. bm_mount_point b = mb_mount_point arg) (blend_mounts s) = None"
    using assms(4) by (simp add: find_None_iff)
  show ?thesis
    using assms(1-3,5,6) none
    by (auto simp: bdfs_blend_mount_ioctl_def bdfs_blend_umount_def zero_blend_mount_def Let_def
        find_append remove_first_append_self [OF none])
qed

theorem blend_mount_umount_roundtrip_witness:
  "blend_mounts (snd (bdfs_blend_umount quiet_env \<lparr>ub_mount_point = ''/m'', ub_flags = 0\<rparr>
     (snd (bdfs_blend_mount_ioctl quiet_env sample_blend (started ([] :: tree_fs)))))) = []"
proof -
  let ?s = "started ([] :: tree_fs)"
  have "blend_mounts ?s = []"
    by (simp add: started_def quiet_init_def bdfs_init_def bdfs_blend_init_def module_loaded_def)
  then show ?thesis
    using blend_mount_umount_roundtrip [of quiet_env sample_blend ?s _ _ 0, OF _ _ _ _ surjective_pairing surjective_pairing]
    by (simp add: sample_blend_def)
qed

end
