(* ===== verification/Bdfs_Sys.thy ===== *)
theory Bdfs_Sys
  imports Bdfs_Types "HOL-Library.State_Monad"
begin

text \<open>
  The operating system as the daemon sees it.  The daemon's job handlers are programs in
  the state monad over the thread's \<open>errno\<close>, the record of the calls made so far with their
  answers, and the daemon's mount table.  What the system answers is a parameter
  \<open>answer\<close>: any function of the history and the call, so a theorem about a handler holds
  whatever the tools and the kernel do.  A failing call sets \<open>errno\<close>; \<open>syslog\<close> has no
  effect on the state.

  \<open>wp m Q s\<close> says that \<open>m\<close>, started in \<open>s\<close>, ends in a result and state that satisfy \<open>Q\<close>.
\<close>

section \<open>Calls and answers\<close>

record fstat =
  st_size :: nat
  st_mode :: u32
  st_uid :: u32
  st_gid :: u32

datatype sys_call =
    Sc_exec "string list"
  | Sc_pipe
  | Sc_spawn_send "string list"
  | Sc_receive "string list"
  | Sc_waitpid nat
  | Sc_close nat
  | Sc_mkdir string
  | Sc_rename string string
  | Sc_unlink string
  | Sc_access string
  | Sc_system string
  | Sc_open_rd string
  | Sc_open_excl string u32
  | Sc_fstat nat
  | Sc_copy_file_range nat nat nat nat
  | Sc_sendfile nat nat nat nat
  | Sc_read nat nat
  | Sc_write nat string
  | Sc_fchown nat u32 u32
  | Sc_futimens nat
  | Sc_mount string string
  | Sc_umount string
  | Sc_copyup_complete bdfs_ioctl_copyup_complete
  | Sc_calloc

datatype wstatus = Exited nat | Signaled nat

text \<open>
  \<open>R_wait_err\<close> is the answer to a command that was started but could not be waited for.
\<close>

datatype sys_ans =
    R_err errno
  | R_wait_err errno
  | R_ok nat
  | R_status wstatus
  | R_data string
  | R_stat fstat

definition failed :: "sys_ans \<Rightarrow> bool" where
  "failed a \<longleftrightarrow> (case a of R_err _ \<Rightarrow> True | R_wait_err _ \<Rightarrow> True | _ \<Rightarrow> False)"

text \<open>\<open>errno == e\<close> right after the failing call.\<close>

definition fails_with :: "sys_ans \<Rightarrow> errno \<Rightarrow> bool" where
  "fails_with a e \<longleftrightarrow>
     (case a of R_err x \<Rightarrow> errno_code x = errno_code e
      | R_wait_err x \<Rightarrow> errno_code x = errno_code e | _ \<Rightarrow> False)"

definition ans_val :: "sys_ans \<Rightarrow> nat" where
  "ans_val a = (case a of R_ok n \<Rightarrow> n | _ \<Rightarrow> 0)"

definition ans_data :: "sys_ans \<Rightarrow> string" where
  "ans_data a = (case a of R_data d \<Rightarrow> d | _ \<Rightarrow> [])"

definition ans_stat :: "sys_ans \<Rightarrow> fstat" where
  "ans_stat a = (case a of R_stat st \<Rightarrow> st | _ \<Rightarrow> \<lparr>st_size = 0, st_mode = 0, st_uid = 0, st_gid = 0\<rparr>)"

type_synonym history = "(sys_call \<times> sys_ans) list"
type_synonym sys_env = "history \<Rightarrow> sys_call \<Rightarrow> sys_ans"

section \<open>State and monad\<close>

datatype bdfs_mount_type = BDFS_MNT_DWARFS | BDFS_MNT_BLEND

record bdfs_mount_entry =
  me_type :: bdfs_mount_type
  me_partition_uuid :: uuid
  me_image_id :: u64
  me_mount_point :: string

record dsys =
  sy_errno :: int
  sy_trace :: history
  sy_mounts :: "bdfs_mount_entry list"

type_synonym 'a dprog = "(dsys, 'a) state"

definition after_call :: "sys_call \<Rightarrow> sys_ans \<Rightarrow> dsys \<Rightarrow> dsys" where
  "after_call c a s =
     s\<lparr>sy_trace := sy_trace s @ [(c, a)],
       sy_errno := (case a of R_err e \<Rightarrow> errno_code e | R_wait_err e \<Rightarrow> errno_code e | _ \<Rightarrow> sy_errno s)\<rparr>"

definition sys :: "sys_env \<Rightarrow> sys_call \<Rightarrow> sys_ans dprog" where
  "sys env c = State (\<lambda>s. let a = env (sy_trace s) c in (a, after_call c a s))"

definition get_errno :: "int dprog" where
  "get_errno = State (\<lambda>s. (sy_errno s, s))"

definition update_mounts :: "(bdfs_mount_entry list \<Rightarrow> bdfs_mount_entry list) \<Rightarrow> unit dprog" where
  "update_mounts f = State (\<lambda>s. ((), s\<lparr>sy_mounts := f (sy_mounts s)\<rparr>))"

section \<open>Weakest preconditions\<close>

definition wp :: "('s, 'a) state \<Rightarrow> ('a \<Rightarrow> 's \<Rightarrow> bool) \<Rightarrow> 's \<Rightarrow> bool" where
  "wp m Q s \<longleftrightarrow> (case run_state m s of (a, s') \<Rightarrow> Q a s')"

named_theorems wp_rules "introduction rules for weakest preconditions"

lemma wp_returnI [wp_rules]: "Q a s \<Longrightarrow> wp (State_Monad.return a) Q s"
  by (simp add: wp_def)

lemma wp_bindI [wp_rules]: "wp m (\<lambda>a. wp (f a) Q) s \<Longrightarrow> wp (State_Monad.bind m f) Q s"
  by (simp add: wp_def split: prod.splits)

lemma wp_ifI [wp_rules]: "(b \<Longrightarrow> wp m Q s) \<Longrightarrow> (\<not> b \<Longrightarrow> wp n Q s) \<Longrightarrow> wp (if b then m else n) Q s"
  by simp

lemma wp_sumI [wp_rules]:
  "(\<And>x. v = Inl x \<Longrightarrow> wp (f x) Q s) \<Longrightarrow> (\<And>y. v = Inr y \<Longrightarrow> wp (g y) Q s) \<Longrightarrow>
   wp (case v of Inl x \<Rightarrow> f x | Inr y \<Rightarrow> g y) Q s"
  by (cases v) auto

lemma wp_optionI [wp_rules]:
  "(v = None \<Longrightarrow> wp m Q s) \<Longrightarrow> (\<And>y. v = Some y \<Longrightarrow> wp (g y) Q s) \<Longrightarrow>
   wp (case v of None \<Rightarrow> m | Some y \<Rightarrow> g y) Q s"
  by (cases v) auto

lemma wp_prodI [wp_rules]: "(\<And>a b. p = (a, b) \<Longrightarrow> wp (f a b) Q s) \<Longrightarrow> wp (case p of (a, b) \<Rightarrow> f a b) Q s"
  by (cases p) auto

text \<open>The answer of the system is arbitrary.\<close>

lemma wp_sysI [wp_rules]: "(\<And>a. Q a (after_call c a s)) \<Longrightarrow> wp (sys env c) Q s"
  by (simp add: wp_def sys_def Let_def)

lemma wp_get_errnoI [wp_rules]: "Q (sy_errno s) s \<Longrightarrow> wp get_errno Q s"
  by (simp add: wp_def get_errno_def)

lemma wp_update_mountsI [wp_rules]: "Q () (s\<lparr>sy_mounts := f (sy_mounts s)\<rparr>) \<Longrightarrow> wp (update_mounts f) Q s"
  by (simp add: wp_def update_mounts_def)

lemma wp_mono: "wp m Q s \<Longrightarrow> (\<And>a s'. Q a s' \<Longrightarrow> R a s') \<Longrightarrow> wp m R s"
  by (auto simp: wp_def)

lemma wp_run: "wp m Q s \<Longrightarrow> run_state m s = (a, s') \<Longrightarrow> Q a s'"
  by (simp add: wp_def)

lemma after_call_simps [simp]:
  "sy_trace (after_call c a s) = sy_trace s @ [(c, a)]"
  "sy_mounts (after_call c a s) = sy_mounts s"
  by (simp_all add: after_call_def)

lemma after_call_errno:
  "failed a \<Longrightarrow> 0 < sy_errno (after_call c a s)"
  by (auto simp: after_call_def failed_def split: sys_ans.splits)

lemma after_call_errno_zero [simp]:
  "sy_errno (after_call c a s) = 0 \<longleftrightarrow> \<not> failed a \<and> sy_errno s = 0"
  by (auto simp: after_call_def failed_def split: sys_ans.splits)

text \<open>Running a program only adds to the record of calls.\<close>

definition extends :: "dsys \<Rightarrow> dsys \<Rightarrow> bool" where
  "extends s s' \<longleftrightarrow> (\<exists>evs. sy_trace s' = sy_trace s @ evs)"

text \<open>The calls a program made.\<close>

definition new_calls :: "dsys \<Rightarrow> dsys \<Rightarrow> history" where
  "new_calls s s' = drop (length (sy_trace s)) (sy_trace s')"

lemma new_calls_self [simp]: "new_calls s s = []"
  by (simp add: new_calls_def)

lemma new_calls_append:
  "sy_trace s' = sy_trace s @ evs \<Longrightarrow> new_calls s s' = evs"
  by (simp add: new_calls_def)

end
