(* ===== verification/Bdfs_Exec.thy ===== *)
theory Bdfs_Exec
  imports Bdfs_Sys
begin

text \<open>
  The helpers that run external tools (\<open>bdfs_exec.c\<close>): the argument vectors of mkdwarfs,
  dwarfsextract, dwarfs, fusermount and btrfs, and the translation of a child's end into a
  return code.  The first element of a vector is the program that is run.
\<close>

section \<open>Configuration\<close>

record bdfs_daemon_config =
  cfg_ctl_device :: string
  cfg_socket_path :: string
  cfg_state_dir :: string
  cfg_mkdwarfs_bin :: string
  cfg_dwarfs_bin :: string
  cfg_dwarfsextract_bin :: string
  cfg_dwarfsck_bin :: string
  cfg_btrfs_bin :: string
  cfg_worker_threads :: int
  cfg_netlink_proto :: int
  cfg_daemonize :: bool
  cfg_verbose :: bool

section \<open>Running a tool\<close>

definition compression_name :: "u32 \<Rightarrow> string" where
  "compression_name c =
     (if c = BDFS_COMPRESS_LZMA then ''lzma''
      else if c = BDFS_COMPRESS_ZSTD then ''zstd''
      else if c = BDFS_COMPRESS_LZ4 then ''lz4''
      else if c = BDFS_COMPRESS_BROTLI then ''brotli''
      else ''null'')"

definition exec_result :: "sys_ans \<Rightarrow> int dprog" where
  "exec_result a =
     (if failed a then do { e \<leftarrow> get_errno; State_Monad.return (- e) }
      else if a = R_status (Exited 0) then State_Monad.return 0
      else State_Monad.return (- errno_code EIO))"

definition bdfs_exec_wait :: "sys_env \<Rightarrow> string list \<Rightarrow> int dprog" where
  "bdfs_exec_wait env argv = do { a \<leftarrow> sys env (Sc_exec argv); exec_result a }"

section \<open>The tools\<close>

definition mkdwarfs_argv ::
  "bdfs_daemon_config \<Rightarrow> string \<Rightarrow> string \<Rightarrow> u32 \<Rightarrow> u32 \<Rightarrow> int \<Rightarrow> string list" where
  "mkdwarfs_argv cfg input_dir output_image compression block_size_bits worker_threads =
     [cfg_mkdwarfs_bin cfg, ''-i'', input_dir, ''-o'', output_image,
      ''--compression'', compression_name compression,
      ''--block-size-bits'', snprintf 16 (dec (unat (if block_size_bits \<noteq> 0 then block_size_bits else 22))),
      ''--num-workers'', snprintf 16 (sdec (if worker_threads \<noteq> 0 then worker_threads else 4)),
      ''--categorize'']"

definition bdfs_exec_mkdwarfs ::
  "sys_env \<Rightarrow> bdfs_daemon_config \<Rightarrow> string \<Rightarrow> string \<Rightarrow> u32 \<Rightarrow> u32 \<Rightarrow> int \<Rightarrow> int dprog" where
  "bdfs_exec_mkdwarfs env cfg input_dir output_image compression block_size_bits worker_threads =
     bdfs_exec_wait env
       (mkdwarfs_argv cfg input_dir output_image compression block_size_bits worker_threads)"

definition bdfs_exec_dwarfsextract ::
  "sys_env \<Rightarrow> bdfs_daemon_config \<Rightarrow> string \<Rightarrow> string \<Rightarrow> int dprog" where
  "bdfs_exec_dwarfsextract env cfg image_path output_dir =
     bdfs_exec_wait env [cfg_dwarfsextract_bin cfg, ''-i'', image_path, ''-o'', output_dir]"

definition bdfs_exec_dwarfs_mount ::
  "sys_env \<Rightarrow> bdfs_daemon_config \<Rightarrow> string \<Rightarrow> string \<Rightarrow> u32 \<Rightarrow> int dprog" where
  "bdfs_exec_dwarfs_mount env cfg image_path mount_point cache_mb =
     bdfs_exec_wait env
       [cfg_dwarfs_bin cfg, image_path, mount_point, ''-o'',
        snprintf 64 (''cache_size='' @ dec (unat (if cache_mb \<noteq> 0 then cache_mb else 256)) @ ''m'')]"

definition bdfs_exec_dwarfs_umount :: "sys_env \<Rightarrow> string \<Rightarrow> int dprog" where
  "bdfs_exec_dwarfs_umount env mount_point =
     bdfs_exec_wait env [''fusermount'', ''-u'', mount_point]"

text \<open>
  The child of a send runs on; the result is the errno, or the child's pid and the read end
  of the pipe.
\<close>

definition send_argv :: "bdfs_daemon_config \<Rightarrow> string \<Rightarrow> string option \<Rightarrow> string list" where
  "send_argv cfg subvol_path parent =
     (case parent of
        Some p \<Rightarrow> if p \<noteq> [] then [cfg_btrfs_bin cfg, ''send'', ''-p'', p, subvol_path]
                   else [cfg_btrfs_bin cfg, ''send'', subvol_path]
      | None \<Rightarrow> [cfg_btrfs_bin cfg, ''send'', subvol_path])"

definition bdfs_exec_btrfs_send_incremental ::
  "sys_env \<Rightarrow> bdfs_daemon_config \<Rightarrow> string \<Rightarrow> string option \<Rightarrow> (int + nat \<times> nat) dprog" where
  "bdfs_exec_btrfs_send_incremental env cfg subvol_path parent =
     do {
       p \<leftarrow> sys env Sc_pipe;
       if failed p then do { e \<leftarrow> get_errno; State_Monad.return (Inl (- e)) }
       else do {
         a \<leftarrow> sys env (Sc_spawn_send (send_argv cfg subvol_path parent));
         if failed a then do {
           sys env (Sc_close (ans_val p));
           sys env (Sc_close (Suc (ans_val p)));
           e \<leftarrow> get_errno;
           State_Monad.return (Inl (- e))
         }
         else do {
           sys env (Sc_close (Suc (ans_val p)));
           State_Monad.return (Inr (ans_val a, ans_val p))
         }
       }
     }"

definition bdfs_exec_btrfs_receive ::
  "sys_env \<Rightarrow> bdfs_daemon_config \<Rightarrow> string \<Rightarrow> int dprog" where
  "bdfs_exec_btrfs_receive env cfg dest_dir =
     do { a \<leftarrow> sys env (Sc_receive [cfg_btrfs_bin cfg, ''receive'', dest_dir]); exec_result a }"

definition snapshot_argv :: "bdfs_daemon_config \<Rightarrow> string \<Rightarrow> string \<Rightarrow> bool \<Rightarrow> string list" where
  "snapshot_argv cfg source_subvol dest_path readonly =
     [cfg_btrfs_bin cfg, ''subvolume'', ''snapshot''] @ (if readonly then [''-r''] else []) @
     [source_subvol, dest_path]"

definition bdfs_exec_btrfs_snapshot ::
  "sys_env \<Rightarrow> bdfs_daemon_config \<Rightarrow> string \<Rightarrow> string \<Rightarrow> bool \<Rightarrow> int dprog" where
  "bdfs_exec_btrfs_snapshot env cfg source_subvol dest_path readonly =
     bdfs_exec_wait env (snapshot_argv cfg source_subvol dest_path readonly)"

definition create_argv :: "bdfs_daemon_config \<Rightarrow> string \<Rightarrow> string list" where
  "create_argv cfg path = [cfg_btrfs_bin cfg, ''subvolume'', ''create'', path]"

definition bdfs_exec_btrfs_subvol_create :: "sys_env \<Rightarrow> bdfs_daemon_config \<Rightarrow> string \<Rightarrow> int dprog" where
  "bdfs_exec_btrfs_subvol_create env cfg path = bdfs_exec_wait env (create_argv cfg path)"

definition delete_argv :: "bdfs_daemon_config \<Rightarrow> string \<Rightarrow> string list" where
  "delete_argv cfg path = [cfg_btrfs_bin cfg, ''subvolume'', ''delete'', path]"

definition bdfs_exec_btrfs_subvol_delete :: "sys_env \<Rightarrow> bdfs_daemon_config \<Rightarrow> string \<Rightarrow> int dprog" where
  "bdfs_exec_btrfs_subvol_delete env cfg path = bdfs_exec_wait env (delete_argv cfg path)"

text \<open>
  A command that is waited for is one call; the result is 0 exactly when the child exited
  with status 0.
\<close>

definition succeeded :: "sys_ans \<Rightarrow> bool" where
  "succeeded a \<longleftrightarrow> a = R_status (Exited 0)"

section \<open>Lemmas\<close>

lemma exec_result_wpI:
  assumes "\<And>r. (r = 0 \<longleftrightarrow> succeeded a) \<Longrightarrow> r \<le> 0 \<Longrightarrow> Q r s"
    and "failed a \<Longrightarrow> 0 < sy_errno s"
  shows "wp (exec_result a) Q s"
proof -
  have f: "failed a \<Longrightarrow> \<not> succeeded a" by (auto simp: failed_def succeeded_def)
  show ?thesis
    unfolding exec_result_def
    using assms f by (intro wp_rules) (auto simp: succeeded_def)
qed

lemma exec_wait_wpI [wp_rules]:
  assumes "\<And>a r. (r = 0 \<longleftrightarrow> succeeded a) \<Longrightarrow> r \<le> 0 \<Longrightarrow> Q r (after_call (Sc_exec argv) a s)"
  shows "wp (bdfs_exec_wait env argv) Q s"
  unfolding bdfs_exec_wait_def
  by (intro wp_rules exec_result_wpI) (auto intro: assms after_call_errno)

lemma receive_wpI [wp_rules]:
  assumes "\<And>a r. (r = 0 \<longleftrightarrow> succeeded a) \<Longrightarrow> r \<le> 0 \<Longrightarrow>
    Q r (after_call (Sc_receive [cfg_btrfs_bin cfg, ''receive'', dest_dir]) a s)"
  shows "wp (bdfs_exec_btrfs_receive env cfg dest_dir) Q s"
  unfolding bdfs_exec_btrfs_receive_def
  by (intro wp_rules exec_result_wpI) (auto intro: assms after_call_errno)

lemmas exec_defs =
  bdfs_exec_mkdwarfs_def bdfs_exec_dwarfsextract_def bdfs_exec_dwarfs_mount_def
  bdfs_exec_dwarfs_umount_def bdfs_exec_btrfs_snapshot_def bdfs_exec_btrfs_subvol_create_def
  bdfs_exec_btrfs_subvol_delete_def

end
