(* ===== verification/Bdfs_Daemon.thy ===== *)
theory Bdfs_Daemon
  imports Bdfs_Exec "HOL-Library.Multiset"
begin

text \<open>
  The daemon (\<open>bdfs_daemon.h\<close>, \<open>bdfs_daemon.c\<close>): jobs, the table of active mounts, the job
  queue with its pool of worker threads, and start-up.  The worker pool is a step relation:
  a step is what one thread does between acquiring and releasing the queue lock, or the run
  of one job.  No job sets its completion callback, which is left out.
\<close>

section \<open>Jobs\<close>

record export_job =
  xj_btrfs_mount :: string
  xj_subvol_id :: u64
  xj_image_path :: string
  xj_image_name :: string
  xj_compression :: u32
  xj_block_size_bits :: u32
  xj_worker_threads :: u32
  xj_flags :: u32
  xj_parent_snap_path :: string

record import_job =
  ij_image_path :: string
  ij_btrfs_mount :: string
  ij_subvol_name :: string
  ij_flags :: u32

record mount_job =
  mj_image_path :: string
  mj_mount_point :: string
  mj_cache_size_mb :: u32
  mj_flags :: u32

record umount_job =
  uj_mount_point :: string
  uj_flags :: u32

record store_job =
  sj_source_path :: string
  sj_dest_path :: string
  sj_flags :: u32

record snapshot_job =
  nj_subvol_path :: string
  nj_snapshot_path :: string
  nj_flags :: u32

record blend_job =
  bj_btrfs_mount :: string
  bj_dwarfs_mount :: string
  bj_blend_mount :: string

record copyup_job =
  pj_btrfs_uuid :: uuid
  pj_inode_no :: u64
  pj_lower_path :: string
  pj_upper_path :: string

text \<open>The type tag and the union arm it selects.\<close>

datatype job_body =
    BDFS_JOB_EXPORT_TO_DWARFS export_job
  | BDFS_JOB_IMPORT_FROM_DWARFS import_job
  | BDFS_JOB_MOUNT_DWARFS mount_job
  | BDFS_JOB_UMOUNT_DWARFS umount_job
  | BDFS_JOB_STORE_IMAGE store_job
  | BDFS_JOB_SNAPSHOT_CONTAINER snapshot_job
  | BDFS_JOB_MOUNT_BLEND blend_job
  | BDFS_JOB_UMOUNT_BLEND blend_job
  | BDFS_JOB_PROMOTE_COPYUP copyup_job

record bdfs_job =
  job_partition_uuid :: uuid
  job_object_id :: u64
  job_body :: job_body

text \<open>A job comes zeroed from \<open>calloc\<close>.\<close>

definition zero_export_job :: export_job where
  "zero_export_job = \<lparr>xj_btrfs_mount = [], xj_subvol_id = 0, xj_image_path = [], xj_image_name = [],
     xj_compression = 0, xj_block_size_bits = 0, xj_worker_threads = 0, xj_flags = 0,
     xj_parent_snap_path = []\<rparr>"

definition zero_import_job :: import_job where
  "zero_import_job = \<lparr>ij_image_path = [], ij_btrfs_mount = [], ij_subvol_name = [], ij_flags = 0\<rparr>"

text \<open>\<open>bdfs_job_alloc(type)\<close>; the arm of the union is zero.\<close>

definition bdfs_job_alloc :: "job_body \<Rightarrow> bdfs_job" where
  "bdfs_job_alloc b = \<lparr>job_partition_uuid = zero_uuid, job_object_id = 0, job_body = b\<rparr>"

section \<open>The table of active mounts\<close>

definition mount_add :: "bdfs_mount_entry \<Rightarrow> bdfs_mount_entry list \<Rightarrow> bdfs_mount_entry list" where
  "mount_add me ms = ms @ [me]"

definition mount_del :: "string \<Rightarrow> bdfs_mount_entry list \<Rightarrow> bdfs_mount_entry list" where
  "mount_del mp ms = remove_first (\<lambda>me. me_mount_point me = mp) ms"

definition mount_find :: "string \<Rightarrow> bdfs_mount_entry list \<Rightarrow> bdfs_mount_entry option" where
  "mount_find mp ms = List.find (\<lambda>me. me_mount_point me = mp) ms"

definition bdfs_mount_track ::
  "sys_env \<Rightarrow> bdfs_mount_type \<Rightarrow> uuid option \<Rightarrow> u64 \<Rightarrow> string \<Rightarrow> unit dprog" where
  "bdfs_mount_track env type uuid image_id mount_point =
     do {
       me \<leftarrow> sys env Sc_calloc;
       if failed me then State_Monad.return ()
       else update_mounts (mount_add
              \<lparr>me_type = type,
               me_partition_uuid = (case uuid of None \<Rightarrow> zero_uuid | Some u \<Rightarrow> u),
               me_image_id = image_id,
               me_mount_point = strncpy (BDFS_PATH_MAX - 1) mount_point\<rparr>)
     }"

definition bdfs_mount_untrack :: "string \<Rightarrow> unit dprog" where
  "bdfs_mount_untrack mount_point = update_mounts (mount_del mount_point)"

definition bdfs_mount_count :: "dsys \<Rightarrow> nat" where
  "bdfs_mount_count s = length (sy_mounts s)"

section \<open>Start-up\<close>

definition default_str :: "string \<Rightarrow> string \<Rightarrow> string" where
  "default_str s dflt = (if s = [] then strncpy 255 dflt else s)"

definition apply_defaults :: "bdfs_daemon_config \<Rightarrow> bdfs_daemon_config" where
  "apply_defaults cfg =
     cfg\<lparr>cfg_ctl_device := default_str (cfg_ctl_device cfg) ''/dev/bdfs_ctl'',
         cfg_socket_path := default_str (cfg_socket_path cfg) ''/run/bdfs/daemon.sock'',
         cfg_state_dir := default_str (cfg_state_dir cfg) ''/var/lib/bdfs'',
         cfg_worker_threads := (if cfg_worker_threads cfg = 0 then 4 else cfg_worker_threads cfg),
         cfg_netlink_proto := (if cfg_netlink_proto cfg = 0 then 31 else cfg_netlink_proto cfg),
         cfg_mkdwarfs_bin := default_str (cfg_mkdwarfs_bin cfg) ''mkdwarfs'',
         cfg_dwarfs_bin := default_str (cfg_dwarfs_bin cfg) ''dwarfs'',
         cfg_dwarfsextract_bin := default_str (cfg_dwarfsextract_bin cfg) ''dwarfsextract'',
         cfg_dwarfsck_bin := default_str (cfg_dwarfsck_bin cfg) ''dwarfsck'',
         cfg_btrfs_bin := default_str (cfg_btrfs_bin cfg) ''btrfs''\<rparr>"

section \<open>The worker pool\<close>

text \<open>
  A worker waits for work, runs a job, or has left its loop.  \<open>pl_accepted\<close>, \<open>pl_started\<close>
  and \<open>pl_finished\<close> record the jobs enqueued, dequeued and completed, in order.
\<close>

datatype 'j worker = Idle | Running 'j | Exited_worker

record 'j pool =
  pl_queue :: "'j list"
  pl_shutdown :: bool
  pl_workers :: "'j worker list"
  pl_accepted :: "'j list"
  pl_started :: "'j list"
  pl_finished :: "'j list"

definition bdfs_daemon_enqueue :: "'j \<Rightarrow> 'j pool \<Rightarrow> 'j pool" where
  "bdfs_daemon_enqueue job d =
     d\<lparr>pl_queue := pl_queue d @ [job], pl_accepted := pl_accepted d @ [job]\<rparr>"

text \<open>
  The critical section of \<open>worker_thread\<close>: with work, take the first job; without, leave on
  shutdown, otherwise wait.
\<close>

definition worker_fetch :: "nat \<Rightarrow> 'j pool \<Rightarrow> 'j pool" where
  "worker_fetch i d =
     (case pl_queue d of
        [] \<Rightarrow> if pl_shutdown d then d\<lparr>pl_workers := (pl_workers d)[i := Exited_worker]\<rparr> else d
      | job # rest \<Rightarrow>
          d\<lparr>pl_queue := rest, pl_started := pl_started d @ [job],
            pl_workers := (pl_workers d)[i := Running job]\<rparr>)"

definition worker_done :: "nat \<Rightarrow> 'j \<Rightarrow> 'j pool \<Rightarrow> 'j pool" where
  "worker_done i job d =
     d\<lparr>pl_finished := pl_finished d @ [job], pl_workers := (pl_workers d)[i := Idle]\<rparr>"

inductive pool_step :: "'j pool \<Rightarrow> 'j pool \<Rightarrow> bool" where
  enqueue: "pool_step d (bdfs_daemon_enqueue job d)"
| fetch: "i < length (pl_workers d) \<Longrightarrow> pl_workers d ! i = Idle \<Longrightarrow> pool_step d (worker_fetch i d)"
| finish: "i < length (pl_workers d) \<Longrightarrow> pl_workers d ! i = Running job \<Longrightarrow>
    pool_step d (worker_done i job d)"
| shutdown: "pool_step d (d\<lparr>pl_shutdown := True\<rparr>)"

definition init_pool :: "nat \<Rightarrow> 'j pool" where
  "init_pool n = \<lparr>pl_queue = [], pl_shutdown = False, pl_workers = replicate n Idle,
     pl_accepted = [], pl_started = [], pl_finished = []\<rparr>"

text \<open>\<open>pthread_join\<close> on every worker has returned.\<close>

definition all_joined :: "'j pool \<Rightarrow> bool" where
  "all_joined d \<longleftrightarrow> (\<forall>w \<in> set (pl_workers d). w = Exited_worker)"

fun running_job :: "'j worker \<Rightarrow> 'j list" where
  "running_job (Running j) = [j]"
| "running_job _ = []"

definition running_jobs :: "'j pool \<Rightarrow> 'j list" where
  "running_jobs d = concat (map running_job (pl_workers d))"

text \<open>
  What every reachable pool satisfies: jobs leave the queue in the order they came, each
  started job is running or finished, once, and a worker has left only on shutdown.
\<close>

definition pool_inv :: "'j pool \<Rightarrow> bool" where
  "pool_inv d \<longleftrightarrow>
     pl_accepted d = pl_started d @ pl_queue d \<and>
     mset (pl_started d) = mset (pl_finished d) + mset (running_jobs d) \<and>
     (Exited_worker \<in> set (pl_workers d) \<longrightarrow> pl_shutdown d)"

text \<open>Steps in which nothing is enqueued once the shutdown flag is set.\<close>

inductive closed_step :: "'j pool \<Rightarrow> 'j pool \<Rightarrow> bool" where
  closed_step: "pool_step d d' \<Longrightarrow> (pl_shutdown d \<longrightarrow> pl_accepted d' = pl_accepted d) \<Longrightarrow> closed_step d d'"

text \<open>The steps of the workers, and how many are left after a shutdown.\<close>

inductive worker_step :: "'j pool \<Rightarrow> 'j pool \<Rightarrow> bool" where
  w_fetch: "i < length (pl_workers d) \<Longrightarrow> pl_workers d ! i = Idle \<Longrightarrow> worker_step d (worker_fetch i d)"
| w_finish: "i < length (pl_workers d) \<Longrightarrow> pl_workers d ! i = Running job \<Longrightarrow>
    worker_step d (worker_done i job d)"

fun worker_weight :: "'j worker \<Rightarrow> nat" where
  "worker_weight Idle = 1"
| "worker_weight (Running _) = 2"
| "worker_weight Exited_worker = 0"

definition pool_weight :: "'j pool \<Rightarrow> nat" where
  "pool_weight d = 3 * length (pl_queue d) + sum_list (map worker_weight (pl_workers d))"

text \<open>Once a worker has left, a closed pool has an empty queue.\<close>

definition drained :: "'j pool \<Rightarrow> bool" where
  "drained d \<longleftrightarrow> (Exited_worker \<in> set (pl_workers d) \<longrightarrow> pl_queue d = [])"

section \<open>Lemmas on the mount table\<close>

interpretation mount_table: keyed_store me_mount_point "\<lambda>ms. ms" mount_add mount_del mount_find
  by unfold_locales (simp_all add: mount_add_def mount_del_def mount_find_def)

section \<open>Lemmas on the worker pool\<close>

lemma running_update:
  assumes "i < length ws"
  shows "mset (concat (map running_job (ws[i := w]))) + mset (running_job (ws ! i)) =
         mset (concat (map running_job ws)) + mset (running_job w)"
  using assms
proof (induction ws arbitrary: i)
  case (Cons x ws)
  show ?case
  proof (cases i)
    case (Suc j)
    then show ?thesis using Cons.IH [of j] Cons.prems by (simp add: ac_simps)
  qed (simp add: ac_simps)
qed simp

lemma weight_update:
  assumes "i < length ws"
  shows "sum_list (map worker_weight (ws[i := w])) + worker_weight (ws ! i) =
         sum_list (map worker_weight ws) + worker_weight w"
  using assms
proof (induction ws arbitrary: i)
  case (Cons x ws)
  show ?case
  proof (cases i)
    case (Suc j)
    then show ?thesis using Cons.IH [of j] Cons.prems by simp
  qed simp
qed simp

lemma pool_inv_init: "pool_inv (init_pool n)"
  by (auto simp: pool_inv_def init_pool_def running_jobs_def)

lemma pool_inv_fetch:
  assumes "pool_inv d" and "i < length (pl_workers d)" and "pl_workers d ! i = Idle"
  shows "pool_inv (worker_fetch i d)"
  using assms running_update [OF assms(2)] set_update_subset_insert [of "pl_workers d" i]
  by (auto simp: pool_inv_def worker_fetch_def running_jobs_def ac_simps split: list.split)

lemma pool_inv_done:
  assumes "pool_inv d" and "i < length (pl_workers d)" and "pl_workers d ! i = Running job"
  shows "pool_inv (worker_done i job d)"
  using assms running_update [OF assms(2), of Idle] set_update_subset_insert [of "pl_workers d" i Idle]
  by (auto simp: pool_inv_def worker_done_def running_jobs_def ac_simps)

lemma pool_step_inv: "pool_step d d' \<Longrightarrow> pool_inv d \<Longrightarrow> pool_inv d'"
proof (induction rule: pool_step.induct)
  case (enqueue d job)
  then show ?case by (simp add: pool_inv_def bdfs_daemon_enqueue_def running_jobs_def)
next
  case (fetch i d)
  then show ?case by (simp add: pool_inv_fetch)
next
  case (finish i d job)
  then show ?case by (simp add: pool_inv_done)
next
  case (shutdown d)
  then show ?case by (simp add: pool_inv_def running_jobs_def)
qed

lemma pool_reachable_inv: "pool_step\<^sup>*\<^sup>* d d' \<Longrightarrow> pool_inv d \<Longrightarrow> pool_inv d'"
  by (induction rule: rtranclp_induct) (auto intro: pool_step_inv)

lemma joined_not_running: "all_joined d \<Longrightarrow> running_jobs d = []"
  by (auto simp: all_joined_def running_jobs_def)

lemma exited_update:
  "i < length ws \<Longrightarrow> ws ! i \<noteq> Exited_worker \<Longrightarrow> w \<noteq> Exited_worker \<Longrightarrow>
   Exited_worker \<in> set (ws[i := w]) \<longleftrightarrow> Exited_worker \<in> set ws"
  by (metis in_set_conv_nth length_list_update nth_list_update_eq nth_list_update_neq)

lemma drained_step:
  assumes "closed_step d d'" and "pool_inv d" and "drained d"
  shows "drained d'"
  using assms
proof (cases rule: closed_step.cases)
  case closed_step
  from closed_step(1) show ?thesis
  proof (cases rule: pool_step.cases)
    case (enqueue job)
    then show ?thesis
      using closed_step(2) assms(2,3) by (auto simp: drained_def pool_inv_def bdfs_daemon_enqueue_def)
  next
    case (fetch i)
    then show ?thesis
      using assms(3) exited_update [of i "pl_workers d"]
      by (auto simp: drained_def worker_fetch_def split: list.splits)
  next
    case (finish i job)
    then show ?thesis
      using assms(3) exited_update [of i "pl_workers d" Idle] by (auto simp: drained_def worker_done_def)
  next
    case shutdown
    then show ?thesis using assms(3) by (simp add: drained_def)
  qed
qed

lemma closed_reachable:
  "closed_step\<^sup>*\<^sup>* d d' \<Longrightarrow> pool_inv d \<Longrightarrow> drained d \<Longrightarrow> pool_inv d' \<and> drained d'"
proof (induction rule: rtranclp_induct)
  case (step d' d'')
  then have "pool_step d' d''" by (auto elim: closed_step.cases)
  then show ?case using step pool_step_inv [of d' d''] drained_step [of d' d''] by blast
qed simp

lemma worker_step_weight:
  assumes "worker_step d d'" and "pl_shutdown d"
  shows "pool_weight d' < pool_weight d \<and> pl_shutdown d'"
  using assms
proof (cases rule: worker_step.cases)
  case (w_fetch i)
  then show ?thesis
    using weight_update [OF w_fetch(2), of Exited_worker] weight_update [OF w_fetch(2), of "Running (hd (pl_queue d))"] assms(2)
    by (auto simp: pool_weight_def worker_fetch_def split: list.split)
next
  case (w_finish i job)
  then show ?thesis
    using weight_update [OF w_finish(2), of Idle] assms(2) by (auto simp: pool_weight_def worker_done_def)
qed

lemma worker_progress: "\<not> all_joined d \<Longrightarrow> \<exists>d'. worker_step d d'"
proof -
  assume "\<not> all_joined d"
  then obtain i where i: "i < length (pl_workers d)" "pl_workers d ! i \<noteq> Exited_worker"
    by (auto simp: all_joined_def in_set_conv_nth)
  then show ?thesis by (cases "pl_workers d ! i") (auto intro: worker_step.intros)
qed

lemma pool_step_workers: "pool_step d d' \<Longrightarrow> length (pl_workers d') = length (pl_workers d)"
  by (induction rule: pool_step.induct)
     (auto simp: bdfs_daemon_enqueue_def worker_fetch_def worker_done_def split: list.split)

lemma pool_reachable_workers: "pool_step\<^sup>*\<^sup>* d d' \<Longrightarrow> length (pl_workers d') = length (pl_workers d)"
  by (induction rule: rtranclp_induct) (auto dest: pool_step_workers)

lemma closed_pool_step: "closed_step\<^sup>*\<^sup>* d d' \<Longrightarrow> pool_step\<^sup>*\<^sup>* d d'"
  by (rule rtranclp_mono [THEN predicate2D]) (auto elim: closed_step.cases)

lemma worker_steps_bound:
  "(worker_step ^^ n) d d' \<Longrightarrow> pl_shutdown d \<Longrightarrow> n + pool_weight d' \<le> pool_weight d \<and> pl_shutdown d'"
proof (induction n arbitrary: d')
  case (Suc n)
  then obtain e where "(worker_step ^^ n) d e" "worker_step e d'" by auto
  then show ?case using Suc worker_step_weight [of e d'] by fastforce
qed simp

lemma workers_finish:
  assumes "pl_shutdown d"
  shows "\<exists>d'. worker_step\<^sup>*\<^sup>* d d' \<and> all_joined d'"
  using assms
proof (induction "pool_weight d" arbitrary: d rule: less_induct)
  case less
  show ?case
  proof (cases "all_joined d")
    case False
    then obtain e where e: "worker_step d e" using worker_progress by blast
    then obtain d' where "worker_step\<^sup>*\<^sup>* e d'" "all_joined d'"
      using less worker_step_weight [OF e less.prems] by blast
    then show ?thesis using e by (meson converse_rtranclp_into_rtranclp)
  qed blast
qed

text \<open>After the workers have been joined, nothing is dequeued any more.\<close>

lemma joined_step:
  assumes "pool_step d d'" "all_joined d"
  shows "all_joined d' \<and> pl_started d' = pl_started d \<and> (\<exists>js. pl_queue d' = pl_queue d @ js)"
  using assms(1)
proof (cases rule: pool_step.cases)
  case (fetch i)
  then have "pl_workers d ! i \<in> set (pl_workers d)" by (intro nth_mem)
  then show ?thesis using assms(2) fetch by (auto simp: all_joined_def)
next
  case (finish i job)
  then have "pl_workers d ! i \<in> set (pl_workers d)" by (intro nth_mem)
  then show ?thesis using assms(2) finish by (auto simp: all_joined_def)
qed (use assms(2) in \<open>auto simp: all_joined_def bdfs_daemon_enqueue_def\<close>)

lemma joined_steps:
  "pool_step\<^sup>*\<^sup>* d d' \<Longrightarrow> all_joined d \<Longrightarrow>
   all_joined d' \<and> pl_started d' = pl_started d \<and> (\<exists>js. pl_queue d' = pl_queue d @ js)"
  by (induction rule: rtranclp_induct) (auto dest!: joined_step)

end
