(* ===== verification/Bdfs_Jobs.thy ===== *)
theory Bdfs_Jobs
  imports Bdfs_Daemon
begin

text \<open>
  The job handlers (\<open>bdfs_jobs.c\<close>).  A handler returns 0 or a negative errno.  The two
  handlers with copy loops take a number of iterations (\<open>fuel\<close>) and return \<open>None\<close> when the
  loop is still running after them.
\<close>

abbreviation ret :: "'a \<Rightarrow> 'a dprog" where
  "ret \<equiv> State_Monad.return"

definition neg_errno :: "int dprog" where
  "neg_errno = do { e \<leftarrow> get_errno; ret (- e) }"

text \<open>\<open>mkdir(path) < 0 && errno != EEXIST\<close>\<close>

definition mkdir_fails :: "sys_ans \<Rightarrow> bool" where
  "mkdir_fails a \<longleftrightarrow> failed a \<and> \<not> fails_with a EEXIST"

section \<open>Export\<close>

definition snap_path :: "export_job \<Rightarrow> string" where
  "snap_path j = snprintf BDFS_PATH_MAX (xj_btrfs_mount j @ ''/.bdfs_snap_'' @ dec (unat (xj_subvol_id j)))"

definition extract_dir :: "bdfs_daemon_config \<Rightarrow> export_job \<Rightarrow> string" where
  "extract_dir cfg j =
     snprintf BDFS_PATH_MAX (cfg_state_dir cfg @ ''/.bdfs_extract_'' @ dec (unat (xj_subvol_id j)))"

definition tmp_image :: "bdfs_daemon_config \<Rightarrow> export_job \<Rightarrow> string" where
  "tmp_image cfg j = snprintf BDFS_PATH_MAX (cfg_state_dir cfg @ ''/'' @ xj_image_name j @ ''.dwarfs.tmp'')"

definition export_parent :: "export_job \<Rightarrow> string option" where
  "export_parent j =
     (if and (xj_flags j) BDFS_EXPORT_INCREMENTAL \<noteq> 0 \<and> xj_parent_snap_path j \<noteq> []
      then Some (xj_parent_snap_path j) else None)"

text \<open>The \<open>cleanup\<close> label: the snapshot, the extracted tree, and a left-over image.\<close>

definition export_cleanup :: "sys_env \<Rightarrow> bdfs_daemon_config \<Rightarrow> export_job \<Rightarrow> int \<Rightarrow> int dprog" where
  "export_cleanup env cfg j r =
     do {
       bdfs_exec_btrfs_subvol_delete env cfg (snap_path j);
       sys env (Sc_system (snprintf (BDFS_PATH_MAX + 8) (''rm -rf '' @ extract_dir cfg j)));
       if r \<noteq> 0 then do {
         a \<leftarrow> sys env (Sc_access (tmp_image cfg j));
         if \<not> failed a then do { sys env (Sc_unlink (tmp_image cfg j)); ret r } else ret r
       } else ret r
     }"

text \<open>Steps 3 to 5: image, rename, deletion of the source on request, cleanup.\<close>

definition export_image_steps :: "sys_env \<Rightarrow> bdfs_daemon_config \<Rightarrow> export_job \<Rightarrow> int dprog" where
  "export_image_steps env cfg j =
     do {
       r \<leftarrow> bdfs_exec_mkdwarfs env cfg (extract_dir cfg j) (tmp_image cfg j) (xj_compression j)
              (xj_block_size_bits j) (sint (xj_worker_threads j));
       if r \<noteq> 0 then export_cleanup env cfg j r
       else do {
         a \<leftarrow> sys env (Sc_rename (tmp_image cfg j) (xj_image_path j));
         if failed a then do { e \<leftarrow> neg_errno; export_cleanup env cfg j e }
         else if and (xj_flags j) BDFS_DEMOTE_DELETE_SUBVOL \<noteq> 0 then do {
           bdfs_exec_btrfs_subvol_delete env cfg (xj_btrfs_mount j);
           export_cleanup env cfg j 0
         }
         else export_cleanup env cfg j 0
       }
     }"

definition bdfs_job_export_to_dwarfs :: "sys_env \<Rightarrow> bdfs_daemon_config \<Rightarrow> export_job \<Rightarrow> int dprog" where
  "bdfs_job_export_to_dwarfs env cfg j =
     do {
       r \<leftarrow> bdfs_exec_btrfs_snapshot env cfg (xj_btrfs_mount j) (snap_path j) True;
       if r \<noteq> 0 then ret r
       else do {
         a \<leftarrow> sys env (Sc_mkdir (extract_dir cfg j));
         if mkdir_fails a then do {
           bdfs_exec_btrfs_subvol_delete env cfg (snap_path j);
           neg_errno
         }
         else do {
           send \<leftarrow> bdfs_exec_btrfs_send_incremental env cfg (snap_path j) (export_parent j);
           (case send of
              Inl e \<Rightarrow> do { bdfs_exec_btrfs_subvol_delete env cfg (snap_path j); ret e }
            | Inr (send_pid, pipe_fd) \<Rightarrow> do {
                r2 \<leftarrow> bdfs_exec_btrfs_receive env cfg (extract_dir cfg j);
                sys env (Sc_close pipe_fd);
                sys env (Sc_waitpid send_pid);
                if r2 \<noteq> 0 then do { bdfs_exec_btrfs_subvol_delete env cfg (snap_path j); ret r2 }
                else export_image_steps env cfg j
              })
         }
       }
     }"

section \<open>Import\<close>

definition import_subvol_path :: "import_job \<Rightarrow> string" where
  "import_subvol_path j = snprintf BDFS_PATH_MAX (ij_btrfs_mount j @ ''/'' @ ij_subvol_name j)"

definition set_ro_argv :: "bdfs_daemon_config \<Rightarrow> string \<Rightarrow> string list" where
  "set_ro_argv cfg path =
     [cfg_btrfs_bin cfg, ''property'', ''set'', ''-ts'', path, ''ro'', ''true'']"

definition bdfs_job_import_from_dwarfs :: "sys_env \<Rightarrow> bdfs_daemon_config \<Rightarrow> import_job \<Rightarrow> int dprog" where
  "bdfs_job_import_from_dwarfs env cfg j =
     do {
       r \<leftarrow> bdfs_exec_btrfs_subvol_create env cfg (import_subvol_path j);
       if r \<noteq> 0 then ret r
       else do {
         r2 \<leftarrow> bdfs_exec_dwarfsextract env cfg (ij_image_path j) (import_subvol_path j);
         if r2 \<noteq> 0 then do { bdfs_exec_btrfs_subvol_delete env cfg (import_subvol_path j); ret r2 }
         else if and (ij_flags j) BDFS_IMPORT_READONLY \<noteq> 0 then do {
           r3 \<leftarrow> bdfs_exec_wait env (set_ro_argv cfg (import_subvol_path j));
           if r3 \<noteq> 0 then do { bdfs_exec_btrfs_subvol_delete env cfg (import_subvol_path j); ret r3 }
           else ret 0
         }
         else ret 0
       }
     }"

section \<open>Mounts\<close>

definition bdfs_job_mount_dwarfs ::
  "sys_env \<Rightarrow> bdfs_daemon_config \<Rightarrow> uuid \<Rightarrow> u64 \<Rightarrow> mount_job \<Rightarrow> int dprog" where
  "bdfs_job_mount_dwarfs env cfg uuid object_id j =
     do {
       a \<leftarrow> sys env (Sc_mkdir (mj_mount_point j));
       if mkdir_fails a then neg_errno
       else do {
         r \<leftarrow> bdfs_exec_dwarfs_mount env cfg (mj_image_path j) (mj_mount_point j) (mj_cache_size_mb j);
         if r = 0 then do {
           bdfs_mount_track env BDFS_MNT_DWARFS (Some uuid) object_id (mj_mount_point j);
           ret r
         }
         else ret r
       }
     }"

definition bdfs_job_umount_dwarfs :: "sys_env \<Rightarrow> umount_job \<Rightarrow> int dprog" where
  "bdfs_job_umount_dwarfs env j =
     do {
       r \<leftarrow> bdfs_exec_dwarfs_umount env (uj_mount_point j);
       if r = 0 then do { bdfs_mount_untrack (uj_mount_point j); ret r } else ret r
     }"

definition bdfs_job_snapshot_container ::
  "sys_env \<Rightarrow> bdfs_daemon_config \<Rightarrow> snapshot_job \<Rightarrow> int dprog" where
  "bdfs_job_snapshot_container env cfg j =
     bdfs_exec_btrfs_snapshot env cfg (nj_subvol_path j) (nj_snapshot_path j)
       (and (nj_flags j) BDFS_SNAP_READONLY \<noteq> 0)"

definition bdfs_job_umount_blend :: "sys_env \<Rightarrow> blend_job \<Rightarrow> int dprog" where
  "bdfs_job_umount_blend env j =
     do {
       a \<leftarrow> sys env (Sc_umount (bj_blend_mount j));
       if failed a then neg_errno
       else do { bdfs_mount_untrack (bj_blend_mount j); ret 0 }
     }"

definition blend_opts :: "blend_job \<Rightarrow> string" where
  "blend_opts j = snprintf 512 (''btrfs='' @ bj_btrfs_mount j @ '',dwarfs='' @ bj_dwarfs_mount j)"

definition bdfs_job_mount_blend :: "sys_env \<Rightarrow> uuid \<Rightarrow> blend_job \<Rightarrow> int dprog" where
  "bdfs_job_mount_blend env uuid j =
     do {
       a \<leftarrow> sys env (Sc_mkdir (bj_blend_mount j));
       if mkdir_fails a then neg_errno
       else do {
         b \<leftarrow> sys env (Sc_mount (bj_blend_mount j) (blend_opts j));
         if failed b then neg_errno
         else do {
           bdfs_mount_track env BDFS_MNT_BLEND (Some uuid) 0 (bj_blend_mount j);
           ret 0
         }
       }
     }"

section \<open>Store\<close>

text \<open>
  The copy loop of the store job from \<open>offset\<close>; \<open>Some r\<close> is how it ends.
\<close>

fun store_copy :: "sys_env \<Rightarrow> nat \<Rightarrow> nat \<Rightarrow> nat \<Rightarrow> nat \<Rightarrow> nat \<Rightarrow> int option dprog" where
  "store_copy env 0 src dst sz offset = ret (if offset < sz then None else Some 0)"
| "store_copy env (Suc fuel) src dst sz offset =
     (if offset < sz then do {
        a \<leftarrow> sys env (Sc_copy_file_range src offset dst (sz - offset));
        if failed a then
          (if fails_with a EXDEV \<or> fails_with a EOPNOTSUPP then do {
             b \<leftarrow> sys env (Sc_sendfile dst src offset (sz - offset));
             if failed b then do { e \<leftarrow> neg_errno; ret (Some e) }
             else store_copy env fuel src dst sz (offset + ans_val b)
           }
           else do { e \<leftarrow> neg_errno; ret (Some e) })
        else store_copy env fuel src dst sz (offset + ans_val a)
      }
      else ret (Some 0))"

definition bdfs_job_store_image :: "sys_env \<Rightarrow> nat \<Rightarrow> store_job \<Rightarrow> int option dprog" where
  "bdfs_job_store_image env fuel j =
     do {
       s \<leftarrow> sys env (Sc_open_rd (sj_source_path j));
       if failed s then do { e \<leftarrow> neg_errno; ret (Some e) }
       else do {
         st \<leftarrow> sys env (Sc_fstat (ans_val s));
         if failed st then do { e \<leftarrow> neg_errno; sys env (Sc_close (ans_val s)); ret (Some e) }
         else do {
           d \<leftarrow> sys env (Sc_open_excl (sj_dest_path j) 0x1A4);
           if failed d then do { e \<leftarrow> neg_errno; sys env (Sc_close (ans_val s)); ret (Some e) }
           else do {
             r \<leftarrow> store_copy env fuel (ans_val s) (ans_val d) (st_size (ans_stat st)) 0;
             (case r of
                None \<Rightarrow> ret None
              | Some rv \<Rightarrow> do {
                  sys env (Sc_close (ans_val s));
                  sys env (Sc_close (ans_val d));
                  if rv \<noteq> 0 then do { sys env (Sc_unlink (sj_dest_path j)); ret (Some rv) }
                  else ret (Some rv)
                })
           }
         }
       }
     }"

section \<open>Copy-up\<close>

text \<open>
  The directories above the file: every prefix of the path that ends before a slash, from
  the root down, then the parent itself.  The first slash of the path is skipped.
\<close>

fun slash_prefixes :: "string \<Rightarrow> string \<Rightarrow> string list" where
  "slash_prefixes acc [] = []"
| "slash_prefixes acc (c # cs) =
     (if c = CHR ''/'' then acc # slash_prefixes (acc @ [c]) cs else slash_prefixes (acc @ [c]) cs)"

definition parent_dirs :: "string \<Rightarrow> string list" where
  "parent_dirs dst =
     (let path = snprintf BDFS_PATH_MAX dst in
      case strrchr_index path (CHR ''/'') of
        None \<Rightarrow> []
      | Some k \<Rightarrow>
          if k = 0 then []
          else let parent = take k path
               in slash_prefixes (take 1 parent) (drop 1 parent) @ [parent])"

fun make_dirs :: "sys_env \<Rightarrow> string list \<Rightarrow> int option dprog" where
  "make_dirs env [] = ret None"
| "make_dirs env (d # ds) =
     do {
       a \<leftarrow> sys env (Sc_mkdir d);
       if mkdir_fails a then do { e \<leftarrow> neg_errno; ret (Some e) } else make_dirs env ds
     }"

text \<open>
  The fallback: read and write until the end of the file.  A short write gives \<open>-errno\<close>
  whatever \<open>errno\<close> holds.
\<close>

fun rw_loop :: "sys_env \<Rightarrow> nat \<Rightarrow> nat \<Rightarrow> nat \<Rightarrow> (int \<times> bool) option dprog" where
  "rw_loop env 0 src dst = ret None"
| "rw_loop env (Suc fuel) src dst =
     do {
       a \<leftarrow> sys env (Sc_read src 65536);
       if failed a then do { e \<leftarrow> neg_errno; ret (Some (e, False)) }
       else if ans_data a = [] then ret (Some (0, False))
       else do {
         w \<leftarrow> sys env (Sc_write dst (ans_data a));
         if failed w \<or> ans_val w \<noteq> length (ans_data a)
         then do { e \<leftarrow> neg_errno; ret (Some (e, True)) }
         else rw_loop env fuel src dst
       }
     }"

text \<open>
  The copy loop: the return code, and whether the code jumps to \<open>out\<close> past the attribute
  calls.
\<close>

fun copyup_copy :: "sys_env \<Rightarrow> nat \<Rightarrow> nat \<Rightarrow> nat \<Rightarrow> nat \<Rightarrow> nat \<Rightarrow> (int \<times> bool) option dprog" where
  "copyup_copy env 0 src dst sz offset = ret (if offset < sz then None else Some (0, False))"
| "copyup_copy env (Suc fuel) src dst sz offset =
     (if offset < sz then do {
        a \<leftarrow> sys env (Sc_copy_file_range src offset dst (sz - offset));
        if failed a then
          (if fails_with a EXDEV \<or> fails_with a EOPNOTSUPP then rw_loop env fuel src dst
           else do { e \<leftarrow> neg_errno; ret (Some (e, True)) })
        else copyup_copy env fuel src dst sz (offset + ans_val a)
      }
      else ret (Some (0, False)))"

definition copyup_complete_arg :: "copyup_job \<Rightarrow> bdfs_ioctl_copyup_complete" where
  "copyup_complete_arg j =
     \<lparr>cc_btrfs_uuid = pj_btrfs_uuid j, cc_inode_no = pj_inode_no j,
      cc_upper_path = snprintf BDFS_PATH_MAX (pj_upper_path j)\<rparr>"

text \<open>From the \<open>out\<close> label on; \<open>dst\<close> is the descriptor of the file created, if any.\<close>

definition copyup_out :: "sys_env \<Rightarrow> copyup_job \<Rightarrow> nat \<Rightarrow> nat option \<Rightarrow> int \<Rightarrow> int option dprog" where
  "copyup_out env j src dst r =
     do {
       sys env (Sc_close src);
       (case dst of
          None \<Rightarrow> ret ()
        | Some fd \<Rightarrow> do {
            sys env (Sc_close fd);
            if r \<noteq> 0 then do { sys env (Sc_unlink (pj_upper_path j)); ret () } else ret ()
          });
       if r = 0 then do { sys env (Sc_copyup_complete (copyup_complete_arg j)); ret (Some r) }
       else ret (Some r)
     }"

definition copyup_copy_steps ::
  "sys_env \<Rightarrow> nat \<Rightarrow> copyup_job \<Rightarrow> nat \<Rightarrow> fstat \<Rightarrow> nat \<Rightarrow> int option dprog" where
  "copyup_copy_steps env fuel j src st dst =
     do {
       c \<leftarrow> copyup_copy env fuel src dst (st_size st) 0;
       (case c of
          None \<Rightarrow> ret None
        | Some (r, jump) \<Rightarrow>
            if jump then copyup_out env j src (Some dst) r
            else do {
              sys env (Sc_fchown dst (st_uid st) (st_gid st));
              sys env (Sc_futimens dst);
              copyup_out env j src (Some dst) r
            })
     }"

definition bdfs_job_promote_copyup :: "sys_env \<Rightarrow> nat \<Rightarrow> copyup_job \<Rightarrow> int option dprog" where
  "bdfs_job_promote_copyup env fuel j =
     do {
       m \<leftarrow> make_dirs env (parent_dirs (pj_upper_path j));
       (case m of
          Some e \<Rightarrow> ret (Some e)
        | None \<Rightarrow> do {
            s \<leftarrow> sys env (Sc_open_rd (pj_lower_path j));
            if failed s then do { e \<leftarrow> neg_errno; ret (Some e) }
            else do {
              st \<leftarrow> sys env (Sc_fstat (ans_val s));
              if failed st then do { e \<leftarrow> neg_errno; copyup_out env j (ans_val s) None e }
              else do {
                d \<leftarrow> sys env (Sc_open_excl (pj_upper_path j) (and (st_mode (ans_stat st)) 0x1FF));
                if failed d then
                  (if fails_with d EEXIST then copyup_out env j (ans_val s) None 0
                   else do { e \<leftarrow> neg_errno; copyup_out env j (ans_val s) None e })
                else copyup_copy_steps env fuel j (ans_val s) (ans_stat st) (ans_val d)
              }
            }
          })
     }"

section \<open>Dispatch\<close>

text \<open>The switch of \<open>worker_thread\<close>; jobs without loops always return.\<close>

definition run_job :: "sys_env \<Rightarrow> bdfs_daemon_config \<Rightarrow> nat \<Rightarrow> bdfs_job \<Rightarrow> int option dprog" where
  "run_job env cfg fuel job =
     (case job_body job of
        BDFS_JOB_EXPORT_TO_DWARFS j \<Rightarrow> do { r \<leftarrow> bdfs_job_export_to_dwarfs env cfg j; ret (Some r) }
      | BDFS_JOB_IMPORT_FROM_DWARFS j \<Rightarrow> do { r \<leftarrow> bdfs_job_import_from_dwarfs env cfg j; ret (Some r) }
      | BDFS_JOB_MOUNT_DWARFS j \<Rightarrow>
          do { r \<leftarrow> bdfs_job_mount_dwarfs env cfg (job_partition_uuid job) (job_object_id job) j; ret (Some r) }
      | BDFS_JOB_UMOUNT_DWARFS j \<Rightarrow> do { r \<leftarrow> bdfs_job_umount_dwarfs env j; ret (Some r) }
      | BDFS_JOB_STORE_IMAGE j \<Rightarrow> bdfs_job_store_image env fuel j
      | BDFS_JOB_SNAPSHOT_CONTAINER j \<Rightarrow> do { r \<leftarrow> bdfs_job_snapshot_container env cfg j; ret (Some r) }
      | BDFS_JOB_MOUNT_BLEND j \<Rightarrow> do { r \<leftarrow> bdfs_job_mount_blend env (job_partition_uuid job) j; ret (Some r) }
      | BDFS_JOB_UMOUNT_BLEND j \<Rightarrow> do { r \<leftarrow> bdfs_job_umount_blend env j; ret (Some r) }
      | BDFS_JOB_PROMOTE_COPYUP j \<Rightarrow> bdfs_job_promote_copyup env fuel j)"

section \<open>Describing runs\<close>

text \<open>No call satisfies \<open>Q\<close> before one satisfies \<open>P\<close>.\<close>

fun guarded_by :: "('e \<Rightarrow> bool) \<Rightarrow> ('e \<Rightarrow> bool) \<Rightarrow> 'e list \<Rightarrow> bool" where
  "guarded_by P Q [] = True"
| "guarded_by P Q (e # es) = (P e \<or> (\<not> Q e \<and> guarded_by P Q es))"

definition called :: "history \<Rightarrow> sys_call \<Rightarrow> bool" where
  "called h c \<longleftrightarrow> c \<in> fst ` set h"

fun is_copy_call :: "sys_call \<Rightarrow> bool" where
  "is_copy_call (Sc_copy_file_range _ _ _ _) = True"
| "is_copy_call (Sc_sendfile _ _ _ _) = True"
| "is_copy_call (Sc_read _ _) = True"
| "is_copy_call (Sc_write _ _) = True"
| "is_copy_call _ = False"

fun is_mkdir_call :: "sys_call \<Rightarrow> bool" where
  "is_mkdir_call (Sc_mkdir _) = True"
| "is_mkdir_call _ = False"

text \<open>A part of the run that makes calls satisfying \<open>P\<close> only.\<close>

definition ran :: "(sys_call \<Rightarrow> bool) \<Rightarrow> dsys \<Rightarrow> dsys \<Rightarrow> bool" where
  "ran P s s' \<longleftrightarrow>
     sy_trace s' = sy_trace s @ new_calls s s' \<and> (\<forall>e \<in> set (new_calls s s'). P (fst e)) \<and>
     sy_mounts s' = sy_mounts s \<and> (0 < sy_errno s \<longrightarrow> 0 < sy_errno s')"

text \<open>
  The offset after a run of copy calls that start at \<open>off\<close>, each where the one before it
  stopped; \<open>None\<close> when a call leaves a gap or overlaps.
\<close>

fun copy_chain :: "nat \<Rightarrow> nat \<Rightarrow> nat \<Rightarrow> history \<Rightarrow> nat option" where
  "copy_chain src dst off [] = Some off"
| "copy_chain src dst off ((c, a) # evs) =
     (case c of
        Sc_copy_file_range s o' d n \<Rightarrow>
          if s = src \<and> o' = off \<and> d = dst
          then copy_chain src dst (if failed a then off else off + ans_val a) evs else None
      | Sc_sendfile d s o' n \<Rightarrow>
          if s = src \<and> o' = off \<and> d = dst
          then copy_chain src dst (if failed a then off else off + ans_val a) evs else None
      | _ \<Rightarrow> None)"

text \<open>What the store loop leaves: a chain of copies that covers the file when it succeeds.\<close>

definition store_post :: "nat \<Rightarrow> nat \<Rightarrow> nat \<Rightarrow> nat \<Rightarrow> int option \<Rightarrow> dsys \<Rightarrow> dsys \<Rightarrow> bool" where
  "store_post src dst sz off r s s' \<longleftrightarrow>
     ran is_copy_call s s' \<and> (\<forall>rv. r = Some rv \<longrightarrow> rv \<le> 0) \<and>
     (r = Some 0 \<longrightarrow> (\<exists>n \<ge> sz. copy_chain src dst off (new_calls s s') = Some n))"

text \<open>
  What the loops need to end: an in-kernel copy of at least a byte that does not fail copies something, a file
  is no longer than \<open>N\<close> bytes, and after \<open>k\<close> reads a read finds the end of the file.
\<close>

fun is_range_copy :: "sys_call \<Rightarrow> bool" where
  "is_range_copy (Sc_copy_file_range _ _ _ n) = (0 < n)"
| "is_range_copy (Sc_sendfile _ _ _ n) = (0 < n)"
| "is_range_copy _ = False"

fun is_read_call :: "sys_call \<Rightarrow> bool" where
  "is_read_call (Sc_read _ _) = True"
| "is_read_call _ = False"

definition reads_made :: "history \<Rightarrow> nat" where
  "reads_made h = length (filter (\<lambda>e. is_read_call (fst e)) h)"

definition copies_progress :: "sys_env \<Rightarrow> bool" where
  "copies_progress env \<longleftrightarrow>
     (\<forall>h c. is_range_copy c \<longrightarrow> failed (env h c) \<or> 0 < ans_val (env h c))"

definition files_bounded :: "sys_env \<Rightarrow> nat \<Rightarrow> bool" where
  "files_bounded env N \<longleftrightarrow> (\<forall>h fd. st_size (ans_stat (env h (Sc_fstat fd))) \<le> N)"

definition reads_end :: "sys_env \<Rightarrow> nat \<Rightarrow> bool" where
  "reads_end env k \<longleftrightarrow>
     (\<forall>h src n. k \<le> reads_made h \<longrightarrow> failed (env h (Sc_read src n)) \<or> ans_data (env h (Sc_read src n)) = [])"

fun data_read :: "history \<Rightarrow> string" where
  "data_read [] = []"
| "data_read ((Sc_read _ _, a) # evs) = ans_data a @ data_read evs"
| "data_read (_ # evs) = data_read evs"

fun data_written :: "history \<Rightarrow> string" where
  "data_written [] = []"
| "data_written ((Sc_write _ d, a) # evs) = take (ans_val a) d @ data_written evs"
| "data_written (_ # evs) = data_written evs"

text \<open>What the fallback leaves: all the data read up to the end of the file was written.\<close>

definition rw_post :: "(int \<times> bool) option \<Rightarrow> dsys \<Rightarrow> dsys \<Rightarrow> bool" where
  "rw_post r s s' \<longleftrightarrow>
     ran is_copy_call s s' \<and>
     (\<forall>rv jump. r = Some (rv, jump) \<longrightarrow> rv \<le> 0 \<and> (rv = 0 \<longrightarrow> \<not> jump \<and>
        new_calls s s' \<noteq> [] \<and> ans_data (snd (last (new_calls s s'))) = [] \<and>
        \<not> failed (snd (last (new_calls s s'))) \<and> data_written (new_calls s s') = data_read (new_calls s s')))"

text \<open>
  The destination holds the file: contiguous in-kernel copies cover it, or the fallback
  wrote all it read up to the end of the file.
\<close>

definition rw_done :: "history \<Rightarrow> bool" where
  "rw_done q \<longleftrightarrow> q \<noteq> [] \<and> ans_data (snd (last q)) = [] \<and> \<not> failed (snd (last q)) \<and>
     data_written q = data_read q"

definition copied_all :: "nat \<Rightarrow> nat \<Rightarrow> nat \<Rightarrow> nat \<Rightarrow> history \<Rightarrow> bool" where
  "copied_all src dst sz off evs \<longleftrightarrow>
     (\<exists>p q n. evs = p @ q \<and> copy_chain src dst off p = Some n \<and> (q = [] \<and> sz \<le> n \<or> rw_done q))"

definition copyup_post :: "nat \<Rightarrow> nat \<Rightarrow> nat \<Rightarrow> nat \<Rightarrow> (int \<times> bool) option \<Rightarrow> dsys \<Rightarrow> dsys \<Rightarrow> bool" where
  "copyup_post src dst sz off r s s' \<longleftrightarrow>
     ran is_copy_call s s' \<and>
     (\<forall>rv jump. r = Some (rv, jump) \<longrightarrow> rv \<le> 0 \<and>
        (rv = 0 \<longrightarrow> \<not> jump \<and> copied_all src dst sz off (new_calls s s')))"

text \<open>
  The calls of a copy-up that succeeded: the parents, the two opens, then either the file
  was there already or it was copied.
\<close>

definition copyup_run :: "copyup_job \<Rightarrow> history \<Rightarrow> bool" where
  "copyup_run j calls \<longleftrightarrow>
     (\<exists>pre a b d evs post.
        calls = pre @ (Sc_open_rd (pj_lower_path j), a) # (Sc_fstat (ans_val a), b) #
          (Sc_open_excl (pj_upper_path j) (and (st_mode (ans_stat b)) 0x1FF), d) # evs @ post \<and>
        map fst pre = map Sc_mkdir (parent_dirs (pj_upper_path j)) \<and> \<not> failed a \<and> \<not> failed b \<and>
        (fails_with d EEXIST \<or>
         \<not> failed d \<and> copied_all (ans_val a) (ans_val d) (st_size (ans_stat b)) 0 evs))"

section \<open>Rules for the handlers\<close>

lemma neg_errno_wpI [wp_rules]: "Q (- sy_errno s) s \<Longrightarrow> wp neg_errno Q s"
  unfolding neg_errno_def by (intro wp_rules)

lemma argv_simps [simp]:
  "delete_argv cfg p = delete_argv cfg q \<longleftrightarrow> p = q"
  "delete_argv cfg p \<noteq> snapshot_argv cfg x y b"
  "snapshot_argv cfg x y b \<noteq> delete_argv cfg p"
  "delete_argv cfg p \<noteq> mkdwarfs_argv cfg a1 a2 a3 a4 a5"
  "mkdwarfs_argv cfg a1 a2 a3 a4 a5 \<noteq> delete_argv cfg p"
  "delete_argv cfg p \<noteq> create_argv cfg q"
  "create_argv cfg q \<noteq> delete_argv cfg p"
  "delete_argv cfg p \<noteq> set_ro_argv cfg q"
  "set_ro_argv cfg q \<noteq> delete_argv cfg p"
  "delete_argv cfg p \<noteq> [cfg_dwarfsextract_bin cfg, ''-i'', y1, ''-o'', y2]"
  "[cfg_dwarfsextract_bin cfg, ''-i'', y1, ''-o'', y2] \<noteq> delete_argv cfg p"
  by (auto simp: delete_argv_def snapshot_argv_def mkdwarfs_argv_def create_argv_def set_ro_argv_def)

lemmas export_defs =
  bdfs_job_export_to_dwarfs_def exec_defs export_image_steps_def export_cleanup_def
  bdfs_exec_btrfs_send_incremental_def

section \<open>Export\<close>

lemma snap_path_differs: "length (xj_btrfs_mount j) < BDFS_PATH_MAX - 1 \<Longrightarrow> snap_path j \<noteq> xj_btrfs_mount j"
proof
  assume len: "length (xj_btrfs_mount j) < BDFS_PATH_MAX - 1" and eq: "snap_path j = xj_btrfs_mount j"
  have "length (snap_path j) =
      min (BDFS_PATH_MAX - 1) (length (xj_btrfs_mount j) + 12 + length (dec (unat (xj_subvol_id j))))"
    by (simp add: snap_path_def snprintf_def)
  then show False using len eq by (simp add: min_def split: if_splits)
qed

lemma export_snapshot_wp:
  "wp (bdfs_job_export_to_dwarfs env cfg j)
     (\<lambda>r s'. \<exists>a. new_calls s s' \<noteq> [] \<and>
        hd (new_calls s s') = (Sc_exec (snapshot_argv cfg (xj_btrfs_mount j) (snap_path j) True), a) \<and>
        (if succeeded a then called (new_calls s s') (Sc_exec (delete_argv cfg (snap_path j)))
         else r \<noteq> 0 \<and> new_calls s s' = [(Sc_exec (snapshot_argv cfg (xj_btrfs_mount j) (snap_path j) True), a)])) s"
  unfolding export_defs
  by (intro wp_rules) (auto simp: new_calls_def called_def)

lemma export_source_wp:
  assumes "length (xj_btrfs_mount j) < BDFS_PATH_MAX - 1"
  shows "wp (bdfs_job_export_to_dwarfs env cfg j)
     (\<lambda>r s'. guarded_by
          (\<lambda>e. fst e = Sc_rename (tmp_image cfg j) (xj_image_path j) \<and> \<not> failed (snd e))
          (\<lambda>e. fst e = Sc_exec (delete_argv cfg (xj_btrfs_mount j))) (new_calls s s') \<and>
        (called (new_calls s s') (Sc_exec (delete_argv cfg (xj_btrfs_mount j))) \<longrightarrow>
           and (xj_flags j) BDFS_DEMOTE_DELETE_SUBVOL \<noteq> 0 \<and> r = 0) \<and>
        (r = 0 \<and> and (xj_flags j) BDFS_DEMOTE_DELETE_SUBVOL \<noteq> 0 \<longrightarrow>
           called (new_calls s s') (Sc_exec (delete_argv cfg (xj_btrfs_mount j))))) s"
  using snap_path_differs [OF assms] unfolding export_defs
  by (intro wp_rules) (auto simp: new_calls_def called_def mkdir_fails_def)

section \<open>Import\<close>

lemma import_wp:
  "wp (bdfs_job_import_from_dwarfs env cfg j)
     (\<lambda>r s'. \<exists>a rest. new_calls s s' = (Sc_exec (create_argv cfg (import_subvol_path j)), a) # rest \<and>
        (if succeeded a then
           (r \<noteq> 0 \<longleftrightarrow> called rest (Sc_exec (delete_argv cfg (import_subvol_path j)))) \<and>
           (r = 0 \<longrightarrow> and (ij_flags j) BDFS_IMPORT_READONLY \<noteq> 0 \<longrightarrow>
              (\<exists>b. (Sc_exec (set_ro_argv cfg (import_subvol_path j)), b) \<in> set rest \<and> succeeded b))
         else r \<noteq> 0 \<and> rest = [])) s"
  unfolding bdfs_job_import_from_dwarfs_def exec_defs
  by (intro wp_rules) (auto simp: new_calls_def called_def)

section \<open>Mounts\<close>

lemma mount_dwarfs_wp:
  "wp (bdfs_job_mount_dwarfs env cfg u i j)
     (\<lambda>r s'. sy_mounts s' =
        (if r = 0 \<and> \<not> failed (snd (last (new_calls s s')))
         then mount_add \<lparr>me_type = BDFS_MNT_DWARFS, me_partition_uuid = u, me_image_id = i,
                me_mount_point = strncpy (BDFS_PATH_MAX - 1) (mj_mount_point j)\<rparr> (sy_mounts s)
         else sy_mounts s)) s"
  unfolding bdfs_job_mount_dwarfs_def exec_defs bdfs_mount_track_def
  by (intro wp_rules) (auto simp: new_calls_def mkdir_fails_def)

lemma umount_dwarfs_wp:
  "wp (bdfs_job_umount_dwarfs env j)
     (\<lambda>r s'. sy_mounts s' = (if r = 0 then mount_del (uj_mount_point j) (sy_mounts s) else sy_mounts s)) s"
  unfolding bdfs_job_umount_dwarfs_def exec_defs bdfs_mount_untrack_def
  by (intro wp_rules) auto

lemma blend_mount_wp:
  "wp (bdfs_job_umount_blend env j)
     (\<lambda>r s'. sy_mounts s' = (if r = 0 then mount_del (bj_blend_mount j) (sy_mounts s) else sy_mounts s)) s"
  unfolding bdfs_job_umount_blend_def bdfs_mount_untrack_def
  by (intro wp_rules) auto

section \<open>Store\<close>

lemma ran_refl [simp]: "ran P s s"
  by (simp add: ran_def)

lemma ran_new_calls:
  "ran P (after_call c a s) s' \<Longrightarrow> new_calls s s' = (c, a) # new_calls (after_call c a s) s'"
  unfolding ran_def by (intro new_calls_append) auto

lemma ran_call:
  assumes "ran P (after_call c a s) s'" "P c" shows "ran P s s'"
  using assms ran_new_calls [OF assms(1)]
  by (auto simp: ran_def after_call_def split: sys_ans.splits)

lemma ran_not_called: "ran P s s' \<Longrightarrow> \<not> P c \<Longrightarrow> (c, a) \<notin> set (new_calls s s')"
  by (auto simp: ran_def)

lemma store_post_call:
  "store_post src dst sz off' r (after_call c a s) s' \<Longrightarrow> is_copy_call c \<Longrightarrow>
   (\<And>evs. copy_chain src dst off ((c, a) # evs) = copy_chain src dst off' evs) \<Longrightarrow>
   store_post src dst sz off r s s'"
  using ran_new_calls ran_call unfolding store_post_def by metis

lemma store_post_end:
  "store_post src dst sz off r s s \<longleftrightarrow> (\<forall>rv. r = Some rv \<longrightarrow> rv \<le> 0) \<and> (r = Some 0 \<longrightarrow> sz \<le> off)"
  by (auto simp: store_post_def)

lemma store_post_cfr:
  "store_post src dst sz (if failed a then off else off + ans_val a) r
     (after_call (Sc_copy_file_range src off dst n) a s) s' \<Longrightarrow> store_post src dst sz off r s s'"
  by (erule store_post_call) simp_all

lemma store_post_sendfile:
  "store_post src dst sz (if failed a then off else off + ans_val a) r
     (after_call (Sc_sendfile dst src off n) a s) s' \<Longrightarrow> store_post src dst sz off r s s'"
  by (erule store_post_call) simp_all

lemma store_copy_wp:
  "wp (store_copy env fuel src dst sz off) (\<lambda>r s'. store_post src dst sz off r s s') s"
proof (induction fuel arbitrary: off s)
  case 0
  show ?case by (auto intro!: wp_rules simp: store_post_end)
next
  case (Suc fuel)
  note done_errs = store_post_end less_imp_le [OF after_call_errno]
  show ?case
    unfolding store_copy.simps
    apply (intro wp_rules wp_mono [OF Suc])
    subgoal for a b
      by (rule store_post_cfr [where a = a and n = "sz - off"],
          rule store_post_sendfile [where a = b and n = "sz - off"]) (simp add: done_errs)
    subgoal for a b
      by (rule store_post_cfr [where a = a and n = "sz - off"],
          rule store_post_sendfile [where a = b and n = "sz - off"]) simp
    subgoal for a
      by (rule store_post_cfr [where a = a and n = "sz - off"]) (simp add: done_errs)
    subgoal for a
      by (rule store_post_cfr [where a = a and n = "sz - off"]) simp
    subgoal by (simp add: store_post_end)
    done
qed

lemma store_copy_wpI:
  assumes "\<And>r s' evs. sy_trace s' = sy_trace s @ evs \<Longrightarrow> \<forall>c a. \<not> is_copy_call c \<longrightarrow> (c, a) \<notin> set evs \<Longrightarrow>
      \<forall>rv. r = Some rv \<longrightarrow> rv \<le> 0 \<Longrightarrow>
      r = Some 0 \<longrightarrow> (\<exists>n \<ge> sz. copy_chain src dst off evs = Some n) \<Longrightarrow> Q r s'"
  shows "wp (store_copy env fuel src dst sz off) Q s"
proof (rule wp_mono [OF store_copy_wp])
  fix r s' assume "store_post src dst sz off r s s'"
  then show "Q r s'"
    by (intro assms [of s' "new_calls s s'"]) (auto simp: store_post_def ran_def)
qed

lemma store_image_wp:
  "wp (bdfs_job_store_image env fuel j)
     (\<lambda>r s'. (called (new_calls s s') (Sc_unlink (sj_dest_path j)) \<longleftrightarrow>
          (\<exists>m a. (Sc_open_excl (sj_dest_path j) m, a) \<in> set (new_calls s s') \<and> \<not> failed a) \<and>
          r \<noteq> None \<and> r \<noteq> Some 0)) s"
  unfolding bdfs_job_store_image_def
  by (intro wp_rules store_copy_wpI) (auto simp: called_def new_calls_def)

lemma store_image_covers_wp:
  "wp (bdfs_job_store_image env fuel j)
     (\<lambda>r s'. r = Some 0 \<longrightarrow>
        (\<exists>a b d evs x y n. new_calls s s' =
            [(Sc_open_rd (sj_source_path j), a), (Sc_fstat (ans_val a), b),
             (Sc_open_excl (sj_dest_path j) 0x1A4, d)] @ evs @
            [(Sc_close (ans_val a), x), (Sc_close (ans_val d), y)] \<and>
          \<not> failed a \<and> \<not> failed b \<and> \<not> failed d \<and>
          copy_chain (ans_val a) (ans_val d) 0 evs = Some n \<and> st_size (ans_stat b) \<le> n)) s"
  unfolding bdfs_job_store_image_def
  by (intro wp_rules store_copy_wpI) (auto simp: new_calls_def mkdir_fails_def)

lemma wp_sys_env: "wp (sys env c) Q s \<longleftrightarrow> Q (env (sy_trace s) c) (after_call c (env (sy_trace s) c) s)"
  by (simp add: wp_def sys_def Let_def)

lemma store_copy_ends:
  assumes "copies_progress env" "sz \<le> off + fuel"
  shows "wp (store_copy env fuel src dst sz off) (\<lambda>r s'. \<exists>rv. r = Some rv) s"
  using assms(2)
proof (induction fuel arbitrary: off s)
  case 0
  then show ?case by (auto intro!: wp_rules)
next
  case (Suc fuel)
  have adv: "sz \<le> off + ans_val (env h c) + fuel" if "is_range_copy c" "\<not> failed (env h c)" for h c
  proof -
    have "0 < ans_val (env h c)" using assms(1) that by (auto simp: copies_progress_def)
    then show ?thesis using Suc.prems by simp
  qed
  show ?case
    unfolding store_copy.simps
    by (auto intro!: wp_ifI wp_bindI wp_returnI neg_errno_wpI Suc.IH adv simp: wp_sys_env)
qed

lemma store_copy_spins:
  assumes "\<And>h s o' d n. env h (Sc_copy_file_range s o' d n) = R_ok 0" "off < sz"
  shows "wp (store_copy env fuel src dst sz off) (\<lambda>r s'. r = None) s"
proof (induction fuel arbitrary: s)
  case 0
  show ?case using assms(2) by (auto intro!: wp_rules)
next
  case (Suc fuel)
  then show ?case
    using assms by (auto intro!: wp_bindI simp: wp_sys_env failed_def ans_val_def)
qed

section \<open>Copy-up\<close>

lemma rw_post_more:
  assumes "rw_post r (after_call (Sc_write dst d) w (after_call (Sc_read src n) a s)) s'"
    "ans_data a = d" "ans_val w = length d"
  shows "rw_post r s s'"
proof -
  let ?s1 = "after_call (Sc_read src n) a s"
  let ?s2 = "after_call (Sc_write dst d) w ?s1"
  have r2: "ran is_copy_call ?s2 s'" using assms(1) by (simp add: rw_post_def)
  have r1: "ran is_copy_call ?s1 s'" by (rule ran_call [OF r2]) simp
  have r0: "ran is_copy_call s s'" by (rule ran_call [OF r1]) simp
  have "new_calls s s' = (Sc_read src n, a) # (Sc_write dst d, w) # new_calls ?s2 s'"
    using ran_new_calls [OF r1] ran_new_calls [OF r2] by simp
  then show ?thesis using assms r0 by (auto simp: rw_post_def)
qed

lemma rw_loop_wp:
  assumes "0 < sy_errno s"
  shows "wp (rw_loop env fuel src dst) (\<lambda>r s'. rw_post r s s') s"
  using assms
proof (induction fuel arbitrary: s)
  case 0
  show ?case by (auto intro!: wp_rules simp: rw_post_def)
next
  case (Suc fuel)
  have pos: "0 < sy_errno (after_call c a s)"
    if "0 < sy_errno s" for s c a
    using that by (auto simp: after_call_def split: sys_ans.splits)
  have one: "ran is_copy_call s (after_call (Sc_read src n) a s)" for n a
    by (rule ran_call [OF ran_refl]) simp
  have two: "ran is_copy_call s (after_call (Sc_write dst d) w (after_call (Sc_read src n) a s))" for n a d w
    by (rule ran_call [OF ran_call [OF ran_refl]]) simp_all
  show ?case
    unfolding rw_loop.simps
    apply (intro wp_rules wp_mono [OF Suc.IH])
    subgoal by (auto simp: rw_post_def one after_call_errno less_imp_le)
    subgoal by (auto simp: rw_post_def one new_calls_def)
    subgoal using Suc.prems pos [OF pos [OF Suc.prems]] by (auto simp: rw_post_def two less_imp_le)
    subgoal using pos [OF pos [OF Suc.prems]] by auto
    subgoal by (rule rw_post_more) auto
    done
qed

lemma copied_all_call:
  "copied_all src dst sz (if failed a then off else off + ans_val a) evs \<Longrightarrow>
   copied_all src dst sz off ((Sc_copy_file_range src off dst n, a) # evs)"
  unfolding copied_all_def
  by (elim exE conjE, rule_tac x = "(Sc_copy_file_range src off dst n, a) # p" in exI) fastforce

lemma copyup_post_call:
  "copyup_post src dst sz (if failed a then off else off + ans_val a) r
     (after_call (Sc_copy_file_range src off dst n) a s) s' \<Longrightarrow> copyup_post src dst sz off r s s'"
  unfolding copyup_post_def
  using ran_new_calls [of is_copy_call "Sc_copy_file_range src off dst n" a s s']
    ran_call [of is_copy_call "Sc_copy_file_range src off dst n" a s s']
  by (auto intro: copied_all_call)

lemma copyup_post_end:
  "copyup_post src dst sz off r s s \<longleftrightarrow>
     (\<forall>rv jump. r = Some (rv, jump) \<longrightarrow> rv \<le> 0 \<and> (rv = 0 \<longrightarrow> \<not> jump \<and> sz \<le> off))"
  by (auto simp: copyup_post_def copied_all_def rw_done_def)

lemma rw_post_copyup: "rw_post r s s' \<Longrightarrow> copyup_post src dst sz off r s s'"
  unfolding rw_post_def copyup_post_def copied_all_def rw_done_def
  by (metis append_Nil copy_chain.simps(1))

lemma copyup_copy_wp:
  "wp (copyup_copy env fuel src dst sz off) (\<lambda>r s'. copyup_post src dst sz off r s s') s"
proof (induction fuel arbitrary: off s)
  case 0
  show ?case by (auto intro!: wp_rules simp: copyup_post_end)
next
  case (Suc fuel)
  show ?case
    unfolding copyup_copy.simps
    apply (intro wp_rules wp_mono [OF Suc] wp_mono [OF rw_loop_wp])
    subgoal by (simp add: after_call_errno)
    subgoal for a
      by (rule copyup_post_call [where a = a and n = "sz - off"]) (simp add: rw_post_copyup)
    subgoal for a
      by (rule copyup_post_call [where a = a and n = "sz - off"])
        (simp add: copyup_post_end less_imp_le after_call_errno)
    subgoal for a
      by (rule copyup_post_call [where a = a and n = "sz - off"]) simp
    subgoal by (simp add: copyup_post_end)
    done
qed

lemma copyup_copy_wpI:
  assumes "\<And>r s' evs. sy_trace s' = sy_trace s @ evs \<Longrightarrow> \<forall>c a. \<not> is_copy_call c \<longrightarrow> (c, a) \<notin> set evs \<Longrightarrow>
      (\<forall>rv jump. r = Some (rv, jump) \<longrightarrow> rv \<le> 0 \<and> (rv = 0 \<longrightarrow> \<not> jump \<and> copied_all src dst sz off evs)) \<Longrightarrow>
      Q r s'"
  shows "wp (copyup_copy env fuel src dst sz off) Q s"
proof (rule wp_mono [OF copyup_copy_wp])
  fix r s' assume "copyup_post src dst sz off r s s'"
  then show "Q r s'"
    by (intro assms [of s' "new_calls s s'"]) (auto simp: copyup_post_def ran_def)
qed

lemma make_dirs_wpI:
  assumes "\<And>r s' evs. sy_trace s' = sy_trace s @ evs \<Longrightarrow> \<forall>c a. \<not> is_mkdir_call c \<longrightarrow> (c, a) \<notin> set evs \<Longrightarrow>
      (r = None \<longrightarrow> map fst evs = map Sc_mkdir dirs) \<Longrightarrow> (\<forall>rv. r = Some rv \<longrightarrow> rv < 0) \<Longrightarrow> Q r s'"
  shows "wp (make_dirs env dirs) Q s"
  using assms
proof (induction dirs arbitrary: s)
  case Nil
  show ?case by (auto intro!: wp_rules Nil [of _ "[]"])
next
  case (Cons d dirs)
  show ?case
    unfolding make_dirs.simps
  proof (intro wp_rules Cons.IH)
    fix a assume "mkdir_fails a"
    then show "Q (Some (- sy_errno (after_call (Sc_mkdir d) a s))) (after_call (Sc_mkdir d) a s)"
      by (intro Cons.prems [of _ "[(Sc_mkdir d, a)]"]) (auto simp: mkdir_fails_def after_call_errno)
  next
    fix a evs and s' :: dsys and r :: "int option"
    assume "sy_trace s' = sy_trace (after_call (Sc_mkdir d) a s) @ evs"
      "\<forall>c a. \<not> is_mkdir_call c \<longrightarrow> (c, a) \<notin> set evs"
      "r = None \<longrightarrow> map fst evs = map Sc_mkdir dirs" "\<forall>rv. r = Some rv \<longrightarrow> rv < 0"
    then show "Q r s'" by (intro Cons.prems [of s' "(Sc_mkdir d, a) # evs"]) auto
  qed
qed

lemma promote_copyup_wp:
  "wp (bdfs_job_promote_copyup env fuel j)
     (\<lambda>r s'. (called (new_calls s s') (Sc_copyup_complete (copyup_complete_arg j)) \<longleftrightarrow> r = Some 0) \<and>
        (called (new_calls s s') (Sc_unlink (pj_upper_path j)) \<longleftrightarrow>
          (\<exists>m a. (Sc_open_excl (pj_upper_path j) m, a) \<in> set (new_calls s s') \<and> \<not> failed a) \<and>
          r \<noteq> None \<and> r \<noteq> Some 0)) s"
  unfolding bdfs_job_promote_copyup_def copyup_copy_steps_def copyup_out_def
  by (intro wp_rules copyup_copy_wpI make_dirs_wpI) (auto simp: called_def new_calls_def)

lemma copyup_run_exists:
  assumes "map fst pre = map Sc_mkdir (parent_dirs (pj_upper_path j))" "\<not> failed a" "\<not> failed b"
    "fails_with d EEXIST"
  shows "copyup_run j (pre @ (Sc_open_rd (pj_lower_path j), a) # (Sc_fstat (ans_val a), b) #
     (Sc_open_excl (pj_upper_path j) (and (st_mode (ans_stat b)) 0x1FF), d) # post)"
  unfolding copyup_run_def
  by (intro exI [of _ pre] exI [of _ a] exI [of _ b] exI [of _ d] exI [of _ "[]"] exI [of _ post])
     (simp add: assms)

lemma copyup_run_copied:
  assumes "map fst pre = map Sc_mkdir (parent_dirs (pj_upper_path j))" "\<not> failed a" "\<not> failed b"
    "\<not> failed d" "copied_all (ans_val a) (ans_val d) (st_size (ans_stat b)) 0 evs"
  shows "copyup_run j (pre @ (Sc_open_rd (pj_lower_path j), a) # (Sc_fstat (ans_val a), b) #
     (Sc_open_excl (pj_upper_path j) (and (st_mode (ans_stat b)) 0x1FF), d) # evs @ post)"
  unfolding copyup_run_def
  by (intro exI [of _ pre] exI [of _ a] exI [of _ b] exI [of _ d] exI [of _ evs] exI [of _ post])
     (simp add: assms)

lemma promote_copyup_copied_wp:
  "wp (bdfs_job_promote_copyup env fuel j)
     (\<lambda>r s'. r = Some 0 \<longrightarrow> copyup_run j (new_calls s s')) s"
  unfolding bdfs_job_promote_copyup_def copyup_copy_steps_def copyup_out_def
  by (intro wp_rules copyup_copy_wpI make_dirs_wpI)
     (auto simp: new_calls_def copyup_run_exists copyup_run_copied)

section \<open>Every job ends\<close>

lemma rw_loop_ends:
  assumes "reads_end env k" "0 < fuel" "k < fuel + reads_made (sy_trace s)"
  shows "wp (rw_loop env fuel src dst) (\<lambda>r s'. r \<noteq> None) s"
  using assms(2,3)
proof (induction fuel arbitrary: s)
  case (Suc fuel)
  have last: "k \<le> reads_made (sy_trace s) \<Longrightarrow> \<not> failed (env (sy_trace s) (Sc_read src n)) \<Longrightarrow>
      ans_data (env (sy_trace s) (Sc_read src n)) = []" for n
    using assms(1) by (auto simp: reads_end_def)
  show ?case
  proof (cases "k \<le> reads_made (sy_trace s)")
    case True
    then show ?thesis
      using last by (auto intro!: wp_ifI wp_bindI wp_returnI neg_errno_wpI simp: wp_sys_env iff del: not_None_eq)
  next
    case False
    then show ?thesis
      using Suc.prems
      by (auto intro!: wp_ifI wp_bindI wp_returnI neg_errno_wpI Suc.IH simp: wp_sys_env reads_made_def
          iff del: not_None_eq)
  qed
qed simp

lemma copyup_copy_ends:
  assumes "copies_progress env" "reads_end env k" "sz + k + 1 \<le> off + fuel"
  shows "wp (copyup_copy env fuel src dst sz off) (\<lambda>r s'. r \<noteq> None) s"
  using assms(3)
proof (induction fuel arbitrary: off s)
  case 0
  then show ?case by (auto intro!: wp_rules)
next
  case (Suc fuel)
  have adv: "sz + k + 1 \<le> off + ans_val (env h (Sc_copy_file_range a b c d)) + fuel"
    if "0 < d" "\<not> failed (env h (Sc_copy_file_range a b c d))" for h a b c d
  proof -
    have "0 < ans_val (env h (Sc_copy_file_range a b c d))" using assms(1) that unfolding copies_progress_def by (meson is_range_copy.simps(1))
    then show ?thesis using Suc.prems by simp
  qed
  show ?case
    unfolding copyup_copy.simps
    using Suc.prems
    by (auto intro!: wp_ifI wp_bindI wp_returnI neg_errno_wpI Suc.IH rw_loop_ends [OF assms(2)] adv
        simp: wp_sys_env iff del: not_None_eq)
qed

lemma run_job_ends_wp:
  assumes "copies_progress env" "reads_end env k" "files_bounded env N" "N + k < fuel"
  shows "wp (run_job env cfg fuel job) (\<lambda>r s'. r \<noteq> None) s"
proof -
  have sz: "st_size (ans_stat (env h (Sc_fstat fd))) \<le> N" for h fd
    using assms(3) by (simp add: files_bounded_def)
  have fuel: "st_size (ans_stat (env h (Sc_fstat fd))) + k + 1 \<le> 0 + fuel"
    "st_size (ans_stat (env h (Sc_fstat fd))) \<le> 0 + fuel" for h fd
    using sz [of h fd] assms(4) by linarith+
  have store: "wp (bdfs_job_store_image env fuel j) (\<lambda>r s'. r \<noteq> None) s" for j
    unfolding bdfs_job_store_image_def
    by (auto intro!: wp_ifI wp_bindI wp_returnI neg_errno_wpI wp_optionI fuel
        wp_mono [OF store_copy_ends [OF assms(1)]] simp: wp_sys_env)
  have copyup: "wp (bdfs_job_promote_copyup env fuel j) (\<lambda>r s'. r \<noteq> None) s" for j
    unfolding bdfs_job_promote_copyup_def copyup_copy_steps_def copyup_out_def
    by (auto intro!: wp_ifI wp_bindI wp_returnI neg_errno_wpI wp_optionI wp_prodI fuel make_dirs_wpI
        wp_mono [OF copyup_copy_ends [OF assms(1,2)]] simp: wp_sys_env)
  have some: "wp (do { r \<leftarrow> m; ret (Some r) }) (\<lambda>r s'. r \<noteq> None) s" for m :: "int dprog"
    by (simp add: wp_def split: prod.splits)
  show ?thesis
    by (cases "job_body job") (simp_all add: run_job_def store copyup some del: not_None_eq)
qed

end
