(* ===== verification/Bdfs_Daemon_Props.thy ===== *)
theory Bdfs_Daemon_Props
  imports Bdfs_Jobs
begin

text \<open>
  Properties of the daemon: the job queue and its worker pool, the job handlers whatever the
  tools and the system answer, the ends of their loops, and the table of active mounts.
\<close>

section \<open>Sample system\<close>

text \<open>A system in which every tool and call succeeds and every file has three bytes.\<close>

definition ok_env :: sys_env where
  "ok_env h c =
     (case c of
        Sc_exec _ \<Rightarrow> R_status (Exited 0)
      | Sc_receive _ \<Rightarrow> R_status (Exited 0)
      | Sc_fstat _ \<Rightarrow> R_stat \<lparr>st_size = 3, st_mode = 0x81A4, st_uid = 0, st_gid = 0\<rparr>
      | Sc_read _ _ \<Rightarrow> R_data []
      | Sc_copy_file_range _ _ _ n \<Rightarrow> R_ok n
      | Sc_sendfile _ _ _ n \<Rightarrow> R_ok n
      | _ \<Rightarrow> R_ok 3)"

text \<open>The same system with source files that have become empty since their \<open>fstat\<close>.\<close>

definition shrunk_env :: sys_env where
  "shrunk_env h c = (case c of Sc_copy_file_range _ _ _ _ \<Rightarrow> R_ok 0 | _ \<Rightarrow> ok_env h c)"

definition idle_sys :: dsys where
  "idle_sys = \<lparr>sy_errno = 0, sy_trace = [], sy_mounts = []\<rparr>"

definition sample_cfg :: bdfs_daemon_config where
  "sample_cfg = apply_defaults
     \<lparr>cfg_ctl_device = [], cfg_socket_path = [], cfg_state_dir = [], cfg_mkdwarfs_bin = [],
      cfg_dwarfs_bin = [], cfg_dwarfsextract_bin = [], cfg_dwarfsck_bin = [], cfg_btrfs_bin = [],
      cfg_worker_threads = 0, cfg_netlink_proto = 0, cfg_daemonize = False, cfg_verbose = False\<rparr>"

definition sample_export_job :: export_job where
  "sample_export_job = \<lparr>xj_btrfs_mount = ''/v'', xj_subvol_id = 5, xj_image_path = ''/i/a'',
     xj_image_name = ''a'', xj_compression = 2, xj_block_size_bits = 0, xj_worker_threads = 0,
     xj_flags = BDFS_EXPORT_INCREMENTAL, xj_parent_snap_path = ''/v/p''\<rparr>"

definition sample_import_job :: import_job where
  "sample_import_job = \<lparr>ij_image_path = ''/i/a'', ij_btrfs_mount = ''/v'', ij_subvol_name = ''n'',
     ij_flags = BDFS_IMPORT_READONLY\<rparr>"

definition sample_store_job :: store_job where
  "sample_store_job = \<lparr>sj_source_path = ''/s'', sj_dest_path = ''/d'', sj_flags = 0\<rparr>"


definition sample_mount_job :: mount_job where
  "sample_mount_job = \<lparr>mj_image_path = ''/i/a'', mj_mount_point = ''/m'', mj_cache_size_mb = 0, mj_flags = 0\<rparr>"

section \<open>The worker pool\<close>

lemma sample_pool_run:
  "pool_step\<^sup>*\<^sup>* (init_pool 1) (worker_fetch 0 (bdfs_daemon_enqueue (8 :: nat) (bdfs_daemon_enqueue 7 (init_pool 1))))"
proof -
  let ?d = "bdfs_daemon_enqueue 8 (bdfs_daemon_enqueue (7 :: nat) (init_pool 1))"
  have "pool_step\<^sup>*\<^sup>* (init_pool 1) (bdfs_daemon_enqueue 7 (init_pool 1))"
    by (rule r_into_rtranclp) (rule pool_step.enqueue)
  moreover have "pool_step (bdfs_daemon_enqueue 7 (init_pool 1)) ?d" by (rule pool_step.enqueue)
  moreover have "pool_step ?d (worker_fetch 0 ?d)"
    by (rule pool_step.fetch) (simp_all add: bdfs_daemon_enqueue_def init_pool_def)
  ultimately show ?thesis by (meson rtranclp.rtrancl_into_rtrancl)
qed

text \<open>
  C6: no job is lost, run twice or reordered.  In every reachable state of the pool the jobs
  accepted are those dequeued so far followed by those in the queue, in the order of their
  arrival, and each job dequeued is either running in one worker or finished.
\<close>

theorem jobs_not_lost:
  assumes "pool_step\<^sup>*\<^sup>* (init_pool n) d"
  shows "pl_accepted d = pl_started d @ pl_queue d \<and>
    mset (pl_started d) = mset (pl_finished d) + mset (running_jobs d)"
  using pool_reachable_inv [OF assms pool_inv_init] by (simp add: pool_inv_def)

theorem jobs_not_lost_witness:
  "let d = worker_fetch 0 (bdfs_daemon_enqueue (8 :: nat) (bdfs_daemon_enqueue 7 (init_pool 1)))
   in pl_accepted d = pl_started d @ pl_queue d \<and> running_jobs d = [7] \<and> pl_queue d = [8]"
  using jobs_not_lost [OF sample_pool_run]
  by (simp add: bdfs_daemon_enqueue_def worker_fetch_def init_pool_def running_jobs_def)

text \<open>
  A shutdown drains the queue.  When nothing is enqueued after the shutdown flag is set,
  and all workers have been joined, every job ever accepted has finished.
\<close>

theorem shutdown_runs_all:
  assumes "closed_step\<^sup>*\<^sup>* (init_pool n) d" and "0 < n" and "all_joined d"
  shows "pl_queue d = [] \<and> mset (pl_finished d) = mset (pl_accepted d)"
proof -
  have "drained (init_pool n)" by (simp add: drained_def init_pool_def)
  then have inv: "pool_inv d" "drained d" using closed_reachable [OF assms(1) pool_inv_init] by auto
  have "length (pl_workers d) = n"
    using pool_reachable_workers [OF closed_pool_step [OF assms(1)]] by (simp add: init_pool_def)
  then have "Exited_worker \<in> set (pl_workers d)"
    using assms(2,3) by (cases "pl_workers d") (auto simp: all_joined_def)
  then show ?thesis using inv joined_not_running [OF assms(3)] by (simp add: pool_inv_def drained_def)
qed

theorem shutdown_runs_all_witness:
  "let d = worker_fetch 0 ((init_pool 1 :: nat pool)\<lparr>pl_shutdown := True\<rparr>)
   in all_joined d \<and> mset (pl_finished d) = mset (pl_accepted d)"
proof -
  let ?d1 = "(init_pool 1 :: nat pool)\<lparr>pl_shutdown := True\<rparr>"
  have j: "all_joined (worker_fetch 0 ?d1)" by (simp add: all_joined_def worker_fetch_def init_pool_def)
  have "closed_step (init_pool 1) ?d1"
    by (intro closed_step.intros pool_step.shutdown) (simp add: init_pool_def)
  moreover have "closed_step ?d1 (worker_fetch 0 ?d1)"
    by (intro closed_step.intros pool_step.fetch) (simp_all add: init_pool_def worker_fetch_def)
  ultimately have "closed_step\<^sup>*\<^sup>* (init_pool 1) (worker_fetch 0 ?d1)"
    by (rule rtranclp.rtrancl_into_rtrancl [OF r_into_rtranclp])
  from shutdown_runs_all [OF this _ j] j show ?thesis by simp
qed



text \<open>
  A job enqueued after the workers were joined is never started, whatever happens next.
  The shutdown code joins the workers before it stops the policy engine, whose scans
  enqueue jobs.
\<close>

theorem late_jobs_never_run:
  assumes "all_joined d" and "pool_step\<^sup>*\<^sup>* (bdfs_daemon_enqueue j d) d'"
  shows "j \<in> set (pl_queue d') \<and> pl_started d' = pl_started d"
proof -
  have "all_joined (bdfs_daemon_enqueue j d)" using assms(1) by (simp add: all_joined_def bdfs_daemon_enqueue_def)
  from joined_steps [OF assms(2) this] show ?thesis by (auto simp: bdfs_daemon_enqueue_def)
qed

theorem late_jobs_never_run_witness:
  "7 \<in> set (pl_queue (bdfs_daemon_enqueue (7 :: nat) (worker_fetch 0 ((init_pool 1)\<lparr>pl_shutdown := True\<rparr>))))"
proof -
  have "all_joined (worker_fetch 0 ((init_pool 1 :: nat pool)\<lparr>pl_shutdown := True\<rparr>))"
    by (simp add: all_joined_def worker_fetch_def init_pool_def)
  from late_jobs_never_run [OF this rtranclp.rtrancl_refl] show ?thesis by blast
qed

section \<open>The job handlers\<close>

text \<open>
  C23: an export leaves no snapshot behind.  It first makes a read-only snapshot of the
  source; when that succeeds, the snapshot is deleted on every path, whatever the tools and
  the system answer, and when it fails the job stops there with an error.
\<close>

theorem export_removes_snapshot:
  "case run_state (bdfs_job_export_to_dwarfs env cfg j) s of (r, s') \<Rightarrow>
     \<exists>a rest. new_calls s s' = (Sc_exec (snapshot_argv cfg (xj_btrfs_mount j) (snap_path j) True), a) # rest \<and>
       (if succeeded a then called rest (Sc_exec (delete_argv cfg (snap_path j))) else r \<noteq> 0 \<and> rest = [])"
proof -
  obtain r s' where run: "run_state (bdfs_job_export_to_dwarfs env cfg j) s = (r, s')" by fastforce
  obtain a where "new_calls s s' \<noteq> []"
      "hd (new_calls s s') = (Sc_exec (snapshot_argv cfg (xj_btrfs_mount j) (snap_path j) True), a)"
      "if succeeded a then called (new_calls s s') (Sc_exec (delete_argv cfg (snap_path j)))
       else r \<noteq> 0 \<and> new_calls s s' = [(Sc_exec (snapshot_argv cfg (xj_btrfs_mount j) (snap_path j) True), a)]"
    using wp_run [OF export_snapshot_wp run] by blast
  then show ?thesis
    using run by (cases "new_calls s s'") (auto simp: called_def split: if_splits)
qed

text \<open>
  C24: an export deletes its source only once the image is in place.  No call deletes the
  source subvolume before a rename of the finished image to its final path has succeeded, and
  the source is deleted exactly when the job succeeds and bit 0 of the flags is set.  That
  bit means both an incremental export and the deletion after a demotion, so a successful
  incremental export deletes its source.
\<close>

theorem export_source_deleted_after_rename:
  assumes "length (xj_btrfs_mount j) < BDFS_PATH_MAX - 1"
    and "run_state (bdfs_job_export_to_dwarfs env cfg j) s = (r, s')"
  shows "guarded_by
      (\<lambda>e. fst e = Sc_rename (tmp_image cfg j) (xj_image_path j) \<and> \<not> failed (snd e))
      (\<lambda>e. fst e = Sc_exec (delete_argv cfg (xj_btrfs_mount j))) (new_calls s s') \<and>
    (called (new_calls s s') (Sc_exec (delete_argv cfg (xj_btrfs_mount j))) \<longleftrightarrow>
       r = 0 \<and> and (xj_flags j) BDFS_DEMOTE_DELETE_SUBVOL \<noteq> 0)"
  using wp_run [OF export_source_wp [OF assms(1)] assms(2)] by blast

theorem export_source_deleted_after_rename_witness:
  "called (new_calls idle_sys (snd (run_state (bdfs_job_export_to_dwarfs ok_env sample_cfg sample_export_job) idle_sys)))
     (Sc_exec (delete_argv sample_cfg ''/v''))"
proof -
  have "fst (run_state (bdfs_job_export_to_dwarfs ok_env sample_cfg sample_export_job) idle_sys) = 0"
    by (simp add: export_defs bdfs_exec_wait_def bdfs_exec_btrfs_receive_def exec_result_def sys_def
        ok_env_def failed_def mkdir_fails_def Let_def)
  then show ?thesis
    using export_source_deleted_after_rename [of sample_export_job ok_env sample_cfg idle_sys, OF _ prod.collapse [symmetric]]
    by (simp add: sample_export_job_def)
qed

text \<open>
  C25: an import is all or nothing.  Once the subvolume was created, it is deleted again
  exactly when the job fails; a job that succeeds with the read-only flag has made the
  subvolume read-only; and when the creation fails nothing else is called.
\<close>

theorem import_all_or_nothing:
  assumes "run_state (bdfs_job_import_from_dwarfs env cfg j) s = (r, s')"
  shows "\<exists>a rest. new_calls s s' = (Sc_exec (create_argv cfg (import_subvol_path j)), a) # rest \<and>
    (if succeeded a then
       (r \<noteq> 0 \<longleftrightarrow> called rest (Sc_exec (delete_argv cfg (import_subvol_path j)))) \<and>
       (r = 0 \<and> and (ij_flags j) BDFS_IMPORT_READONLY \<noteq> 0 \<longrightarrow>
          (\<exists>b. (Sc_exec (set_ro_argv cfg (import_subvol_path j)), b) \<in> set rest \<and> succeeded b))
     else r \<noteq> 0 \<and> rest = [])"
  using wp_run [OF import_wp assms] by (simp only: imp_conjL)

theorem import_all_or_nothing_witness:
  "\<exists>a rest. new_calls idle_sys (snd (run_state (bdfs_job_import_from_dwarfs ok_env sample_cfg sample_import_job) idle_sys)) =
     (Sc_exec (create_argv sample_cfg ''/v/n''), a) # rest"
  using import_all_or_nothing [of ok_env sample_cfg sample_import_job idle_sys, OF prod.collapse [symmetric]]
  by (auto simp: import_subvol_path_def sample_import_job_def)

text \<open>
  C22: storing an image is all or nothing.  The destination is removed exactly when the job
  created it and failed; a job that returns 0 has opened the source, created the destination
  exclusively, and made a gapless series of copies that covers the size of the source.
\<close>

theorem store_image_all_or_nothing:
  assumes "run_state (bdfs_job_store_image env fuel j) s = (r, s')"
  shows "(called (new_calls s s') (Sc_unlink (sj_dest_path j)) \<longleftrightarrow>
      (\<exists>m a. (Sc_open_excl (sj_dest_path j) m, a) \<in> set (new_calls s s') \<and> \<not> failed a) \<and> r \<noteq> None \<and> r \<noteq> Some 0) \<and>
    (r = Some 0 \<longrightarrow>
      (\<exists>a b d evs x y n. new_calls s s' =
          [(Sc_open_rd (sj_source_path j), a), (Sc_fstat (ans_val a), b),
           (Sc_open_excl (sj_dest_path j) 0x1A4, d)] @ evs @
          [(Sc_close (ans_val a), x), (Sc_close (ans_val d), y)] \<and>
        \<not> failed a \<and> \<not> failed b \<and> \<not> failed d \<and>
        copy_chain (ans_val a) (ans_val d) 0 evs = Some n \<and> st_size (ans_stat b) \<le> n))"
  using wp_run [OF store_image_wp assms] wp_run [OF store_image_covers_wp assms] by blast

theorem store_image_all_or_nothing_witness:
  "\<not> called (new_calls idle_sys (snd (run_state (bdfs_job_store_image ok_env 4 sample_store_job) idle_sys))) (Sc_unlink ''/d'')"
proof -
  have "fst (run_state (bdfs_job_store_image ok_env 4 sample_store_job) idle_sys) = Some 0"
    by (simp add: bdfs_job_store_image_def sys_def ok_env_def failed_def ans_val_def ans_stat_def Let_def
        numeral_eq_Suc)
  then show ?thesis
    using store_image_all_or_nothing [of ok_env 4 sample_store_job idle_sys, OF prod.collapse [symmetric]]
    by (simp add: sample_store_job_def)
qed



section \<open>Ends of jobs\<close>

text \<open>
  C21: every job returns.  When in-kernel copies that do not fail copy at least a byte, files
  have at most \<open>N\<close> bytes and reads reach the end of the file after \<open>k\<close> of them, the copy
  loops of all handlers end within \<open>N + k + 1\<close> rounds.
\<close>

theorem run_job_terminates:
  assumes "copies_progress env" and "reads_end env k" and "files_bounded env N" and "N + k < fuel"
  shows "\<exists>r s'. run_state (run_job env cfg fuel job) s = (Some r, s')"
  using wp_run [OF run_job_ends_wp [OF assms] prod.collapse [symmetric]] by (metis option.exhaust prod.collapse)

theorem run_job_terminates_witness:
  "\<exists>r s'. run_state (run_job ok_env sample_cfg 4 \<lparr>job_partition_uuid = zero_uuid, job_object_id = 0,
     job_body = BDFS_JOB_STORE_IMAGE sample_store_job\<rparr>) idle_sys = (Some r, s')"
proof (rule run_job_terminates [where k = 0 and N = 3])
  have "is_range_copy c \<Longrightarrow> failed (ok_env h c) \<or> 0 < ans_val (ok_env h c)" for h c
    by (cases c) (auto simp: ok_env_def ans_val_def)
  then show "copies_progress ok_env" by (simp add: copies_progress_def)
  show "reads_end ok_env 0" by (simp add: reads_end_def ok_env_def ans_data_def)
  show "files_bounded ok_env 3" by (simp add: files_bounded_def ok_env_def ans_stat_def)
qed simp

text \<open>
  The copy loop of a store job does not end when a copy returns 0, as it does at the end
  of a file that has become shorter since its size was read: however many rounds are
  allowed, the job is still running.
\<close>

theorem store_shrunk_source_hangs:
  assumes "\<And>h x o' d n. env h (Sc_copy_file_range x o' d n) = R_ok 0"
    and "\<And>h p. \<not> failed (env h (Sc_open_rd p))" and "\<And>h p m. \<not> failed (env h (Sc_open_excl p m))"
    and "\<And>h fd. env h (Sc_fstat fd) = R_stat st" and "0 < st_size st"
  shows "fst (run_state (bdfs_job_store_image env fuel j) s) = None"
proof -
  have "wp (bdfs_job_store_image env fuel j) (\<lambda>r s'. r = None) s"
    unfolding bdfs_job_store_image_def
    using assms by (auto intro!: wp_bindI wp_mono [OF store_copy_spins] wp_returnI
        simp: wp_sys_env failed_def ans_stat_def)
  then show ?thesis by (simp add: wp_def split: prod.splits)
qed

theorem store_shrunk_source_hangs_witness:
  "fst (run_state (bdfs_job_store_image shrunk_env 1000 sample_store_job) idle_sys) = None"
  by (rule store_shrunk_source_hangs [where st = "\<lparr>st_size = 3, st_mode = 0x81A4, st_uid = 0, st_gid = 0\<rparr>"]) (simp_all add: shrunk_env_def ok_env_def failed_def)

section \<open>The table of active mounts\<close>

text \<open>
  A mount that is made and undone leaves the table as it was: the mount job adds an entry
  for its mount point, and the unmount job of that mount point removes exactly this entry.
\<close>

theorem mount_tracking_roundtrip:
  assumes "run_state (bdfs_job_mount_dwarfs env cfg u i j) s = (0, s1)"
    and "\<not> failed (snd (last (new_calls s s1)))"
    and "length (mj_mount_point j) < BDFS_PATH_MAX"
    and "mount_find (mj_mount_point j) (sy_mounts s) = None"
    and "run_state (bdfs_job_umount_dwarfs env2 \<lparr>uj_mount_point = mj_mount_point j, uj_flags = f\<rparr>) s1 = (0, s2)"
  shows "mount_find (mj_mount_point j) (sy_mounts s1) \<noteq> None \<and> bdfs_mount_count s1 = Suc (bdfs_mount_count s) \<and>
    sy_mounts s2 = sy_mounts s"
proof -
  let ?e = "\<lparr>me_type = BDFS_MNT_DWARFS, me_partition_uuid = u, me_image_id = i, me_mount_point = mj_mount_point j\<rparr>"
  have s1: "sy_mounts s1 = mount_add ?e (sy_mounts s)"
    using wp_run [OF mount_dwarfs_wp assms(1)] assms(2,3) by simp
  have s2: "sy_mounts s2 = mount_del (mj_mount_point j) (sy_mounts s1)"
    using wp_run [OF umount_dwarfs_wp assms(5)] by simp
  show ?thesis
    using s1 s2 assms(4) mount_table.look_add_fresh [of ?e "sy_mounts s"] mount_table.del_add_roundtrip [of ?e "sy_mounts s"]
    by (simp add: bdfs_mount_count_def mount_add_def)
qed

theorem mount_tracking_roundtrip_witness:
  "sy_mounts (snd (run_state (bdfs_job_umount_dwarfs ok_env \<lparr>uj_mount_point = ''/m'', uj_flags = 0\<rparr>)
     (snd (run_state (bdfs_job_mount_dwarfs ok_env sample_cfg zero_uuid 1 sample_mount_job) idle_sys)))) = []"
proof -
  note evals = bdfs_job_mount_dwarfs_def bdfs_job_umount_dwarfs_def bdfs_mount_track_def bdfs_mount_untrack_def
    exec_defs bdfs_exec_wait_def exec_result_def sys_def update_mounts_def ok_env_def failed_def mkdir_fails_def Let_def
  let ?m = "run_state (bdfs_job_mount_dwarfs ok_env sample_cfg zero_uuid 1 sample_mount_job) idle_sys"
  have m: "fst ?m = 0" "\<not> failed (snd (last (new_calls idle_sys (snd ?m))))"
    by (simp_all add: evals new_calls_def)
  have u: "fst (run_state (bdfs_job_umount_dwarfs ok_env \<lparr>uj_mount_point = ''/m'', uj_flags = 0\<rparr>) (snd ?m)) = 0"
    by (simp add: evals)
  show ?thesis
    using mount_tracking_roundtrip [of ok_env sample_cfg zero_uuid 1 sample_mount_job idle_sys "snd ?m" ok_env 0] m u
    by (simp add: sample_mount_job_def idle_sys_def mount_find_def prod_eq_iff)
qed

end
