(* ===== verification/Bdfs_Netlink.thy ===== *)
theory Bdfs_Netlink
  imports Bdfs_Main Bdfs_Jobs
begin

text \<open>
  The daemon's netlink listener (\<open>bdfs_netlink.c\<close>): the translation of a kernel event into
  a job, and the loop over the messages of one datagram.  Whether the allocation of a job
  succeeds is an argument.  The lemmas read back the messages that
  the kernel part prints.
\<close>

section \<open>Translation of events\<close>

definition parse_export :: "string \<Rightarrow> sval list" where
  "parse_export m = sscanf (lits ''export subvol='' @ [SU64] @ lits '' image='' @ [SStr 255] @
     lits '' compression='' @ [SU32] @ lits '' flags=0x'' @ [SX32]) m"

definition export_event_job :: "bdfs_event \<Rightarrow> bdfs_job" where
  "export_event_job evt =
     (let vs = parse_export (evt_message evt);
          flags = sval32 vs 3 0;
          parent_snap =
            (case strstr (evt_message evt) '' parent='' of
               Some p \<Rightarrow> if and flags BDFS_EXPORT_INCREMENTAL \<noteq> 0
                          then strncpy (BDFS_PATH_MAX - 1) (drop 8 p) else []
             | None \<Rightarrow> [])
      in (bdfs_job_alloc (BDFS_JOB_EXPORT_TO_DWARFS (zero_export_job\<lparr>
            xj_subvol_id := sval64 vs 0 0,
            xj_compression := sval32 vs 2 BDFS_COMPRESS_ZSTD,
            xj_flags := flags,
            xj_image_name := strncpy BDFS_NAME_MAX (svalS vs 1 []),
            xj_parent_snap_path := strncpy (BDFS_PATH_MAX - 1) parent_snap\<rparr>)))
         \<lparr>job_partition_uuid := evt_partition_uuid evt, job_object_id := evt_object_id evt\<rparr>)"

definition parse_mount :: "string \<Rightarrow> sval list" where
  "parse_mount m = sscanf (lits ''mount image_id='' @ [SU64] @ lits '' path='' @ [SStr 4095] @
     lits '' mount='' @ [SStr 4095] @ lits '' cache_mb='' @ [SU32]) m"

definition mount_event_job :: "bdfs_event \<Rightarrow> bdfs_job" where
  "mount_event_job evt =
     (let vs = parse_mount (evt_message evt)
      in (bdfs_job_alloc (BDFS_JOB_MOUNT_DWARFS
            \<lparr>mj_image_path = strncpy (BDFS_PATH_MAX - 1) (svalS vs 1 []),
             mj_mount_point = strncpy (BDFS_PATH_MAX - 1) (svalS vs 2 []),
             mj_cache_size_mb = sval32 vs 3 256, mj_flags = 0\<rparr>))
         \<lparr>job_partition_uuid := evt_partition_uuid evt, job_object_id := sval64 vs 0 0\<rparr>)"

definition umount_event_job :: "bdfs_event \<Rightarrow> bdfs_job" where
  "umount_event_job evt =
     bdfs_job_alloc (BDFS_JOB_UMOUNT_DWARFS
       \<lparr>uj_mount_point = strncpy (BDFS_PATH_MAX - 1) (evt_message evt), uj_flags = 0\<rparr>)"

definition parse_store :: "string \<Rightarrow> sval list" where
  "parse_store m = sscanf (lits ''store src='' @ [SStr 4095] @ lits '' dest='' @ [SStr 4095] @
     lits '' flags=0x'' @ [SX32]) m"

definition parse_import :: "string \<Rightarrow> sval list" where
  "parse_import m = sscanf (lits ''import image_id='' @ [SU64] @ lits '' subvol='' @ [SStr 255] @
     lits '' btrfs='' @ [SStr 4095] @ lits '' flags=0x'' @ [SX32]) m"

definition imported_event_job :: "bdfs_event \<Rightarrow> bdfs_job" where
  "imported_event_job evt =
     (if take 5 (evt_message evt) = ''store'' then
        let vs = parse_store (evt_message evt)
        in bdfs_job_alloc (BDFS_JOB_STORE_IMAGE
             \<lparr>sj_source_path = strncpy (BDFS_PATH_MAX - 1) (svalS vs 0 []),
              sj_dest_path = strncpy (BDFS_PATH_MAX - 1) (svalS vs 1 []),
              sj_flags = sval32 vs 2 0\<rparr>)
      else
        let vs = parse_import (evt_message evt)
        in (bdfs_job_alloc (BDFS_JOB_IMPORT_FROM_DWARFS (zero_import_job\<lparr>
              ij_subvol_name := strncpy BDFS_NAME_MAX (svalS vs 1 []),
              ij_btrfs_mount := strncpy (BDFS_PATH_MAX - 1) (svalS vs 2 []),
              ij_flags := sval32 vs 3 0\<rparr>)))
           \<lparr>job_partition_uuid := evt_partition_uuid evt, job_object_id := sval64 vs 0 0\<rparr>)"

definition parse_snapshot :: "string \<Rightarrow> sval list" where
  "parse_snapshot m = sscanf (lits ''snapshot image_id='' @ [SU64] @ lits '' snap='' @ [SStr 255] @
     lits '' readonly='' @ [SD32]) m"

definition snapshot_event_job :: "bdfs_event \<Rightarrow> bdfs_job" where
  "snapshot_event_job evt =
     (let vs = parse_snapshot (evt_message evt)
      in (bdfs_job_alloc (BDFS_JOB_SNAPSHOT_CONTAINER
            \<lparr>nj_subvol_path = [], nj_snapshot_path = strncpy (BDFS_PATH_MAX - 1) (svalS vs 1 []),
             nj_flags = (if sval32 vs 2 0 \<noteq> 0 then BDFS_SNAP_READONLY else 0)\<rparr>))
         \<lparr>job_partition_uuid := evt_partition_uuid evt, job_object_id := sval64 vs 0 0\<rparr>)"

text \<open>The word after \<open>key\<close>, up to the next space.\<close>

definition copyup_field :: "string \<Rightarrow> string \<Rightarrow> string" where
  "copyup_field key m =
     (case strstr m key of
        None \<Rightarrow> []
      | Some p \<Rightarrow>
          let v = drop (length key) p;
              len = (case strchr v (CHR '' '') of Some e \<Rightarrow> length v - length e | None \<Rightarrow> length v)
          in take (if BDFS_PATH_MAX \<le> len then BDFS_PATH_MAX - 1 else len) v)"

definition copyup_event_job :: "bdfs_event \<Rightarrow> bdfs_job option" where
  "copyup_event_job evt =
     (let lower = copyup_field ''lower='' (evt_message evt);
          upper = copyup_field ''upper='' (evt_message evt)
      in if lower = [] \<or> upper = [] then None
         else Some (bdfs_job_alloc (BDFS_JOB_PROMOTE_COPYUP
           \<lparr>pj_btrfs_uuid = evt_partition_uuid evt, pj_inode_no = evt_object_id evt,
            pj_lower_path = strncpy (BDFS_PATH_MAX - 1) lower,
            pj_upper_path = strncpy (BDFS_PATH_MAX - 1) upper\<rparr>)))"

text \<open>The switch on the event type; the other events are only logged.\<close>

definition event_job :: "bdfs_event \<Rightarrow> bdfs_job option" where
  "event_job evt =
     (if evt_type evt = BDFS_EVT_SNAPSHOT_EXPORTED then Some (export_event_job evt)
      else if evt_type evt = BDFS_EVT_IMAGE_MOUNTED then Some (mount_event_job evt)
      else if evt_type evt = BDFS_EVT_IMAGE_UNMOUNTED then Some (umount_event_job evt)
      else if evt_type evt = BDFS_EVT_IMAGE_IMPORTED then Some (imported_event_job evt)
      else if evt_type evt = BDFS_EVT_SNAPSHOT_CREATED then Some (snapshot_event_job evt)
      else if evt_type evt = BDFS_EVT_COPYUP_NEEDED then copyup_event_job evt
      else None)"

definition bdfs_handle_event :: "bool \<Rightarrow> bdfs_event \<Rightarrow> bdfs_job pool \<Rightarrow> bdfs_job pool" where
  "bdfs_handle_event alloc_ok evt d =
     (case event_job evt of
        None \<Rightarrow> d
      | Some job \<Rightarrow> if alloc_ok then bdfs_daemon_enqueue job d else d)"

section \<open>The loop over a datagram\<close>

abbreviation (input) NLMSG_ERROR :: u16 where "NLMSG_ERROR \<equiv> 2"

text \<open>\<open>alloc\<close> says for each message whether the allocation of its job succeeds.\<close>

fun netlink_messages :: "(nat \<Rightarrow> bool) \<Rightarrow> nl_message list \<Rightarrow> bdfs_job pool \<Rightarrow> bdfs_job pool" where
  "netlink_messages alloc [] d = d"
| "netlink_messages alloc (m # ms) d =
     (if nlm_type m = NLMSG_DONE then d
      else netlink_messages (\<lambda>i. alloc (Suc i)) ms
             (if nlm_type m \<noteq> NLMSG_ERROR then bdfs_handle_event (alloc 0) (nlm_event m) d else d))"

text \<open>\<open>recvmsg\<close> gives the messages of one datagram, or fails.\<close>

definition bdfs_netlink_loop ::
  "(nat \<Rightarrow> bool) \<Rightarrow> nl_message list option \<Rightarrow> bdfs_job pool \<Rightarrow> bdfs_job pool" where
  "bdfs_netlink_loop alloc received d =
     (case received of None \<Rightarrow> d | Some ms \<Rightarrow> netlink_messages alloc ms d)"

text \<open>A word that \<open>%s\<close> reads back whole.\<close>

definition scan_word :: "nat \<Rightarrow> string \<Rightarrow> bool" where
  "scan_word w t \<longleftrightarrow> t \<noteq> [] \<and> (\<forall>c \<in> set t. \<not> is_space c) \<and> length t \<le> w"

section \<open>Words and numbers in messages\<close>

lemma space_is_space [simp]: "is_space (CHR '' '')"
  by (simp add: is_space_def)

text \<open>The literal parts of the formats are matched character by character.\<close>

lemmas scan_simps = is_space_def strstr_skip

declare sscanf.simps(9) [simp del]

lemma val_space [simp]: "dec_val (CHR '' '') = None" "hex_val (CHR '' '') = None"
  by (simp_all add: dec_val_def hex_val_def)

lemma sscanf_word [simp]:
  "scan_word w t \<Longrightarrow> sscanf (SStr w # fs) (t @ CHR '' '' # r) = VS t # sscanf fs (CHR '' '' # r)"
  by (rule sscanf_str) (auto simp: scan_word_def)

lemma scan_dec_dec_end [simp]: "scan_dec (dec n) = Some (False, n, [])"
  using scan_dec_dec [of "[]" n] by simp

lemma scan_hex_space [simp]:
  "length (hex n) \<le> w \<Longrightarrow> scan_hex w (hex n @ CHR '' '' # r) = Some (False, n, CHR '' '' # r)"
  by (rule scan_hex_hex) (simp_all add: hex_val_def)

lemma scan_hex_end [simp]: "scan_hex (length (hex n)) (hex n) = Some (False, n, [])"
  using scan_hex_hex [of "[]" n "length (hex n)"] by simp

lemma dec_no_space [simp]: "CHR '' '' \<notin> set (dec n)"
proof
  assume "CHR '' '' \<in> set (dec n)"
  then obtain d where "d < 10" "CHR '' '' = digit_char d" using dec_digits by blast
  then show False using digit_char_not_space [of d] space_is_space by simp
qed

lemma hex_no_space [simp]: "CHR '' '' \<notin> set (hex n)"
proof
  assume "CHR '' '' \<in> set (hex n)"
  then obtain d where "d < 16" "CHR '' '' = digit_char d" using hex_digits by blast
  then show False using digit_char_not_space [of d] space_is_space by simp
qed

lemma word_no_space [simp]: "scan_word w t \<Longrightarrow> CHR '' '' \<notin> set t"
  by (auto simp: scan_word_def)

section \<open>Reading back what the kernel prints\<close>

lemma parse_export_msg:
  assumes "scan_word 255 name"
  shows "parse_export (''export subvol='' @ dec (unat (i :: u64)) @ '' image='' @ name @
      '' compression='' @ dec (unat (c :: u32)) @ '' flags=0x'' @ hex (unat (f :: u32)) @
      '' parent='' @ parent) = [V64 i, VS name, V32 c, V32 f]"
  using assms by (simp add: parse_export_def scan_simps)

lemma strstr_parent:
  assumes "scan_word 255 name"
  shows "strstr (''export subvol='' @ dec i @ '' image='' @ name @
      '' compression='' @ dec c @ '' flags=0x'' @ hex f @ '' parent='' @ parent) '' parent='' =
      Some ('' parent='' @ parent)"
  using assms by (simp add: scan_simps)

lemma parse_mount_msg:
  assumes "scan_word 4095 path" "scan_word 4095 mnt"
  shows "parse_mount (''mount image_id='' @ dec (unat (i :: u64)) @ '' path='' @ path @ '' mount='' @ mnt @
      '' cache_mb='' @ dec (unat (c :: u32))) = [V64 i, VS path, VS mnt, V32 c]"
  using assms by (simp add: parse_mount_def scan_simps)

lemma parse_store_msg:
  assumes "scan_word 4095 src" "scan_word 4095 dst"
  shows "parse_store (''store src='' @ src @ '' dest='' @ dst @ '' flags=0x'' @ hex (unat (f :: u32))) =
      [VS src, VS dst, V32 f]"
  using assms by (simp add: parse_store_def scan_simps)

lemma parse_import_msg:
  assumes "scan_word 255 name" "scan_word 4095 mnt"
  shows "parse_import (''import image_id='' @ dec (unat (i :: u64)) @ '' subvol='' @ name @ '' btrfs='' @ mnt @
      '' flags=0x'' @ hex (unat (f :: u32))) = [V64 i, VS name, VS mnt, V32 f]"
  using assms by (simp add: parse_import_def scan_simps)

lemma parse_snapshot_msg:
  assumes "scan_word 255 name"
  shows "parse_snapshot (''snapshot image_id='' @ dec (unat (i :: u64)) @ '' snap='' @ name @
      '' readonly='' @ dec (unat (b :: u8))) = [V64 i, VS name, V32 (conv_s32 False (unat b))]"
  using assms by (simp add: parse_snapshot_def scan_simps)

lemma strstr_skip_word:
  assumes "pat \<noteq> []" "last pat \<notin> set x" "b \<notin> set pat"
  shows "strstr (x @ b # r) pat = strstr (b # r) pat"
  using assms(2)
proof (induction x)
  case (Cons c cs)
  have "take (length pat) ((c # cs) @ b # r) \<noteq> pat"
  proof
    assume t: "take (length pat) ((c # cs) @ b # r) = pat"
    show False
    proof (cases "length pat \<le> length (c # cs)")
      case True
      then have "pat = take (length pat) (c # cs)" using t by (metis take_append append_Nil2 diff_is_0_eq take0)
      then have "last pat \<in> set (c # cs)" using assms(1) by (metis in_set_takeD last_in_set)
      then show False using Cons.prems by simp
    next
      case False
      then have "b \<in> set (take (length pat) ((c # cs) @ b # r))" by (auto simp: take_Cons' split: if_splits)
      then show False using t assms(3) by simp
    qed
  qed
  then show ?case using Cons by simp
qed simp

lemma strchr_word: "CHR '' '' \<notin> set x \<Longrightarrow> strchr (x @ CHR '' '' # r) (CHR '' '') = Some (CHR '' '' # r)"
  by (induction x) (auto simp: strchr_def)

lemma strchr_none: "c \<notin> set x \<Longrightarrow> strchr x c = None"
  by (induction x) (auto simp: strchr_def)

lemma copyup_field_lower:
  assumes "scan_word 4095 lower"
  shows "copyup_field ''lower='' (''copyup_needed lower='' @ lower @ '' upper='' @ upper) = lower"
  using assms by (simp add: copyup_field_def strchr_word) (simp add: scan_word_def)

lemma copyup_field_upper:
  assumes "scan_word 4095 upper" "CHR ''='' \<notin> set lower"
  shows "copyup_field ''upper='' (''copyup_needed lower='' @ lower @ '' upper='' @ upper) = upper"
  using assms
  by (simp add: copyup_field_def strchr_none strstr_skip_word) (simp add: scan_word_def)

section \<open>From the kernel's message to the job\<close>

lemmas event_job_defs =
  event_job_def export_event_job_def mount_event_job_def umount_event_job_def imported_event_job_def
  snapshot_event_job_def copyup_event_job_def bdfs_job_alloc_def zero_export_job_def zero_import_job_def
  sval64_def sval32_def svalS_def

lemma export_msg_job:
  assumes "scan_word 255 (ex_image_name arg)"
    and "length (ex_image_name arg) + length (ex_parent_snap_path arg) \<le> 166"
    and "evt_type evt = BDFS_EVT_SNAPSHOT_EXPORTED"
    and "evt_message evt = strscpy BDFS_MSG_MAX (export_event_msg arg)"
  shows "event_job evt = Some
    \<lparr>job_partition_uuid = evt_partition_uuid evt, job_object_id = evt_object_id evt,
     job_body = BDFS_JOB_EXPORT_TO_DWARFS (zero_export_job\<lparr>
       xj_subvol_id := ex_btrfs_subvol_id arg, xj_image_name := ex_image_name arg,
       xj_compression := ex_compression arg, xj_flags := ex_flags arg,
       xj_parent_snap_path :=
         (if and (ex_flags arg) BDFS_EXPORT_INCREMENTAL \<noteq> 0 then ex_parent_snap_path arg else [])\<rparr>)\<rparr>"
proof -
  let ?t = "''export subvol='' @ dec (unat (ex_btrfs_subvol_id arg)) @ '' image='' @ ex_image_name arg @
      '' compression='' @ dec (unat (ex_compression arg)) @ '' flags=0x'' @ hex (unat (ex_flags arg)) @
      '' parent='' @ (if and (ex_flags arg) BDFS_EXPORT_INCREMENTAL \<noteq> 0 then ex_parent_snap_path arg else [])"
  have "length ?t < BDFS_MSG_MAX"
    using assms(2) length_dec_u64 [of "ex_btrfs_subvol_id arg"] length_dec_u32 [of "ex_compression arg"]
      length_hex_u32 [of "ex_flags arg"] by (simp split: if_splits)
  then have m: "evt_message evt = ?t"
    unfolding assms(4) export_event_msg_def by (simp only: snprintf_short strscpy_short)
  show ?thesis
    using assms(1-3) parse_export_msg [OF assms(1)] strstr_parent [OF assms(1)]
    unfolding event_job_def export_event_job_def m by (simp add: event_job_defs)
qed

lemma mount_msg_job:
  assumes "scan_word 4095 path" "scan_word 4095 (md_mount_point arg)"
    and "length path + length (md_mount_point arg) \<le> 187"
    and "evt_type evt = BDFS_EVT_IMAGE_MOUNTED"
    and "evt_message evt = strscpy BDFS_MSG_MAX (mount_event_msg arg path)"
  shows "event_job evt = Some
    \<lparr>job_partition_uuid = evt_partition_uuid evt, job_object_id = md_image_id arg,
     job_body = BDFS_JOB_MOUNT_DWARFS
       \<lparr>mj_image_path = path, mj_mount_point = md_mount_point arg,
        mj_cache_size_mb = md_cache_size_mb arg, mj_flags = 0\<rparr>\<rparr>"
proof -
  let ?t = "''mount image_id='' @ dec (unat (md_image_id arg)) @ '' path='' @ path @
      '' mount='' @ md_mount_point arg @ '' cache_mb='' @ dec (unat (md_cache_size_mb arg))"
  have "length ?t < BDFS_MSG_MAX"
    using assms(3) length_dec_u64 [of "md_image_id arg"] length_dec_u32 [of "md_cache_size_mb arg"] by simp
  then have m: "evt_message evt = ?t"
    unfolding assms(5) mount_event_msg_def by (simp only: snprintf_short strscpy_short)
  show ?thesis
    using assms(3,4) parse_mount_msg [OF assms(1,2)]
    unfolding event_job_def mount_event_job_def m by (simp add: event_job_defs)
qed

lemma store_msg_job:
  assumes "scan_word 4095 (st_source_path arg)" "scan_word 4095 dest"
    and "length (st_source_path arg) + length dest \<le> 222"
    and "evt_type evt = BDFS_EVT_IMAGE_IMPORTED"
    and "evt_message evt = strscpy BDFS_MSG_MAX (store_event_msg arg dest)"
  shows "event_job evt = Some
    \<lparr>job_partition_uuid = zero_uuid, job_object_id = 0,
     job_body = BDFS_JOB_STORE_IMAGE
       \<lparr>sj_source_path = st_source_path arg, sj_dest_path = dest, sj_flags = st_flags arg\<rparr>\<rparr>"
proof -
  let ?t = "''store src='' @ st_source_path arg @ '' dest='' @ dest @ '' flags=0x'' @ hex (unat (st_flags arg))"
  have "length ?t < BDFS_MSG_MAX"
    using assms(3) length_hex_u32 [of "st_flags arg"] by simp
  then have m: "evt_message evt = ?t"
    unfolding assms(5) store_event_msg_def by (simp only: snprintf_short strscpy_short)
  show ?thesis
    using assms(3,4) parse_store_msg [OF assms(1,2)]
    unfolding event_job_def imported_event_job_def m by (simp add: event_job_defs)
qed

lemma import_msg_job:
  assumes "scan_word 255 (im_subvol_name arg)" "scan_word 4095 (im_btrfs_mount arg)"
    and "length (im_subvol_name arg) + length (im_btrfs_mount arg) \<le> 187"
    and "evt_type evt = BDFS_EVT_IMAGE_IMPORTED"
    and "evt_message evt = strscpy BDFS_MSG_MAX (import_event_msg arg)"
  shows "event_job evt = Some
    \<lparr>job_partition_uuid = evt_partition_uuid evt, job_object_id = im_image_id arg,
     job_body = BDFS_JOB_IMPORT_FROM_DWARFS (zero_import_job\<lparr>
       ij_subvol_name := im_subvol_name arg, ij_btrfs_mount := im_btrfs_mount arg,
       ij_flags := im_flags arg\<rparr>)\<rparr>"
proof -
  let ?t = "''import image_id='' @ dec (unat (im_image_id arg)) @ '' subvol='' @ im_subvol_name arg @
      '' btrfs='' @ im_btrfs_mount arg @ '' flags=0x'' @ hex (unat (im_flags arg))"
  have "length ?t < BDFS_MSG_MAX"
    using assms(3) length_dec_u64 [of "im_image_id arg"] length_hex_u32 [of "im_flags arg"] by simp
  then have m: "evt_message evt = ?t"
    unfolding assms(5) import_event_msg_def by (simp only: snprintf_short strscpy_short)
  show ?thesis
    using assms(1,3,4) parse_import_msg [OF assms(1,2)]
    unfolding event_job_def imported_event_job_def m by (simp add: event_job_defs)
qed

lemma conv_s32_u8: "conv_s32 False (unat (b :: u8)) = 0 \<longleftrightarrow> b = 0"
proof -
  have "unat b < 2 ^ 8" using unsigned_less [of b] by simp
  then have "unat (of_nat (min (unat b) (2 ^ 63 - 1)) :: u32) = unat b"
    by (simp add: min_def unsigned_ucast_eq take_bit_nat_eq_self)
  then show ?thesis by (auto simp: conv_s32_def unat_eq_zero)
qed

lemma snapshot_msg_job:
  assumes "scan_word 255 (sc_snapshot_name arg)"
    and "length (sc_snapshot_name arg) \<le> 190"
    and "evt_type evt = BDFS_EVT_SNAPSHOT_CREATED"
    and "evt_message evt = strscpy BDFS_MSG_MAX (snapshot_event_msg arg readonly)"
  shows "event_job evt = Some
    \<lparr>job_partition_uuid = evt_partition_uuid evt, job_object_id = sc_image_id arg,
     job_body = BDFS_JOB_SNAPSHOT_CONTAINER
       \<lparr>nj_subvol_path = [], nj_snapshot_path = sc_snapshot_name arg,
        nj_flags = (if readonly \<noteq> 0 then BDFS_SNAP_READONLY else 0)\<rparr>\<rparr>"
proof -
  let ?t = "''snapshot image_id='' @ dec (unat (sc_image_id arg)) @ '' snap='' @ sc_snapshot_name arg @
      '' readonly='' @ dec (unat readonly)"
  have "unat readonly < 2 ^ 8" using unsigned_less [of readonly] by simp
  then have "unat readonly < 10 ^ 3" by simp
  then have "length (dec (unat readonly)) \<le> 3" by (rule length_dec) simp
  then have "length ?t < BDFS_MSG_MAX"
    using assms(2) length_dec_u64 [of "sc_image_id arg"] by simp
  then have m: "evt_message evt = ?t"
    unfolding assms(4) snapshot_event_msg_def by (simp only: snprintf_short strscpy_short)
  show ?thesis
    using assms(2,3) parse_snapshot_msg [OF assms(1)]
    unfolding event_job_def snapshot_event_job_def m by (simp add: event_job_defs conv_s32_u8)
qed

lemma copyup_msg_job:
  assumes "scan_word 4095 lower" "scan_word 4095 upper" "CHR ''='' \<notin> set lower"
    and "length lower + length upper \<le> 228"
    and "evt_type evt = BDFS_EVT_COPYUP_NEEDED"
    and "evt_message evt = strscpy BDFS_MSG_MAX (copyup_event_msg lower upper)"
  shows "event_job evt = Some (bdfs_job_alloc (BDFS_JOB_PROMOTE_COPYUP
    \<lparr>pj_btrfs_uuid = evt_partition_uuid evt, pj_inode_no = evt_object_id evt,
     pj_lower_path = lower, pj_upper_path = upper\<rparr>))"
proof -
  let ?t = "''copyup_needed lower='' @ lower @ '' upper='' @ upper"
  have "length ?t < BDFS_MSG_MAX" using assms(4) by simp
  then have m: "evt_message evt = ?t"
    unfolding assms(6) copyup_event_msg_def by (simp only: snprintf_short strscpy_short)
  have "lower \<noteq> []" "upper \<noteq> []" using assms by (auto simp: scan_word_def)
  then show ?thesis
    using assms(4,5) copyup_field_lower [OF assms(1)] copyup_field_upper [OF assms(2,3)]
    unfolding event_job_def copyup_event_job_def m by (simp add: bdfs_job_alloc_def)
qed

end
