(* ===== verification/Bdfs_Policy.thy ===== *)
theory Bdfs_Policy
  imports Bdfs_Btrfs_Part Bdfs_Jobs
begin

text \<open>
  The auto-demote engine (\<open>bdfs_policy.h\<close>, \<open>bdfs_policy.c\<close>): the table of rules, the test
  whether a subvolume falls under a rule, the scan that lists the subvolumes of a rule's
  partition through the control device and queues an export job for each one that matches,
  and the background thread.  What the system answers during a scan is a record
  \<open>policy_env\<close>.  A scan that reads past the end of its buffer, or whose ioctl does not come
  back from the kernel, is \<open>None\<close>.
\<close>

section \<open>Rules and engine\<close>

record bdfs_policy_rule =
  pr_rule_id :: u64
  pr_partition_uuid :: uuid
  pr_age_days :: u32
  pr_min_size_bytes :: u64
  pr_name_pattern :: string
  pr_compression :: u32
  pr_readonly :: bool
  pr_delete_after_demote :: bool
  pr_enabled :: bool

record bdfs_policy_engine =
  pe_rules :: "bdfs_policy_rule list"
  pe_next_rule_id :: u64
  pe_scan_interval_s :: u32
  pe_running :: bool
  pe_total_demotes :: u64
  pe_total_bytes_freed :: u64
  pe_last_scan_time :: int

abbreviation (input) BDFS_POLICY_DEFAULT_INTERVAL_S :: u32 where
  "BDFS_POLICY_DEFAULT_INTERVAL_S \<equiv> 3600"

section \<open>The system during a scan\<close>

text \<open>
  The time, its \<open>strftime\<close> form, \<open>fnmatch\<close>, the times of \<open>stat\<close>, and what the size of a
  subvolume is read from: whether its directory opens, the inode lookup, the items of the
  quota tree, and the files that \<open>nftw\<close> visits with their type and \<open>st_blocks\<close>.  The list
  ioctl and the allocations may answer differently for each rule, for the first and the
  second call, and for each subvolume.
\<close>

record policy_env =
  pv_now :: int
  pv_stamp :: string
  pv_fnmatch :: "string \<Rightarrow> string \<Rightarrow> bool"
  pv_stat :: "string \<Rightarrow> (int \<times> int) option"
  pv_opendir :: "string \<Rightarrow> bool"
  pv_ino_lookup :: "string \<Rightarrow> u64 option"
  pv_quota_items :: "string \<Rightarrow> u64 \<Rightarrow> (u32 \<times> u64) list option"
  pv_walk :: "string \<Rightarrow> (bool \<times> u64) list"
  pv_list :: "nat \<Rightarrow> bool \<Rightarrow> bdfs_ioctl_list_btrfs_subvols \<Rightarrow> unit kres \<times> bdfs_btrfs_subvol list_out"
  pv_calloc :: "nat \<Rightarrow> bool \<Rightarrow> bool"
  pv_job_alloc :: "nat \<Rightarrow> nat \<Rightarrow> bool"

section \<open>Age and size of a subvolume\<close>

definition subvol_last_access :: "policy_env \<Rightarrow> string \<Rightarrow> int" where
  "subvol_last_access pv path =
     (case pv_stat pv path of
        None \<Rightarrow> 0
      | Some (st_atime, st_mtime) \<Rightarrow> if st_atime > st_mtime then st_atime else st_mtime)"

definition btrfs_get_subvol_id :: "policy_env \<Rightarrow> string \<Rightarrow> u64" where
  "btrfs_get_subvol_id pv path = (case pv_ino_lookup pv path of None \<Rightarrow> 0 | Some treeid \<Rightarrow> treeid)"

abbreviation (input) BTRFS_QGROUP_INFO_KEY :: u32 where "BTRFS_QGROUP_INFO_KEY \<equiv> 242"

text \<open>\<open>UINT64_MAX\<close> is \<open>- 1\<close>.\<close>

definition btrfs_qgroup_exclusive :: "policy_env \<Rightarrow> string \<Rightarrow> u64 \<Rightarrow> u64" where
  "btrfs_qgroup_exclusive pv path subvol_id =
     (case pv_quota_items pv path subvol_id of
        None \<Rightarrow> - 1
      | Some [] \<Rightarrow> - 1
      | Some ((type, excl) # _) \<Rightarrow> if type \<noteq> BTRFS_QGROUP_INFO_KEY then - 1 else excl)"

definition walk_add_size :: "bool \<times> u64 \<Rightarrow> u64 \<Rightarrow> u64" where
  "walk_add_size sb acc = (case sb of (isreg, st_blocks) \<Rightarrow> if isreg then acc + st_blocks * 512 else acc)"

definition subvol_size_bytes :: "policy_env \<Rightarrow> string \<Rightarrow> u64" where
  "subvol_size_bytes pv path =
     (let walk = fold walk_add_size (pv_walk pv path) 0;
          subvol_id = btrfs_get_subvol_id pv path;
          excl = btrfs_qgroup_exclusive pv path subvol_id
      in if pv_opendir pv path \<and> subvol_id \<noteq> 0 \<and> excl \<noteq> - 1 then excl else walk)"

text \<open>
  The source compares \<open>difftime(now, last_access) / 86400.0\<close> with the threshold as doubles.
  For times below \<open>2 ^ 53\<close> the difference is exact, and a quotient that is not a whole
  number of days is at least \<open>1 / 86400\<close> away from one, more than the rounding for
  thresholds below \<open>2 ^ 32\<close>; so the comparison is the one below on whole seconds.
\<close>

definition rule_matches_subvol :: "policy_env \<Rightarrow> bdfs_policy_rule \<Rightarrow> bdfs_btrfs_subvol \<Rightarrow> bool" where
  "rule_matches_subvol pv rule sv =
     (let last_access = subvol_last_access pv (sv_path sv) in
      if \<not> pr_enabled rule then False
      else if pr_name_pattern rule \<noteq> [] \<and> \<not> pv_fnmatch pv (pr_name_pattern rule) (sv_name sv) then False
      else if last_access = 0 then False
      else if pv_now pv - last_access < 86400 * int (unat (pr_age_days rule)) then False
      else if 0 < pr_min_size_bytes rule \<and> subvol_size_bytes pv (sv_path sv) < pr_min_size_bytes rule
        then False
      else True)"

section \<open>Scan\<close>

text \<open>
  A buffer of \<open>cap\<close> zeroed entries after the ioctl wrote \<open>items\<close> into it, read up to
  \<open>count\<close>.
\<close>

definition read_buffer :: "'d \<Rightarrow> u32 \<Rightarrow> u32 \<Rightarrow> 'd list \<Rightarrow> 'd list option" where
  "read_buffer z cap cnt items =
     (if unat cnt \<le> unat cap \<and> length items \<le> unat cap
      then Some (take (unat cnt) (items @ replicate (unat cap - length items) z)) else None)"

definition list_arg :: "bdfs_policy_rule \<Rightarrow> u32 \<Rightarrow> bdfs_ioctl_list_btrfs_subvols" where
  "list_arg rule cap =
     \<lparr>ls_partition_uuid = pr_partition_uuid rule, ls_count = cap, ls_subvols = True\<rparr>"

text \<open>
  The subvolumes the loop goes through; a rule that is passed over has none.  The result of
  the second ioctl is not looked at.
\<close>

definition fetch_subvols :: "policy_env \<Rightarrow> nat \<Rightarrow> bdfs_policy_rule \<Rightarrow> bdfs_btrfs_subvol list option" where
  "fetch_subvols pv k rule =
     (let cap = 64 in
      if \<not> pv_calloc pv k False then Some []
      else case pv_list pv k False (list_arg rule cap) of
        (Inl Oops, _) \<Rightarrow> None
      | (Inl (Eno _), _) \<Rightarrow> Some []
      | (Inr _, out) \<Rightarrow>
          let cnt = (case lo_count out of None \<Rightarrow> cap | Some c \<Rightarrow> c);
              tot = (case lo_total out of None \<Rightarrow> 0 | Some t \<Rightarrow> t)
          in if tot > cap then
               if \<not> pv_calloc pv k True then Some []
               else (case pv_list pv k True (list_arg rule tot) of
                   (Inl Oops, _) \<Rightarrow> None
                 | (_, out2) \<Rightarrow>
                     read_buffer zero_subvol tot (case lo_count out2 of None \<Rightarrow> tot | Some c \<Rightarrow> c) (lo_items out2))
             else read_buffer zero_subvol cap cnt (lo_items out))"

definition demote_image_name :: "policy_env \<Rightarrow> bdfs_btrfs_subvol \<Rightarrow> string" where
  "demote_image_name pv sv = snprintf (BDFS_NAME_MAX + 1) (sv_name sv @ ''_auto_'' @ pv_stamp pv)"

definition demote_job :: "policy_env \<Rightarrow> bdfs_policy_rule \<Rightarrow> bdfs_btrfs_subvol \<Rightarrow> bdfs_job" where
  "demote_job pv rule sv =
     (bdfs_job_alloc (BDFS_JOB_EXPORT_TO_DWARFS (zero_export_job\<lparr>
        xj_subvol_id := sv_subvol_id sv,
        xj_compression := pr_compression rule,
        xj_worker_threads := 2,
        xj_btrfs_mount := strncpy (BDFS_PATH_MAX - 1) (sv_path sv),
        xj_image_name := strncpy BDFS_NAME_MAX (demote_image_name pv sv),
        xj_flags := (if pr_delete_after_demote rule then BDFS_DEMOTE_DELETE_SUBVOL else 0)\<rparr>)))
     \<lparr>job_partition_uuid := pr_partition_uuid rule, job_object_id := sv_subvol_id sv\<rparr>"

text \<open>
  The loops; the state is the daemon's pool, \<open>total_demoted\<close> and \<open>pe->total_demotes\<close>.
  \<open>k\<close> and \<open>i\<close> count the rules and the subvolumes of a rule.
\<close>

record scan_state =
  ss_pool :: "bdfs_job pool"
  ss_total :: int
  ss_demotes :: u64

definition demote :: "bdfs_job \<Rightarrow> scan_state \<Rightarrow> scan_state" where
  "demote job st =
     st\<lparr>ss_pool := bdfs_daemon_enqueue job (ss_pool st), ss_total := ss_total st + 1,
        ss_demotes := ss_demotes st + 1\<rparr>"

fun scan_subvols ::
  "policy_env \<Rightarrow> bdfs_policy_rule \<Rightarrow> nat \<Rightarrow> nat \<Rightarrow> bdfs_btrfs_subvol list \<Rightarrow> scan_state \<Rightarrow> scan_state" where
  "scan_subvols pv rule k i [] st = st"
| "scan_subvols pv rule k i (sv # svs) st =
     scan_subvols pv rule k (Suc i) svs
       (if \<not> rule_matches_subvol pv rule sv then st
        else if \<not> pv_job_alloc pv k i then st
        else demote (demote_job pv rule sv) st)"

fun scan_rules ::
  "policy_env \<Rightarrow> nat \<Rightarrow> bdfs_policy_rule list \<Rightarrow> scan_state \<Rightarrow> scan_state option" where
  "scan_rules pv k [] st = Some st"
| "scan_rules pv k (rule # rules) st =
     (if \<not> pr_enabled rule then scan_rules pv (Suc k) rules st
      else case fetch_subvols pv k rule of
        None \<Rightarrow> None
      | Some svs \<Rightarrow> scan_rules pv (Suc k) rules (scan_subvols pv rule k 0 svs st))"

definition bdfs_policy_scan ::
  "policy_env \<Rightarrow> bdfs_policy_engine \<Rightarrow> bdfs_job pool \<Rightarrow>
   (int \<times> bdfs_policy_engine \<times> bdfs_job pool) option" where
  "bdfs_policy_scan pv pe d =
     map_option (\<lambda>st. (ss_total st,
         pe\<lparr>pe_last_scan_time := pv_now pv, pe_total_demotes := ss_demotes st\<rparr>, ss_pool st))
       (scan_rules pv 0 (pe_rules pe) \<lparr>ss_pool = d, ss_total = 0, ss_demotes = pe_total_demotes pe\<rparr>)"

section \<open>Rule management\<close>

text \<open>The operations of the list of rules.\<close>

definition rules_add :: "bdfs_policy_rule \<Rightarrow> bdfs_policy_engine \<Rightarrow> bdfs_policy_engine" where
  "rules_add rule pe = pe\<lparr>pe_rules := pe_rules pe @ [rule]\<rparr>"

definition rules_del :: "u64 \<Rightarrow> bdfs_policy_engine \<Rightarrow> bdfs_policy_engine" where
  "rules_del rule_id pe = pe\<lparr>pe_rules := remove_first (\<lambda>r. pr_rule_id r = rule_id) (pe_rules pe)\<rparr>"

definition rules_find :: "u64 \<Rightarrow> bdfs_policy_engine \<Rightarrow> bdfs_policy_rule option" where
  "rules_find rule_id pe = List.find (\<lambda>r. pr_rule_id r = rule_id) (pe_rules pe)"

definition engine_add :: "bdfs_policy_rule \<Rightarrow> bdfs_policy_engine \<Rightarrow> bdfs_policy_engine" where
  "engine_add template pe =
     (rules_add (template\<lparr>pr_rule_id := pe_next_rule_id pe, pr_enabled := True\<rparr>) pe)
       \<lparr>pe_next_rule_id := pe_next_rule_id pe + 1\<rparr>"

text \<open>\<open>alloc_ok\<close> says whether \<open>calloc\<close> succeeds.\<close>

definition bdfs_policy_add_rule ::
  "bool \<Rightarrow> bdfs_policy_rule \<Rightarrow> bdfs_policy_engine \<Rightarrow> u64 \<times> bdfs_policy_engine" where
  "bdfs_policy_add_rule alloc_ok template pe =
     (if \<not> alloc_ok then (0, pe) else (pe_next_rule_id pe, engine_add template pe))"

definition bdfs_policy_remove_rule :: "u64 \<Rightarrow> bdfs_policy_engine \<Rightarrow> int \<times> bdfs_policy_engine" where
  "bdfs_policy_remove_rule rule_id pe =
     (case rules_find rule_id pe of
        None \<Rightarrow> (- errno_code ENOENT, pe)
      | Some _ \<Rightarrow> (0, rules_del rule_id pe))"

text \<open>What is written to \<open>out\<close> and to \<open>count_out\<close>.\<close>

definition bdfs_policy_list_rules :: "bdfs_policy_engine \<Rightarrow> u32 \<Rightarrow> bdfs_policy_rule list \<times> u32" where
  "bdfs_policy_list_rules pe capacity =
     (take (unat capacity) (pe_rules pe), of_nat (length (pe_rules pe)))"

section \<open>Lifecycle and the background thread\<close>

text \<open>The result of \<open>pthread_create\<close> is an argument.\<close>

definition bdfs_policy_init :: "int \<Rightarrow> int \<Rightarrow> int \<times> bdfs_policy_engine" where
  "bdfs_policy_init create_ret errno =
     (let pe = \<lparr>pe_rules = [], pe_next_rule_id = 1,
                pe_scan_interval_s = BDFS_POLICY_DEFAULT_INTERVAL_S, pe_running = True,
                pe_total_demotes = 0, pe_total_bytes_freed = 0, pe_last_scan_time = 0\<rparr>
      in if create_ret \<noteq> 0 then (- errno, pe) else (0, pe))"

definition bdfs_policy_shutdown :: "bdfs_policy_engine \<Rightarrow> bdfs_policy_engine" where
  "bdfs_policy_shutdown pe = pe\<lparr>pe_running := False, pe_rules := []\<rparr>"

text \<open>
  Time in seconds; \<open>running t\<close> is the value of \<open>pe->running\<close> at time \<open>t\<close> and \<open>dur t\<close> how long
  a scan that starts at \<open>t\<close> takes.  The inner loop sleeps second by second; the thread
  gives the time at which it returns and the times at which it scanned, or \<open>None\<close> when it
  still runs after \<open>fuel\<close> rounds.
\<close>

function policy_sleep :: "(nat \<Rightarrow> bool) \<Rightarrow> u32 \<Rightarrow> nat \<Rightarrow> u32 \<Rightarrow> nat" where
  "policy_sleep running interval t slept =
     (if slept < interval \<and> running t then policy_sleep running interval (Suc t) (slept + 1) else t)"
  by pat_completeness auto

termination
proof (relation "measure (\<lambda>(_, interval, _, slept). unat interval - unat slept)")
  fix running :: "nat \<Rightarrow> bool" and interval slept :: u32 and t :: nat
  assume "slept < interval \<and> running t"
  then have "slept < interval" by simp
  then have "unat slept < unat interval" and "unat (slept + 1) = Suc (unat slept)"
    by (simp_all add: word_less_nat_alt unat_Suc_below)
  then show "((running, interval, Suc t, slept + 1), (running, interval, t, slept))
      \<in> measure (\<lambda>(_, interval, _, slept). unat interval - unat slept)" by simp
qed simp

declare policy_sleep.simps [simp del]

fun policy_thread ::
  "(nat \<Rightarrow> bool) \<Rightarrow> (nat \<Rightarrow> nat) \<Rightarrow> u32 \<Rightarrow> nat \<Rightarrow> nat \<Rightarrow> nat list \<Rightarrow> (nat \<times> nat list) option" where
  "policy_thread running dur interval 0 t scans = None"
| "policy_thread running dur interval (Suc fuel) t scans =
     (if \<not> running t then Some (t, scans)
      else let t1 = policy_sleep running interval t 0
           in if \<not> running t1 then Some (t1, scans)
              else policy_thread running dur interval fuel (t1 + dur t1) (scans @ [t1]))"


section \<open>What a scan queues\<close>

text \<open>The jobs of one rule, and of all rules in order.\<close>

definition rule_jobs :: "policy_env \<Rightarrow> nat \<Rightarrow> nat \<Rightarrow> bdfs_policy_rule \<Rightarrow> bdfs_btrfs_subvol list \<Rightarrow> bdfs_job list" where
  "rule_jobs pv k i rule svs =
     map (\<lambda>(j, sv). demote_job pv rule sv)
       (filter (\<lambda>(j, sv). rule_matches_subvol pv rule sv \<and> pv_job_alloc pv k j) (List.enumerate i svs))"

definition listed :: "policy_env \<Rightarrow> nat \<Rightarrow> bdfs_policy_rule \<Rightarrow> bdfs_btrfs_subvol list" where
  "listed pv k rule = (case fetch_subvols pv k rule of None \<Rightarrow> [] | Some svs \<Rightarrow> svs)"

definition scan_jobs :: "policy_env \<Rightarrow> nat \<Rightarrow> bdfs_policy_rule list \<Rightarrow> bdfs_job list" where
  "scan_jobs pv k rules =
     concat (map (\<lambda>(k, rule). rule_jobs pv k 0 rule (listed pv k rule))
       (filter (\<lambda>(k, rule). pr_enabled rule) (List.enumerate k rules)))"

definition scan_faults :: "policy_env \<Rightarrow> nat \<Rightarrow> bdfs_policy_rule list \<Rightarrow> bool" where
  "scan_faults pv k rules \<longleftrightarrow>
     (\<exists>(k, rule) \<in> set (List.enumerate k rules). pr_enabled rule \<and> fetch_subvols pv k rule = None)"

definition enqueue_all :: "'j list \<Rightarrow> 'j pool \<Rightarrow> 'j pool" where
  "enqueue_all jobs d = d\<lparr>pl_queue := pl_queue d @ jobs, pl_accepted := pl_accepted d @ jobs\<rparr>"

text \<open>The kernel's list ioctl, in any state at each call.\<close>

definition kernel_list ::
  "(nat \<Rightarrow> bool \<Rightarrow> kenv) \<Rightarrow> (nat \<Rightarrow> bool \<Rightarrow> 'z kstate_scheme) \<Rightarrow> policy_env \<Rightarrow> policy_env" where
  "kernel_list envs ks pv = pv\<lparr>pv_list := \<lambda>k again arg. bdfs_btrfs_list_subvols (envs k again) arg (ks k again)\<rparr>"

section \<open>Lemmas\<close>

interpretation rule_table: keyed_store pr_rule_id pe_rules rules_add rules_del rules_find
  by unfold_locales (simp_all add: rules_add_def rules_del_def rules_find_def)

interpretation rule_ids: id_alloc "\<lambda>pe. map pr_rule_id (pe_rules pe)" pe_next_rule_id engine_add
  by unfold_locales (simp_all add: engine_add_def rules_add_def)

lemma enqueue_all_Nil [simp]: "enqueue_all [] d = d"
  by (simp add: enqueue_all_def)

lemma enqueue_all_Cons: "enqueue_all (j # js) d = enqueue_all js (bdfs_daemon_enqueue j d)"
  by (simp add: enqueue_all_def bdfs_daemon_enqueue_def)

lemma enqueue_all_append: "enqueue_all (xs @ ys) d = enqueue_all ys (enqueue_all xs d)"
  by (simp add: enqueue_all_def)

lemma fold_demote:
  "fold demote js st =
    st\<lparr>ss_pool := enqueue_all js (ss_pool st), ss_total := ss_total st + int (length js),
       ss_demotes := ss_demotes st + of_nat (length js)\<rparr>"
  by (induction js arbitrary: st) (simp_all add: demote_def enqueue_all_Cons)

lemma scan_subvols_jobs: "scan_subvols pv rule k i svs st = fold demote (rule_jobs pv k i rule svs) st"
  by (induction svs arbitrary: i st) (simp_all add: rule_jobs_def)

lemma scan_rules_jobs:
  "scan_rules pv k rules st =
     (if scan_faults pv k rules then None else Some (fold demote (scan_jobs pv k rules) st))"
proof (induction rules arbitrary: k st)
  case Nil
  then show ?case by (simp add: scan_faults_def scan_jobs_def)
next
  case (Cons rule rules)
  have f: "scan_faults pv k (rule # rules) \<longleftrightarrow>
      pr_enabled rule \<and> fetch_subvols pv k rule = None \<or> scan_faults pv (Suc k) rules"
    by (auto simp: scan_faults_def)
  have j: "scan_jobs pv k (rule # rules) =
      (if pr_enabled rule then rule_jobs pv k 0 rule (listed pv k rule) else []) @ scan_jobs pv (Suc k) rules"
    by (simp add: scan_jobs_def)
  show ?case
    by (simp add: f j Cons.IH scan_subvols_jobs listed_def split: option.split)
qed

lemma rule_jobsD:
  "j \<in> set (rule_jobs pv k i rule svs) \<Longrightarrow>
   \<exists>sv \<in> set svs. j = demote_job pv rule sv \<and> rule_matches_subvol pv rule sv"
  by (auto simp: rule_jobs_def in_set_enumerate_eq intro!: bexI [of _ "svs ! (_ - i)"])

lemma scan_jobsD:
  assumes "j \<in> set (scan_jobs pv k rules)"
  shows "\<exists>k' rule sv. rule \<in> set rules \<and> pr_enabled rule \<and> sv \<in> set (listed pv k' rule) \<and>
    j = demote_job pv rule sv \<and> rule_matches_subvol pv rule sv"
proof -
  from assms obtain k' rule where r: "(k', rule) \<in> set (List.enumerate k rules)" "pr_enabled rule"
      "j \<in> set (rule_jobs pv k' 0 rule (listed pv k' rule))"
    by (auto simp: scan_jobs_def)
  then have "rule \<in> set rules" by (auto simp: in_set_enumerate_eq)
  with r(2) rule_jobsD [OF r(3)] show ?thesis by blast
qed

text \<open>What a match says of the subvolume.\<close>

lemma rule_matches_iff:
  "rule_matches_subvol pv rule sv \<longleftrightarrow>
     pr_enabled rule \<and> (pr_name_pattern rule = [] \<or> pv_fnmatch pv (pr_name_pattern rule) (sv_name sv)) \<and>
     (\<exists>a m. pv_stat pv (sv_path sv) = Some (a, m) \<and> max a m \<noteq> 0 \<and>
        86400 * int (unat (pr_age_days rule)) \<le> pv_now pv - max a m) \<and>
     (pr_min_size_bytes rule = 0 \<or> pr_min_size_bytes rule \<le> subvol_size_bytes pv (sv_path sv))"
proof -
  have "subvol_last_access pv (sv_path sv) = (case pv_stat pv (sv_path sv) of None \<Rightarrow> 0 | Some (a, m) \<Rightarrow> max a m)"
    by (simp add: subvol_last_access_def max_def split: option.split)
  then show ?thesis
    by (cases "pv_stat pv (sv_path sv)") (auto simp: rule_matches_subvol_def Let_def not_less word_neq_0_conv)
qed

section \<open>The kernel's list ioctl stays within the buffer\<close>

lemma list_loop_bound:
  "list_loop env cnt ubuf ds out copied tot = (f, out', c', t') \<Longrightarrow> copied \<le> cnt \<Longrightarrow>
   length out = unat copied \<Longrightarrow> c' \<le> cnt \<and> length out' = unat c'"
proof (induction ds arbitrary: out copied tot)
  case (Cons d ds)
  show ?case
  proof (cases "copied < cnt \<and> ubuf \<and> \<not> uaccess_fail env (UBuf (unat copied))")
    case True
    then have "copied < cnt" by simp
    then have "copied + 1 \<le> cnt" "unat (copied + 1) = Suc (unat copied)"
      by (simp_all add: inc_le unat_Suc_below)
    then show ?thesis using Cons.IH [of "out @ [d]" "copied + 1" "tot + 1"] Cons.prems True by (simp add: Let_def)
  next
    case False
    then show ?thesis
      using Cons.IH [of out copied "tot + 1"] Cons.prems by (auto simp: Let_def split: if_splits)
  qed
qed auto

lemma list_ioctl_bound:
  assumes "list_ioctl env cnt ubuf ds = (r, out)"
  shows "length (lo_items out) \<le> unat cnt \<and> (\<forall>c. lo_count out = Some c \<longrightarrow> c \<le> cnt)"
proof -
  obtain f o' c t where l: "list_loop env cnt ubuf ds [] 0 0 = (f, o', c, t)" by (metis prod_cases4)
  have "c \<le> cnt \<and> length o' = unat c" using list_loop_bound [OF l] by simp
  moreover from this have "length o' \<le> unat cnt" by (simp add: word_le_nat_alt)
  ultimately show ?thesis using assms l by (auto simp: list_ioctl_def Let_def split: if_splits)
qed

lemma list_subvols_bound:
  assumes "bdfs_btrfs_list_subvols env (list_arg rule cap) s = (r, out)"
  shows "length (lo_items out) \<le> unat cap \<and> (\<forall>c. lo_count out = Some c \<longrightarrow> c \<le> cap)"
  using assms list_ioctl_bound
  by (fastforce simp: bdfs_btrfs_list_subvols_def list_arg_def no_list_out_def
      split: if_splits option.splits part_priv.splits)

lemma list_subvols_no_oops:
  assumes "kernel_inv s"
    and "\<And>e. bdfs_find_partition_locked (pr_partition_uuid rule) s = Some e \<Longrightarrow>
      part_type (ent_desc e) = BDFS_PART_BTRFS_BACKED"
  shows "fst (bdfs_btrfs_list_subvols env (list_arg rule cap) s) \<noteq> Inl Oops"
proof (cases "bdfs_find_partition_locked (pr_partition_uuid rule) s")
  case None
  then show ?thesis by (simp add: bdfs_btrfs_list_subvols_def list_arg_def)
next
  case (Some e)
  then obtain p where "ent_private e = Some (BtrfsPriv p)"
    using entry_ok_btrfs [OF kernel_inv_find [OF assms(1) Some]] assms(2) by blast
  then show ?thesis
    using Some by (auto simp: bdfs_btrfs_list_subvols_def list_arg_def list_ioctl_def Let_def split: prod.splits)
qed

lemma read_buffer_bound:
  "length items \<le> unat cap \<Longrightarrow> cnt \<le> cap \<Longrightarrow> read_buffer z cap cnt items \<noteq> None"
  by (simp add: read_buffer_def word_le_nat_alt)

lemma fetch_kernel_list:
  assumes "\<And>again. kernel_inv (ks k again)"
    and "\<And>again e. bdfs_find_partition_locked (pr_partition_uuid rule) (ks k again) = Some e \<Longrightarrow>
      part_type (ent_desc e) = BDFS_PART_BTRFS_BACKED"
  shows "fetch_subvols (kernel_list envs ks pv) k rule \<noteq> None"
proof -
  let ?l = "\<lambda>again cap. bdfs_btrfs_list_subvols (envs k again) (list_arg rule cap) (ks k again)"
  have no: "fst (?l again cap) \<noteq> Inl Oops" for again cap
    using assms list_subvols_no_oops by blast
  have b: "length (lo_items (snd (?l again cap))) \<le> unat cap"
      "lo_count (snd (?l again cap)) = Some c \<Longrightarrow> c \<le> cap" for again cap c
    using list_subvols_bound [OF surjective_pairing] by blast+
  have r: "read_buffer zero_subvol cap (case lo_count (snd (?l again cap)) of None \<Rightarrow> cap | Some c \<Rightarrow> c)
      (lo_items (snd (?l again cap))) \<noteq> None" for again cap
    using b by (intro read_buffer_bound) (auto split: option.split)
  have second: "(case ?l True tot of (Inl Oops, _) \<Rightarrow> None
      | (_, out2) \<Rightarrow> read_buffer zero_subvol tot (case lo_count out2 of None \<Rightarrow> tot | Some c \<Rightarrow> c) (lo_items out2)) \<noteq> None" for tot
    using no [of True tot] r [of tot True] by (cases "?l True tot") (simp split: sum.split kerr.split)
  obtain r1 out where l: "?l False 64 = (r1, out)" by fastforce
  show ?thesis
  proof (cases r1)
    case (Inl e)
    then show ?thesis using no [of False 64] l
      by (cases e) (simp_all add: fetch_subvols_def kernel_list_def Let_def)
  next
    case (Inr u)
    then show ?thesis using r [of 64 False] l second
      by (simp add: fetch_subvols_def kernel_list_def Let_def)
  qed
qed

section \<open>The background thread\<close>

lemma policy_sleep_ge: "t \<le> policy_sleep running interval t slept"
  by (induction running interval t slept rule: policy_sleep.induct)
    (subst policy_sleep.simps, simp add: Suc_le_eq less_imp_le)

lemma policy_sleep_le:
  "(\<And>u. T \<le> u \<Longrightarrow> \<not> running u) \<Longrightarrow> policy_sleep running interval t slept \<le> max t T"
proof (induction running interval t slept rule: policy_sleep.induct)
  case (1 running interval t slept)
  show ?case
  proof (cases "slept < interval \<and> running t")
    case True
    then have "t < T" using "1.prems" by (meson not_le)
    then show ?thesis using "1.IH" [OF True "1.prems"] True by (subst policy_sleep.simps) simp
  next
    case False
    then show ?thesis by (subst policy_sleep.simps) auto
  qed
qed

lemma policy_sleep_full:
  "running (policy_sleep running interval t slept) \<Longrightarrow> slept \<le> interval \<Longrightarrow>
   policy_sleep running interval t slept = t + (unat interval - unat slept)"
proof (induction running interval t slept rule: policy_sleep.induct)
  case (1 running interval t slept)
  show ?case
  proof (cases "slept < interval \<and> running t")
    case True
    then have "slept < interval" by simp
    then have "slept + 1 \<le> interval" "unat slept < unat interval" "unat (slept + 1) = Suc (unat slept)"
      by (simp_all add: inc_le unat_Suc_below word_less_nat_alt)
    then show ?thesis using "1.IH" [OF True] "1.prems"(1) True policy_sleep.simps [of running interval t slept] by simp
  next
    case False
    then have "policy_sleep running interval t slept = t" by (subst policy_sleep.simps) auto
    moreover from this have "interval \<le> slept" using False "1.prems"(1) by auto
    ultimately show ?thesis using "1.prems"(2) by simp
  qed
qed

lemma policy_thread_ends:
  assumes "\<And>u. T \<le> u \<Longrightarrow> \<not> running u" and "0 < interval" and "\<And>u. dur u \<le> D"
  shows "T - t < fuel \<Longrightarrow> t \<le> T + D \<Longrightarrow>
    \<exists>t' sc'. policy_thread running dur interval fuel t sc = Some (t', sc @ sc') \<and> t' \<le> T + D \<and>
      (\<forall>u \<in> set sc'. t + unat interval \<le> u \<and> u < T) \<and> sorted_wrt (\<lambda>x y. x + unat interval \<le> y) sc'"
proof (induction fuel arbitrary: t sc)
  case (Suc fuel)
  let ?t1 = "policy_sleep running interval t 0"
  have le: "?t1 \<le> max t T" by (rule policy_sleep_le [OF assms(1)])
  show ?case
  proof (cases "running t \<and> running ?t1")
    case False
    then show ?thesis using Suc.prems le by (auto simp: Let_def)
  next
    case True
    have u: "?t1 = t + unat interval" using policy_sleep_full [of running interval t 0] True by simp
    have i: "0 < unat interval" using assms(2) by (simp add: word_less_nat_alt)
    have T: "?t1 < T" using True assms(1) not_le by blast
    have p: "T - (?t1 + dur ?t1) < fuel" "?t1 + dur ?t1 \<le> T + D"
      using Suc.prems(1) u i T assms(3) [of ?t1] by linarith+
    obtain t' sc' where ih: "policy_thread running dur interval fuel (?t1 + dur ?t1) (sc @ [?t1]) = Some (t', (sc @ [?t1]) @ sc')"
        "t' \<le> T + D" "\<forall>u \<in> set sc'. ?t1 + dur ?t1 + unat interval \<le> u \<and> u < T"
        "sorted_wrt (\<lambda>x y. x + unat interval \<le> y) sc'"
      using Suc.IH [OF p, of "sc @ [?t1]"] by blast
    show ?thesis
    proof (intro exI conjI)
      show "policy_thread running dur interval (Suc fuel) t sc = Some (t', sc @ ?t1 # sc')"
        using True ih(1) by (simp add: Let_def)
      show "\<forall>u \<in> set (?t1 # sc'). t + unat interval \<le> u \<and> u < T"
        using ih(3) u T by fastforce
      show "sorted_wrt (\<lambda>x y. x + unat interval \<le> y) (?t1 # sc')"
        using ih(3,4) by (fastforce simp del: policy_sleep.simps)
    qed (rule ih(2))
  qed
qed simp

section \<open>Jobs of the engine\<close>

text \<open>An export that succeeds has renamed its image to the path that the job names.\<close>

lemma export_renamed_wp:
  "wp (bdfs_job_export_to_dwarfs env cfg j)
     (\<lambda>r s'. r = 0 \<longrightarrow> (\<exists>a. (Sc_rename (tmp_image cfg j) (xj_image_path j), a) \<in> set (new_calls s s') \<and> \<not> failed a)) s"
  unfolding export_defs
  by (intro wp_rules) (auto simp: mkdir_fails_def new_calls_def)

end
