(* ===== verification/Bdfs_Socket.thy ===== *)
theory Bdfs_Socket
  imports Bdfs_Policy
begin

text \<open>
  The daemon as a whole (\<open>struct bdfs_daemon\<close>) and its Unix socket (\<open>bdfs_socket.c\<close>): one
  request is read, dispatched by searching for quoted command words, and answered with a
  line of JSON.  A request is the text received up to its first NUL.  The result is the
  response, if one is sent, and the new state; reading past the array of rules, or writing
  past the response buffer, is \<open>None\<close>.
\<close>

section \<open>The daemon\<close>

record bdfs_daemon =
  dm_worker_count :: int
  dm_pool :: "bdfs_job pool"
  dm_sys :: dsys
  dm_policy :: "bdfs_policy_engine option"

text \<open>What the system answers while a request is served.\<close>

record client_env =
  ce_policy :: policy_env
  ce_rule_alloc :: bool

abbreviation (input) BDFS_SOCK_BUFSIZE :: nat where "BDFS_SOCK_BUFSIZE \<equiv> 65536"

definition newline :: string where
  "newline = [CHR 0x0A]"

definition json_bool :: "bool \<Rightarrow> string" where
  "json_bool b = (if b then ''true'' else ''false'')"

text \<open>The text after the first occurrence of a key.\<close>

definition after_key :: "string \<Rightarrow> string \<Rightarrow> string option" where
  "after_key req key = map_option (drop (length key)) (strstr req key)"

definition has_word :: "string \<Rightarrow> string \<Rightarrow> bool" where
  "has_word req w \<longleftrightarrow> strstr req w \<noteq> None"

section \<open>Requests\<close>

definition status_response :: "bdfs_daemon \<Rightarrow> string" where
  "status_response d =
     (let (total_demotes, last_scan) =
        (case dm_policy d of None \<Rightarrow> (0, 0) | Some pe \<Rightarrow> (pe_total_demotes pe, pe_last_scan_time pe))
      in snprintf BDFS_SOCK_BUFSIZE
        (''{\"status\":0,\"data\":{\"workers\":'' @ sdec (dm_worker_count d) @
         '',\"queue_depth\":'' @ dec (length (pl_queue (dm_pool d))) @
         '',\"active_mounts\":'' @ dec (bdfs_mount_count (dm_sys d)) @
         '',\"policy_demotes\":'' @ dec (unat total_demotes) @
         '',\"policy_last_scan\":'' @ sdec last_scan @ ''}}'' @ newline))"

text \<open>
  The fields of a rule.  The partition is looked up in the request, copied to a local
  variable and not used.
\<close>

definition parse_pattern :: "string \<Rightarrow> string" where
  "parse_pattern req =
     (case after_key req ''\"name_pattern\":\"'' of
        None \<Rightarrow> []
      | Some p \<Rightarrow>
          (case strchr p (CHR 0x22) of
             None \<Rightarrow> []
           | Some e \<Rightarrow> let len = length p - length e in strncpy (if 256 \<le> len then 255 else len) p))"

definition parse_rule :: "string \<Rightarrow> bdfs_policy_rule" where
  "parse_rule req =
     \<lparr>pr_rule_id = 0, pr_partition_uuid = zero_uuid,
      pr_age_days = (case after_key req ''\"age_days\":'' of None \<Rightarrow> 0 | Some p \<Rightarrow> atoi_u32 p),
      pr_min_size_bytes = (case after_key req ''\"min_size_bytes\":'' of None \<Rightarrow> 0 | Some p \<Rightarrow> strtoull10 p),
      pr_name_pattern = parse_pattern req,
      pr_compression = BDFS_COMPRESS_ZSTD,
      pr_readonly = has_word req ''\"readonly\":true'',
      pr_delete_after_demote = has_word req ''\"delete_after_demote\":true'',
      pr_enabled = True\<rparr>"

definition client_policy_add :: "client_env \<Rightarrow> string \<Rightarrow> bdfs_daemon \<Rightarrow> string \<times> bdfs_daemon" where
  "client_policy_add env req d =
     (let rule = parse_rule req;
          refused = (snprintf BDFS_SOCK_BUFSIZE
            (''{\"status\":-22,\"error\":\"invalid rule or policy engine not running\"}'' @ newline), d)
      in case dm_policy d of
           None \<Rightarrow> refused
         | Some pe \<Rightarrow>
             if 0 < pr_age_days rule then
               let (id, pe') = bdfs_policy_add_rule (ce_rule_alloc env) rule pe
               in (snprintf BDFS_SOCK_BUFSIZE
                     (''{\"status\":0,\"data\":{\"rule_id\":'' @ dec (unat id) @ ''}}'' @ newline),
                   d\<lparr>dm_policy := Some pe'\<rparr>)
             else refused)"

definition client_policy_remove :: "string \<Rightarrow> bdfs_daemon \<Rightarrow> string \<times> bdfs_daemon" where
  "client_policy_remove req d =
     (let rule_id = (case after_key req ''\"rule_id\":'' of None \<Rightarrow> 0 | Some p \<Rightarrow> strtoull10 p);
          refused = (snprintf BDFS_SOCK_BUFSIZE
            (''{\"status\":-22,\"error\":\"invalid rule_id\"}'' @ newline), d)
      in case dm_policy d of
           None \<Rightarrow> refused
         | Some pe \<Rightarrow>
             if 0 < rule_id then
               let (r, pe') = bdfs_policy_remove_rule rule_id pe
               in (snprintf BDFS_SOCK_BUFSIZE (''{\"status\":'' @ sdec r @ ''}'' @ newline),
                   d\<lparr>dm_policy := Some pe'\<rparr>)
             else refused)"

section \<open>The list of rules\<close>

definition rule_json :: "nat \<Rightarrow> bdfs_policy_rule \<Rightarrow> string" where
  "rule_json i rule =
     (if i \<noteq> 0 then '','' else []) @ ''{\"id\":'' @ dec (unat (pr_rule_id rule)) @
     '',\"age_days\":'' @ dec (unat (pr_age_days rule)) @
     '',\"pattern\":\"'' @ pr_name_pattern rule @
     ''\",\"compression\":\"zstd\",\"delete_after\":'' @ json_bool (pr_delete_after_demote rule) @
     '',\"enabled\":'' @ json_bool (pr_enabled rule) @ ''}''"

text \<open>
  The loop from \<open>i\<close> on, \<open>n\<close> rules still to print and \<open>rem\<close> bytes left: the text printed and
  the bytes left at the end.  \<open>rules\<close> are the entries that were copied into the array of 64.
  A print longer than \<open>rem\<close> moves the position past the buffer and lets \<open>rem\<close> wrap.
\<close>

fun emit_rules :: "bdfs_policy_rule list \<Rightarrow> nat \<Rightarrow> nat \<Rightarrow> nat \<Rightarrow> (string \<times> nat) option" where
  "emit_rules rules i 0 rem = Some ([], rem)"
| "emit_rules rules i (Suc n) rem =
     (if rem \<le> 2 then Some ([], rem)
      else if length rules \<le> i then None
      else let t = rule_json i (rules ! i)
           in if rem < length t then None
              else map_option (\<lambda>(u, rem'). (snprintf rem t @ u, rem'))
                     (emit_rules rules (Suc i) n (rem - length t)))"

definition policy_list_text :: "bdfs_policy_engine \<Rightarrow> string option" where
  "policy_list_text pe =
     (let (rules, cnt) = bdfs_policy_list_rules pe 64;
          h = ''{\"status\":0,\"data\":{\"rules\":['';
          rem = BDFS_SOCK_BUFSIZE - length h
      in map_option (\<lambda>(u, rem'). snprintf BDFS_SOCK_BUFSIZE h @ u @ snprintf rem' ('']}}'' @ newline))
           (emit_rules rules 0 (unat cnt) rem))"

definition client_policy_list :: "bdfs_daemon \<Rightarrow> string option" where
  "client_policy_list d =
     (case dm_policy d of
        None \<Rightarrow> Some (snprintf BDFS_SOCK_BUFSIZE (''{\"status\":0,\"data\":{\"rules\":[]}}'' @ newline))
      | Some pe \<Rightarrow> policy_list_text pe)"

definition client_policy_scan :: "client_env \<Rightarrow> bdfs_daemon \<Rightarrow> (string \<times> bdfs_daemon) option" where
  "client_policy_scan env d =
     (case dm_policy d of
        None \<Rightarrow> Some (snprintf BDFS_SOCK_BUFSIZE
          (''{\"status\":-1,\"error\":\"policy engine not running\"}'' @ newline), d)
      | Some pe \<Rightarrow>
          map_option (\<lambda>(demoted, pe', pool').
              (snprintf BDFS_SOCK_BUFSIZE
                 (''{\"status\":0,\"data\":{\"demotes_queued\":'' @ sdec demoted @ ''}}'' @ newline),
               d\<lparr>dm_policy := Some pe', dm_pool := pool'\<rparr>))
            (bdfs_policy_scan (ce_policy env) pe (dm_pool d)))"

section \<open>Dispatch\<close>

definition client_dispatch :: "client_env \<Rightarrow> string \<Rightarrow> bdfs_daemon \<Rightarrow> (string \<times> bdfs_daemon) option" where
  "client_dispatch env req d =
     (if has_word req ''\"list-partitions\"'' then
        Some (snprintf BDFS_SOCK_BUFSIZE (''{\"status\":0,\"data\":{\"note\":\"use ioctl\"}}'' @ newline), d)
      else if has_word req ''\"status\"'' then Some (status_response d, d)
      else if has_word req ''\"ping\"'' then
        Some (snprintf BDFS_SOCK_BUFSIZE (''{\"status\":0,\"data\":\"pong\"}'' @ newline), d)
      else if has_word req ''\"policy-add\"'' then Some (client_policy_add env req d)
      else if has_word req ''\"policy-remove\"'' then Some (client_policy_remove req d)
      else if has_word req ''\"policy-list\"'' then map_option (\<lambda>t. (t, d)) (client_policy_list d)
      else if has_word req ''\"policy-scan\"'' then client_policy_scan env d
      else Some (snprintf BDFS_SOCK_BUFSIZE
        (''{\"status\":'' @ sdec (- errno_code ENOSYS) @ '',\"error\":\"unknown command\"}'' @ newline), d))"

text \<open>\<open>received\<close> is what \<open>recv\<close> gives, at most one byte less than the buffer; \<open>None\<close> on failure.\<close>

definition bdfs_handle_client ::
  "client_env \<Rightarrow> string option \<Rightarrow> bdfs_daemon \<Rightarrow> (string option \<times> bdfs_daemon) option" where
  "bdfs_handle_client env received d =
     (case received of
        None \<Rightarrow> Some (None, d)
      | Some msg \<Rightarrow>
          if msg = [] then Some (None, d)
          else let req = takeWhile (\<lambda>c. c \<noteq> CHR 0x00) (take (BDFS_SOCK_BUFSIZE - 1) msg)
               in map_option (\<lambda>(resp, d'). (Some resp, d')) (client_dispatch env req d))"

text \<open>\<open>accept4\<close> gives a client, or fails.\<close>

definition bdfs_socket_loop ::
  "client_env \<Rightarrow> string option option \<Rightarrow> bdfs_daemon \<Rightarrow> (string option \<times> bdfs_daemon) option" where
  "bdfs_socket_loop env client d =
     (case client of None \<Rightarrow> Some (None, d) | Some received \<Rightarrow> bdfs_handle_client env received d)"

text \<open>The states a daemon reaches by serving requests, each under its own system.\<close>

inductive client_step :: "bdfs_daemon \<Rightarrow> bdfs_daemon \<Rightarrow> bool" where
  "bdfs_handle_client env received d = Some (resp, d') \<Longrightarrow> client_step d d'"

text \<open>The rules of a daemon that was told its rules by clients.\<close>

definition rules_without_partition :: "bdfs_daemon \<Rightarrow> bool" where
  "rules_without_partition d \<longleftrightarrow>
     (\<forall>pe rule. dm_policy d = Some pe \<longrightarrow> rule \<in> set (pe_rules pe) \<longrightarrow> pr_partition_uuid rule = zero_uuid)"

section \<open>The list of rules fits the buffer\<close>

definition rules_text :: "bdfs_policy_rule list \<Rightarrow> nat \<Rightarrow> nat \<Rightarrow> string" where
  "rules_text rules i n = concat (map (\<lambda>j. rule_json j (rules ! j)) [i..<i + n])"

lemma rules_text_Suc: "rules_text rules i (Suc n) = rule_json i (rules ! i) @ rules_text rules (Suc i) n"
  unfolding rules_text_def by (subst upt_conv_Cons) simp_all

lemma length_rule_json: "length (pr_name_pattern rule) \<le> 255 \<Longrightarrow> length (rule_json i rule) \<le> 400"
  using length_dec_u64 [of "pr_rule_id rule"] length_dec_u32 [of "pr_age_days rule"]
  by (simp add: rule_json_def json_bool_def)

lemma length_rules_text:
  "(\<And>rule. rule \<in> set rules \<Longrightarrow> length (pr_name_pattern rule) \<le> 255) \<Longrightarrow> i + n \<le> length rules \<Longrightarrow>
   length (rules_text rules i n) \<le> 400 * n"
proof (induction n arbitrary: i)
  case 0
  then show ?case by (simp add: rules_text_def)
next
  case (Suc n)
  have "rules ! i \<in> set rules" using Suc.prems(2) by simp
  then have "length (rule_json i (rules ! i)) \<le> 400" using Suc.prems(1) length_rule_json by blast
  moreover have "length (rules_text rules (Suc i) n) \<le> 400 * n" using Suc by simp
  ultimately show ?case by (simp add: rules_text_Suc)
qed

lemma emit_rules_all:
  "i + n \<le> length rules \<Longrightarrow> length (rules_text rules i n) + 2 < rem \<Longrightarrow>
   emit_rules rules i n rem = Some (rules_text rules i n, rem - length (rules_text rules i n))"
proof (induction n arbitrary: i rem)
  case 0
  then show ?case by (simp add: rules_text_def)
next
  case (Suc n)
  then have "emit_rules rules (Suc i) n (rem - length (rule_json i (rules ! i))) =
      Some (rules_text rules (Suc i) n,
        rem - length (rule_json i (rules ! i)) - length (rules_text rules (Suc i) n))"
    by (intro Suc.IH) (simp_all add: rules_text_Suc)
  then show ?case using Suc.prems by (simp add: rules_text_Suc Let_def)
qed

text \<open>With more rules than the array holds, the loop reads past it.\<close>

lemma emit_rules_past:
  "(\<And>rule. rule \<in> set rules \<Longrightarrow> length (pr_name_pattern rule) \<le> 255) \<Longrightarrow> i \<le> length rules \<Longrightarrow>
   length rules < i + n \<Longrightarrow> 400 * (length rules - i) + 2 < rem \<Longrightarrow> emit_rules rules i n rem = None"
proof (induction n arbitrary: i rem)
  case (Suc n)
  show ?case
  proof (cases "i = length rules")
    case True
    then show ?thesis using Suc.prems by simp
  next
    case False
    then have i: "i < length rules" using Suc.prems(2) by simp
    then have "rules ! i \<in> set rules" by simp
    then have l: "length (rule_json i (rules ! i)) \<le> 400" using Suc.prems(1) length_rule_json by blast
    have "length rules - i = Suc (length rules - Suc i)" using i by simp
    then have "400 * (length rules - Suc i) + 2 < rem - length (rule_json i (rules ! i))"
      using Suc.prems(4) l by simp
    then have "emit_rules rules (Suc i) n (rem - length (rule_json i (rules ! i))) = None"
      using Suc.prems(1,3) i by (intro Suc.IH) auto
    then show ?thesis using Suc.prems(4) by (simp add: Let_def)
  qed
qed simp

section \<open>Rules that clients add\<close>

lemma parse_rule_uuid [simp]: "pr_partition_uuid (parse_rule req) = zero_uuid"
  by (simp add: parse_rule_def)

lemma scan_rules_field: "bdfs_policy_scan pv pe d = Some (n, pe', d') \<Longrightarrow>
    pe_rules pe' = pe_rules pe \<and> pe_next_rule_id pe' = pe_next_rule_id pe"
  by (auto simp: bdfs_policy_scan_def)

lemma remove_rule_fields:
  "pe_rules (snd (bdfs_policy_remove_rule i pe)) = remove_first (\<lambda>r. pr_rule_id r = i) (pe_rules pe)"
  "pe_next_rule_id (snd (bdfs_policy_remove_rule i pe)) = pe_next_rule_id pe"
  by (auto simp: bdfs_policy_remove_rule_def rules_del_def rules_find_def remove_first_id split: option.split)

text \<open>What one request can do to the rules and the queue.\<close>

lemma client_add_cases:
  "client_policy_add env req d = (resp, d') \<Longrightarrow>
   d' = d \<or> (\<exists>pe. dm_policy d = Some pe \<and> d' = d\<lparr>dm_policy := Some pe\<rparr>) \<or>
   (\<exists>pe. dm_policy d = Some pe \<and> d' = d\<lparr>dm_policy := Some (engine_add (parse_rule req) pe)\<rparr>)"
  by (auto simp: client_policy_add_def bdfs_policy_add_rule_def Let_def split: option.splits if_splits)

lemma client_remove_cases:
  "client_policy_remove req d = (resp, d') \<Longrightarrow>
   d' = d \<or> (\<exists>pe i. dm_policy d = Some pe \<and> d' = d\<lparr>dm_policy := Some (snd (bdfs_policy_remove_rule i pe))\<rparr>)"
  by (auto simp: client_policy_remove_def Let_def case_prod_beta split: option.splits if_splits)

lemma client_scan_cases:
  "client_policy_scan env d = Some (resp, d') \<Longrightarrow>
   d' = d \<or> (\<exists>pe n pe' pool'. dm_policy d = Some pe \<and>
      bdfs_policy_scan (ce_policy env) pe (dm_pool d) = Some (n, pe', pool') \<and>
      d' = d\<lparr>dm_policy := Some pe', dm_pool := pool'\<rparr>)"
  by (auto simp: client_policy_scan_def split: option.splits)

lemma client_dispatch_cases:
  assumes "client_dispatch env req d = Some (resp, d')"
  shows "d' = d \<or> client_policy_add env req d = (resp, d') \<or> client_policy_remove req d = (resp, d') \<or>
    client_policy_scan env d = Some (resp, d')"
  using assms by (auto simp only: client_dispatch_def option.inject prod.inject map_option_eq_Some split: if_splits)

lemma handle_client_cases:
  assumes "bdfs_handle_client env received d = Some (resp, d')"
  shows "d' = d \<or> (\<exists>req t. client_dispatch env req d = Some (t, d'))"
  using assms by (auto simp: bdfs_handle_client_def Let_def split: option.splits if_splits)

lemma rules_without_partition_client:
  assumes "bdfs_handle_client env received d = Some (resp, d')" and "rules_without_partition d"
  shows "rules_without_partition d'"
  using handle_client_cases [OF assms(1)] assms(2)
  by (auto dest!: client_dispatch_cases client_add_cases client_remove_cases client_scan_cases scan_rules_field
      dest!: subsetD [OF set_remove_first_subset]
      simp: rules_without_partition_def engine_add_def rules_add_def remove_rule_fields)

lemma rules_without_partition_steps:
  "client_step\<^sup>*\<^sup>* d d' \<Longrightarrow> rules_without_partition d \<Longrightarrow> rules_without_partition d'"
  by (induction rule: rtranclp_induct) (auto elim!: client_step.cases dest: rules_without_partition_client)

end
