(* ===== verification/Bdfs_Policy_Props.thy ===== *)
theory Bdfs_Policy_Props
  imports Bdfs_Socket Bdfs_Kernel_Props Bdfs_Daemon_Props
begin

text \<open>
  Properties of the auto-demote engine and of the daemon's socket: what a scan queues, the
  bounds of its reads, the table of rules, the end of the background thread, and what
  requests of clients can do.
\<close>

section \<open>Sample system\<close>

definition sample_subvol :: bdfs_btrfs_subvol where
  "sample_subvol = zero_subvol\<lparr>sv_subvol_id := 5, sv_name := ''a'', sv_path := ''/v/a''\<rparr>"

text \<open>A system with one subvolume, last used 20 seconds after the epoch.\<close>

definition sample_pv :: policy_env where
  "sample_pv =
     \<lparr>pv_now = 1000000, pv_stamp = ''19700112_134640'', pv_fnmatch = (\<lambda>pat name. pat = name),
      pv_stat = (\<lambda>path. if path = ''/v/a'' then Some (10, 20) else None),
      pv_opendir = (\<lambda>_. False), pv_ino_lookup = (\<lambda>_. None), pv_quota_items = (\<lambda>_ _. None),
      pv_walk = (\<lambda>_. [(True, 8)]),
      pv_list = (\<lambda>_ _ _. (Inr (), \<lparr>lo_items = [sample_subvol], lo_count = Some 1, lo_total = Some 1\<rparr>)),
      pv_calloc = (\<lambda>_ _. True), pv_job_alloc = (\<lambda>_ _. True)\<rparr>"

definition sample_rule :: bdfs_policy_rule where
  "sample_rule = \<lparr>pr_rule_id = 1, pr_partition_uuid = zero_uuid, pr_age_days = 7, pr_min_size_bytes = 4096,
     pr_name_pattern = [], pr_compression = 2, pr_readonly = False, pr_delete_after_demote = False,
     pr_enabled = True\<rparr>"

definition new_engine :: bdfs_policy_engine where
  "new_engine = snd (bdfs_policy_init 0 0)"

definition sample_engine :: bdfs_policy_engine where
  "sample_engine = engine_add sample_rule new_engine"

definition sample_daemon :: bdfs_daemon where
  "sample_daemon = \<lparr>dm_worker_count = 1, dm_pool = init_pool 1,
     dm_sys = \<lparr>sy_errno = 0, sy_trace = [], sy_mounts = []\<rparr>, dm_policy = Some new_engine\<rparr>"

text \<open>An engine with \<open>n\<close> rules.\<close>

definition engine_of :: "nat \<Rightarrow> bdfs_policy_engine" where
  "engine_of n = new_engine\<lparr>pe_rules := replicate n sample_rule\<rparr>"

text \<open>A system in which everything succeeds but a rename to the empty path.\<close>

definition posix_env :: sys_env where
  "posix_env h c = (case c of Sc_rename _ p \<Rightarrow> if p = [] then R_err ENOENT else R_ok 0 | _ \<Rightarrow> ok_env h c)"

definition empty_kernel :: kstate where
  "empty_kernel = \<lparr>partition_list = [], partition_count = 0, nl_sock = True, nl_out = []\<rparr>"

definition add_request :: string where
  "add_request = ''{\"cmd\":\"policy-add\",\"args\":{\"partition\":\"00112233-4455-6677-8899-aabbccddeeff\",\"age_days\":7}}''"

definition sample_client :: client_env where
  "sample_client = \<lparr>ce_policy = sample_pv, ce_rule_alloc = True\<rparr>"

section \<open>Scans\<close>

lemma sample_rules: "pe_rules sample_engine = [sample_rule]"
  by (simp add: sample_engine_def engine_add_def rules_add_def new_engine_def bdfs_policy_init_def sample_rule_def)

lemma sample_matches: "rule_matches_subvol sample_pv sample_rule sample_subvol"
  by (simp add: rule_matches_subvol_def subvol_last_access_def subvol_size_bytes_def walk_add_size_def sample_pv_def
      sample_rule_def sample_subvol_def zero_subvol_def Let_def)

lemma sample_fetch: "fetch_subvols sample_pv k sample_rule = Some [sample_subvol]"
  by (simp add: fetch_subvols_def read_buffer_def sample_pv_def Let_def)

lemma sample_scan:
  "bdfs_policy_scan sample_pv sample_engine d =
     Some (1, sample_engine\<lparr>pe_last_scan_time := 1000000, pe_total_demotes := pe_total_demotes sample_engine + 1\<rparr>,
       enqueue_all [demote_job sample_pv sample_rule sample_subvol] d)"
proof -
  have "pr_enabled sample_rule" "pv_job_alloc sample_pv 0 0" "pv_now sample_pv = 1000000"
    by (simp_all add: sample_rule_def sample_pv_def)
  then show ?thesis
    by (simp add: bdfs_policy_scan_def sample_rules sample_fetch sample_matches demote_def enqueue_all_Cons)
qed


text \<open>
  C19: a scan demotes only idle subvolumes.  Every job it queues is the export of a subvolume
  under an enabled rule that its name matches; \<open>stat\<close> of the subvolume succeeded, neither its
  access nor its modification lies less than the rule's number of days back, and it is not
  smaller than the rule's size.
\<close>

theorem policy_demotes_only_idle:
  assumes "bdfs_policy_scan pv pe d = Some (n, pe', d')" and "pl_queue d' = pl_queue d @ jobs" and "job \<in> set jobs"
  shows "\<exists>rule sv a m. rule \<in> set (pe_rules pe) \<and> pr_enabled rule \<and> job = demote_job pv rule sv \<and>
    (pr_name_pattern rule = [] \<or> pv_fnmatch pv (pr_name_pattern rule) (sv_name sv)) \<and>
    pv_stat pv (sv_path sv) = Some (a, m) \<and>
    a + 86400 * int (unat (pr_age_days rule)) \<le> pv_now pv \<and> m + 86400 * int (unat (pr_age_days rule)) \<le> pv_now pv \<and>
    (pr_min_size_bytes rule = 0 \<or> pr_min_size_bytes rule \<le> subvol_size_bytes pv (sv_path sv))"
proof -
  have "jobs = scan_jobs pv 0 (pe_rules pe)"
    using assms(1,2) by (auto simp: bdfs_policy_scan_def scan_rules_jobs fold_demote enqueue_all_def split: if_splits)
  then obtain rule sv where r: "rule \<in> set (pe_rules pe)" "pr_enabled rule" "job = demote_job pv rule sv"
      "rule_matches_subvol pv rule sv"
    using scan_jobsD assms(3) by blast
  from r(4) obtain a m where "pv_stat pv (sv_path sv) = Some (a, m)"
      "86400 * int (unat (pr_age_days rule)) \<le> pv_now pv - max a m"
    unfolding rule_matches_iff by blast
  moreover from this have "a + 86400 * int (unat (pr_age_days rule)) \<le> pv_now pv"
      "m + 86400 * int (unat (pr_age_days rule)) \<le> pv_now pv" by linarith+
  ultimately show ?thesis using r unfolding rule_matches_iff by blast
qed

theorem policy_demotes_only_idle_witness:
  "\<exists>rule sv a m. rule \<in> set (pe_rules sample_engine) \<and>
     demote_job sample_pv sample_rule sample_subvol = demote_job sample_pv rule sv \<and>
     pv_stat sample_pv (sv_path sv) = Some (a, m) \<and> m + 86400 * int (unat (pr_age_days rule)) \<le> 1000000"
proof -
  let ?job = "demote_job sample_pv sample_rule sample_subvol"
  have q: "pl_queue (enqueue_all [?job] (init_pool 1)) = pl_queue (init_pool 1) @ [?job]"
    by (simp add: enqueue_all_def)
  have j: "?job \<in> set [?job]" by simp
  obtain rule sv a m where "rule \<in> set (pe_rules sample_engine)" "?job = demote_job sample_pv rule sv"
      "pv_stat sample_pv (sv_path sv) = Some (a, m)" "m + 86400 * int (unat (pr_age_days rule)) \<le> pv_now sample_pv"
    using policy_demotes_only_idle [OF sample_scan q j] by blast
  moreover have "pv_now sample_pv = 1000000" by (simp add: sample_pv_def)
  ultimately show ?thesis by metis
qed



section \<open>Rules\<close>

text \<open>
  Rules keep distinct identifiers, and a rule that is added and removed leaves the table as
  it was.  Where the identifiers in use are distinct and below the counter, which has not
  reached its last value, a new rule gets an identifier that no rule has, is found under it,
  keeps the order of identifiers, and its removal gives back the rules.
\<close>

theorem rule_add_remove_roundtrip:
  assumes "fresh_ids (map pr_rule_id (pe_rules pe)) (pe_next_rule_id pe)" and "pe_next_rule_id pe \<noteq> - 1"
    and "bdfs_policy_add_rule True template pe = (rid, pe')"
  shows "rules_find rid pe = None \<and>
    rules_find rid pe' = Some (template\<lparr>pr_rule_id := rid, pr_enabled := True\<rparr>) \<and>
    fresh_ids (map pr_rule_id (pe_rules pe')) (pe_next_rule_id pe') \<and>
    (\<exists>pe''. bdfs_policy_remove_rule rid pe' = (0, pe'') \<and> pe_rules pe'' = pe_rules pe)"
proof -
  let ?r = "template\<lparr>pr_rule_id := rid, pr_enabled := True\<rparr>"
  have rid: "rid = pe_next_rule_id pe" and pe': "pe' = engine_add template pe"
    using assms(3) by (auto simp: bdfs_policy_add_rule_def)
  have fresh: "rules_find rid pe = None"
    using rule_ids.fresh_not_reused [OF assms(1)] by (force simp: rid rules_find_def find_None_conv)
  have rules: "pe_rules pe' = pe_rules (rules_add ?r pe)" by (simp add: pe' rid engine_add_def)
  have found: "rules_find rid pe' = Some ?r"
    using rule_table.look_add_fresh [of ?r pe] fresh by (simp add: rules_find_def rules)
  have "pe_next_rule_id pe < - 1" using assms(2) by (simp add: order_less_le)
  then have lt: "pe_next_rule_id pe < pe_next_rule_id pe + 1" by (simp add: word_less_nat_alt unat_Suc_below)
  have restored: "pe_rules (rules_del rid pe') = pe_rules pe"
    using rule_table.del_add_roundtrip [of ?r pe] fresh by (simp add: rules_del_def rules)
  show ?thesis
    using fresh found restored rule_ids.fresh_alloc [OF assms(1) lt, of template]
    by (simp add: pe' bdfs_policy_remove_rule_def)
qed

theorem rule_add_remove_roundtrip_witness:
  "rules_find 1 sample_engine \<noteq> None \<and> (\<exists>pe''. bdfs_policy_remove_rule 1 sample_engine = (0, pe'') \<and> pe_rules pe'' = [])"
proof -
  have "bdfs_policy_add_rule True sample_rule new_engine = (1, sample_engine)"
    by (simp add: bdfs_policy_add_rule_def sample_engine_def new_engine_def bdfs_policy_init_def)
  from rule_add_remove_roundtrip [OF _ _ this] show ?thesis
    by (simp add: new_engine_def bdfs_policy_init_def fresh_ids_def)
qed

section \<open>The background thread\<close>

text \<open>
  C34: the thread stops soon after it was told to.  When the flag is down from the time \<open>T\<close> on
  and no scan lasts longer than \<open>D\<close>, the thread returns, at most \<open>D\<close> seconds after \<open>T\<close>; it
  starts no scan at \<open>T\<close> or later, and any two scans are at least an interval apart.
\<close>

theorem policy_thread_stops:
  assumes "\<And>t. T \<le> t \<Longrightarrow> \<not> running t" and "0 < interval" and "\<And>t. dur t \<le> D"
  shows "\<exists>fuel t' scans. policy_thread running dur interval fuel 0 [] = Some (t', scans) \<and> t' \<le> T + D \<and>
    (\<forall>u \<in> set scans. u < T) \<and> sorted_wrt (\<lambda>x y. x + unat interval \<le> y) scans"
proof -
  obtain t' scans where "policy_thread running dur interval (Suc T) 0 [] = Some (t', [] @ scans)" "t' \<le> T + D"
      "\<forall>u \<in> set scans. 0 + unat interval \<le> u \<and> u < T" "sorted_wrt (\<lambda>x y. x + unat interval \<le> y) scans"
    using policy_thread_ends [of T running interval dur D 0 "Suc T" "[]"] assms
    by (auto simp del: policy_thread.simps)
  then show ?thesis by (intro exI [of _ "Suc T"] exI [of _ t'] exI [of _ scans]) (simp del: policy_thread.simps)
qed

theorem policy_thread_stops_witness:
  "\<exists>fuel t' scans. policy_thread (\<lambda>t. t < 8000) (\<lambda>_. 30) 3600 fuel 0 [] = Some (t', scans) \<and> t' \<le> 8030"
proof -
  obtain fuel t' scans where "policy_thread (\<lambda>t. t < 8000) (\<lambda>_. 30) 3600 fuel 0 [] = Some (t', scans)" "t' \<le> 8000 + 30"
    using policy_thread_stops [of 8000 "\<lambda>t. t < 8000" 3600 "\<lambda>_. 30" 30] by auto
  then show ?thesis by (intro exI [of _ fuel] exI [of _ t'] exI [of _ scans]) simp
qed

section \<open>Requests of clients\<close>

text \<open>
  C33: the list of rules.  With at most 64 rules the answer holds all of them and fits the
  buffer; with more, the handler reads past its array of 64 rules.
\<close>

theorem policy_list_response:
  assumes "\<And>rule. rule \<in> set (pe_rules pe) \<Longrightarrow> length (pr_name_pattern rule) \<le> 255"
    and "length (pe_rules pe) < 2 ^ 32"
  shows "policy_list_text pe =
    (if length (pe_rules pe) \<le> 64
     then Some (''{\"status\":0,\"data\":{\"rules\":['' @
       concat (map (\<lambda>i. rule_json i (pe_rules pe ! i)) [0..<length (pe_rules pe)]) @ '']}}'' @ newline)
     else None) \<and>
    (\<forall>t. policy_list_text pe = Some t \<longrightarrow> length t < BDFS_SOCK_BUFSIZE)"
proof -
  let ?n = "length (pe_rules pe)" and ?rules = "take 64 (pe_rules pe)"
  have cnt: "unat (of_nat ?n :: u32) = ?n" using assms(2) by (simp add: unsigned_of_nat take_bit_nat_eq_self)
  have short: "length (pr_name_pattern rule) \<le> 255" if "rule \<in> set ?rules" for rule
    using assms(1) that by (meson in_set_takeD)
  let ?h = "''{\"status\":0,\"data\":{\"rules\":[''" and ?e = "'']}}'' @ newline"
  have resp: "policy_list_text pe =
      map_option (\<lambda>(u, rem'). ?h @ u @ snprintf rem' ?e) (emit_rules ?rules 0 ?n 65507)"
    using cnt by (simp add: policy_list_text_def bdfs_policy_list_rules_def)
  show ?thesis
  proof (cases "?n \<le> 64")
    case True
    let ?t = "rules_text (pe_rules pe) 0 ?n"
    have len: "length ?t \<le> 400 * ?n" using assms(1) by (intro length_rules_text) auto
    then have "emit_rules (pe_rules pe) 0 ?n 65507 = Some (?t, 65507 - length ?t)"
      using True by (intro emit_rules_all) auto
    moreover have "snprintf (65507 - length ?t) ?e = ?e"
      using len True by (intro snprintf_short) (simp add: newline_def)
    moreover have "take 64 (pe_rules pe) = pe_rules pe" using True by simp
    ultimately have "policy_list_text pe = Some (?h @ ?t @ ?e)" using resp by simp
    moreover have "length (?h @ ?t @ ?e) < 65536" using len True by (simp add: newline_def)
    ultimately show ?thesis using True by (simp add: rules_text_def)
  next
    case False
    then have "emit_rules ?rules 0 ?n 65507 = None" using short by (intro emit_rules_past) auto
    then show ?thesis using False resp by simp
  qed
qed

theorem policy_list_response_witness: "policy_list_text (engine_of 64) \<noteq> None \<and> policy_list_text (engine_of 65) = None"
proof -
  have r: "policy_list_text (engine_of n) = None \<longleftrightarrow> 64 < n" if "n < 2 ^ 32" for n
    using conjunct1 [OF policy_list_response [of "engine_of n"]] that
    by (auto simp: engine_of_def sample_rule_def)
  show ?thesis using r [of 64] r [of 65] by simp
qed

text \<open>
  C35: rules added over the socket never demote anything.  The handler drops the partition of a
  new rule; in every state that a daemon without rules reaches by serving requests, under any
  system, all rules name the zero UUID, and where no partition is registered under it a scan
  queues nothing.
\<close>

theorem socket_rules_never_demote:
  assumes "client_step\<^sup>*\<^sup>* d d'" and "dm_policy d = Some pe" and "pe_rules pe = []" and "dm_policy d' = Some pe'"
    and "\<And>k again. bdfs_find_partition_locked zero_uuid (ks k again) = None"
  shows "\<exists>pe''. bdfs_policy_scan (kernel_list envs ks pv) pe' (dm_pool d') = Some (0, pe'', dm_pool d')"
proof -
  have "rules_without_partition d" using assms(2,3) by (simp add: rules_without_partition_def)
  then have z: "pr_partition_uuid rule = zero_uuid" if "rule \<in> set (pe_rules pe')" for rule
    using rules_without_partition_steps [OF assms(1)] assms(4) that by (auto simp: rules_without_partition_def)
  have f: "fetch_subvols (kernel_list envs ks pv) k rule = Some []" if "rule \<in> set (pe_rules pe')" for k rule
    using z [OF that] assms(5)
    by (auto simp: fetch_subvols_def kernel_list_def list_arg_def bdfs_btrfs_list_subvols_def Let_def)
  have "\<not> scan_faults (kernel_list envs ks pv) 0 (pe_rules pe')"
    by (force simp: scan_faults_def in_set_enumerate_eq f)
  moreover have "scan_jobs (kernel_list envs ks pv) 0 (pe_rules pe') = []"
    by (force simp: scan_jobs_def in_set_enumerate_eq listed_def f rule_jobs_def)
  ultimately show ?thesis by (simp add: bdfs_policy_scan_def scan_rules_jobs)
qed

lemma sample_add_request:
  "\<exists>resp d' pe. bdfs_handle_client sample_client (Some add_request) sample_daemon = Some (Some resp, d') \<and>
     dm_policy d' = Some pe \<and> map pr_age_days (pe_rules pe) = [7]"
proof -
  have "after_key add_request ''\"age_days\":'' = Some ''7}}''"
    by (simp add: after_key_def add_request_def)
  moreover have "atoi_u32 ''7}}'' = 7"
    by (simp add: atoi_u32_def scan_dec_def scan_sign_def is_space_def dec_val_def conv_s32_def)
  ultimately have "pr_age_days (parse_rule add_request) = 7" by (simp add: parse_rule_def)
  moreover have "client_dispatch sample_client add_request sample_daemon =
      Some (client_policy_add sample_client add_request sample_daemon)"
    by (simp add: client_dispatch_def has_word_def add_request_def)
  moreover have "takeWhile (\<lambda>c. c \<noteq> CHR 0x00) (take 65535 add_request) = add_request" "add_request \<noteq> []"
    by (simp_all add: add_request_def)
  ultimately show ?thesis
    by (simp add: bdfs_handle_client_def client_policy_add_def sample_daemon_def sample_client_def sample_rule_def
        bdfs_policy_add_rule_def engine_add_def rules_add_def new_engine_def bdfs_policy_init_def)
qed

theorem socket_rules_never_demote_witness:
  "\<exists>resp d' pe pe''. bdfs_handle_client sample_client (Some add_request) sample_daemon = Some (resp, d') \<and>
     dm_policy d' = Some pe \<and> map pr_age_days (pe_rules pe) = [7] \<and>
     bdfs_policy_scan (kernel_list (\<lambda>_ _. quiet_env) (\<lambda>_ _. empty_kernel) sample_pv) pe (dm_pool d') = Some (0, pe'', dm_pool d')"
proof -
  obtain resp d' pe where d: "bdfs_handle_client sample_client (Some add_request) sample_daemon = Some (Some resp, d')"
      "dm_policy d' = Some pe" "map pr_age_days (pe_rules pe) = [7]"
    using sample_add_request by (elim exE conjE) (rule that)
  have "client_step\<^sup>*\<^sup>* sample_daemon d'" using d(1) by (intro r_into_rtranclp client_step.intros)
  moreover have "dm_policy sample_daemon = Some new_engine" "pe_rules new_engine = []"
    by (simp_all add: sample_daemon_def new_engine_def bdfs_policy_init_def)
  ultimately obtain pe'' where
      "bdfs_policy_scan (kernel_list (\<lambda>_ _. quiet_env) (\<lambda>_ _. empty_kernel) sample_pv) pe (dm_pool d') = Some (0, pe'', dm_pool d')"
    using socket_rules_never_demote [of sample_daemon d' new_engine pe "\<lambda>_ _. empty_kernel" "\<lambda>_ _. quiet_env" sample_pv] d(2)
    by (auto simp: empty_kernel_def bdfs_find_partition_locked_def)
  then show ?thesis using d by (intro exI conjI)
qed

section \<open>Jobs of the engine\<close>

text \<open>
  A job of the engine cannot succeed, and never deletes its source.  The job names no file
  for the image; where no rename to the empty path succeeds, as POSIX requires, it fails
  whatever the tools do, and the subvolume is not deleted.
\<close>

theorem policy_export_fails:
  assumes "run_state (run_job env cfg fuel (demote_job pv rule sv)) s = (r, s')"
    and "\<And>p a. (Sc_rename p [], a) \<in> set (new_calls s s') \<Longrightarrow> failed a"
    and "length (sv_path sv) < BDFS_PATH_MAX - 1"
  shows "r \<noteq> Some 0 \<and> \<not> called (new_calls s s') (Sc_exec (delete_argv cfg (sv_path sv)))"
proof -
  obtain j where j: "job_body (demote_job pv rule sv) = BDFS_JOB_EXPORT_TO_DWARFS j" "xj_image_path j = []"
      "xj_btrfs_mount j = sv_path sv"
    using assms(3) by (auto simp: demote_job_def bdfs_job_alloc_def zero_export_job_def)
  obtain x where x: "run_state (bdfs_job_export_to_dwarfs env cfg j) s = (x, s')" "r = Some x"
    using assms(1) j(1) by (auto simp: run_job_def split: prod.splits)
  have "x \<noteq> 0" using wp_run [OF export_renamed_wp x(1)] assms(2) j(2) by auto
  moreover have "length (xj_btrfs_mount j) < BDFS_PATH_MAX - 1" using assms(3) j(3) by simp
  ultimately show ?thesis
    using wp_run [OF export_source_wp x(1)] x(2) j(3) by auto
qed

theorem policy_export_fails_witness:
  "fst (run_state (run_job posix_env sample_cfg 0 (demote_job sample_pv sample_rule sample_subvol)) idle_sys) \<noteq> Some 0"
proof -
  let ?run = "run_state (run_job posix_env sample_cfg 0 (demote_job sample_pv sample_rule sample_subvol)) idle_sys"
  have "failed a" if "(Sc_rename p [], a) \<in> set (new_calls idle_sys (snd ?run))" for p a
    using that
    by (simp add: run_job_def demote_job_def bdfs_job_alloc_def export_defs bdfs_exec_wait_def bdfs_exec_btrfs_receive_def
        exec_result_def sys_def after_call_def posix_env_def ok_env_def failed_def mkdir_fails_def new_calls_def idle_sys_def
        neg_errno_def get_errno_def Let_def zero_export_job_def)
  moreover have "length (sv_path sample_subvol) < BDFS_PATH_MAX - 1" by (simp add: sample_subvol_def)
  ultimately show ?thesis
    using policy_export_fails [of posix_env sample_cfg 0 sample_pv sample_rule sample_subvol idle_sys "fst ?run" "snd ?run"]
    by auto
qed

end
