(* ===== verification/Bdfs_Getopt.thy ===== *)
theory Bdfs_Getopt
  imports Bdfs_Types
begin

text \<open>
  What the command line tool uses of the C library to read its arguments: \<open>getopt_long\<close> of
  glibc and \<open>strtoull\<close> with base 0.

  A table gives for each option its long name, whether it takes an argument, and the
  character that stands for it; in all tables of the tool the short options are these
  characters with the same arity.  The first call of a process is made with a leading
  \<open>+\<close> in the option string, which glibc reads only then: options end at the first word
  that is not one, in that call and in all later ones.
\<close>

section \<open>Options\<close>

type_synonym opt_table = "(string \<times> bool \<times> char) list"

text \<open>An option with its argument, or \<open>'?'\<close>.\<close>

datatype opt_event = Opt char string | Bad_opt

text \<open>A long name: an exact match, otherwise the only entry that it abbreviates.\<close>

definition long_match :: "opt_table \<Rightarrow> string \<Rightarrow> (bool \<times> char) option" where
  "long_match tbl name =
     (case List.find (\<lambda>(n, _). n = name) tbl of
        Some (_, e) \<Rightarrow> Some e
      | None \<Rightarrow>
          (case filter (\<lambda>(n, _). take (length name) n = name) tbl of
             [(_, e)] \<Rightarrow> Some e
           | _ \<Rightarrow> None))"

text \<open>
  One word, without its dashes: the options in it, and the option that still waits for its
  argument, which is then the next word.
\<close>

definition long_word :: "opt_table \<Rightarrow> string \<Rightarrow> opt_event list \<times> char option" where
  "long_word tbl w =
     (let name = takeWhile (\<lambda>c. c \<noteq> CHR ''='') w; v = dropWhile (\<lambda>c. c \<noteq> CHR ''='') w
      in case long_match tbl name of
           None \<Rightarrow> ([Bad_opt], None)
         | Some (True, c) \<Rightarrow> if v \<noteq> [] then ([Opt c (tl v)], None) else ([], Some c)
         | Some (False, c) \<Rightarrow> if v \<noteq> [] then ([Bad_opt], None) else ([Opt c []], None))"

fun short_word :: "opt_table \<Rightarrow> string \<Rightarrow> opt_event list \<times> char option" where
  "short_word tbl [] = ([], None)"
| "short_word tbl (c # cs) =
     (case List.find (\<lambda>(_, _, x). x = c) tbl of
        None \<Rightarrow> ([Bad_opt], None)
      | Some (_, True, _) \<Rightarrow> if cs \<noteq> [] then ([Opt c cs], None) else ([], Some c)
      | Some (_, False, _) \<Rightarrow> (let (evs, w) = short_word tbl cs in (Opt c [] # evs, w)))"

definition opt_word :: "opt_table \<Rightarrow> string \<Rightarrow> opt_event list \<times> char option" where
  "opt_word tbl w = (if take 2 w = ''--'' then long_word tbl (drop 2 w) else short_word tbl (drop 1 w))"

definition is_opt_word :: "string \<Rightarrow> bool" where
  "is_opt_word w \<longleftrightarrow> take 1 w = ''-'' \<and> 2 \<le> length w"

text \<open>
  All the calls of a loop over \<open>getopt_long\<close>, from the word at \<open>optind\<close> on: the options up
  to the first \<open>'?'\<close>, and the words from the final \<open>optind\<close> on.
\<close>

fun getopt_words :: "opt_table \<Rightarrow> char option \<Rightarrow> string list \<Rightarrow> opt_event list \<times> string list" where
  "getopt_words tbl None [] = ([], [])"
| "getopt_words tbl (Some c) [] = ([Bad_opt], [])"
| "getopt_words tbl (Some c) (w # ws) = (let (evs, rest) = getopt_words tbl None ws in (Opt c w # evs, rest))"
| "getopt_words tbl None (w # ws) =
     (if w = ''--'' then ([], ws)
      else if \<not> is_opt_word w then ([], w # ws)
      else let (evs, pending) = opt_word tbl w
           in if Bad_opt \<in> set evs then (evs, ws)
              else let (evs', rest) = getopt_words tbl pending ws in (evs @ evs', rest))"

text \<open>
  The loop over plain \<open>getopt\<close>, which has short options only and goes on behind words that are
  not options; the words left over are not used.
\<close>

fun getopt_permute :: "opt_table \<Rightarrow> char option \<Rightarrow> string list \<Rightarrow> opt_event list" where
  "getopt_permute tbl None [] = []"
| "getopt_permute tbl (Some c) [] = [Bad_opt]"
| "getopt_permute tbl (Some c) (w # ws) = Opt c w # getopt_permute tbl None ws"
| "getopt_permute tbl None (w # ws) =
     (if w = ''--'' then []
      else if \<not> is_opt_word w then getopt_permute tbl None ws
      else let (evs, pending) = short_word tbl (drop 1 w)
           in if Bad_opt \<in> set evs then evs else evs @ getopt_permute tbl pending ws)"

text \<open>The same loop on BSD systems, where options end at the first word that is not one.\<close>

fun getopt_bsd :: "opt_table \<Rightarrow> char option \<Rightarrow> string list \<Rightarrow> opt_event list" where
  "getopt_bsd tbl None [] = []"
| "getopt_bsd tbl (Some c) [] = [Bad_opt]"
| "getopt_bsd tbl (Some c) (w # ws) = Opt c w # getopt_bsd tbl None ws"
| "getopt_bsd tbl None (w # ws) =
     (if w = ''--'' \<or> \<not> is_opt_word w then []
      else let (evs, pending) = short_word tbl (drop 1 w)
           in if Bad_opt \<in> set evs then evs else evs @ getopt_bsd tbl pending ws)"

text \<open>
  A loop with a \<open>switch\<close>: \<open>h\<close> is the switch, which may return from the function with an exit
  code; \<open>'?'\<close> returns 1.
\<close>

fun opt_loop :: "(char \<Rightarrow> string \<Rightarrow> 'a \<Rightarrow> int + 'a) \<Rightarrow> opt_event list \<Rightarrow> 'a \<Rightarrow> int + 'a" where
  "opt_loop h [] a = Inr a"
| "opt_loop h (Bad_opt # evs) a = Inl 1"
| "opt_loop h (Opt c v # evs) a = (case h c v a of Inl r \<Rightarrow> Inl r | Inr a' \<Rightarrow> opt_loop h evs a')"

text \<open>
  The loop of a function that is called with \<open>argv\<close> while \<open>optind\<close> has its current value:
  the exit code or the result and the remaining words; \<open>None\<close> when \<open>optind\<close> lies beyond the
  end of \<open>argv\<close>.
\<close>

definition parse_opts ::
  "opt_table \<Rightarrow> (char \<Rightarrow> string \<Rightarrow> 'a \<Rightarrow> int + 'a) \<Rightarrow> nat \<Rightarrow> string list \<Rightarrow> 'a \<Rightarrow>
   (int + 'a \<times> string list) option" where
  "parse_opts tbl h optind argv a =
     (if length argv < optind then None
      else let (evs, rest) = getopt_words tbl None (drop optind argv)
           in Some (case opt_loop h evs a of Inl r \<Rightarrow> Inl r | Inr a' \<Rightarrow> Inr (a', rest)))"

section \<open>Numbers\<close>

definition oct_val :: "char \<Rightarrow> nat option" where
  "oct_val c = (let k = (of_char c :: nat) in if 48 \<le> k \<and> k \<le> 55 then Some (k - 48) else None)"

text \<open>\<open>strtoull(s, NULL, 0)\<close>: the prefix selects the base.\<close>

definition strtoull0 :: "string \<Rightarrow> u64" where
  "strtoull0 s =
     (let (neg, s1) = scan_sign (dropWhile is_space s);
          hexa = ((take 2 s1 = ''0x'' \<or> take 2 s1 = ''0X'') \<and>
                  (case drop 2 s1 of [] \<Rightarrow> False | c # _ \<Rightarrow> hex_val c \<noteq> None));
          (v, n, r) =
            (if hexa then scan_digits hex_val 16 (length s1) 0 0 (drop 2 s1)
             else if take 1 s1 = ''0'' then scan_digits oct_val 8 (length s1) 0 0 s1
             else scan_digits dec_val 10 (length s1) 0 0 s1)
      in if n = 0 then 0 else conv_u64 neg v)"

section \<open>Lemmas\<close>

text \<open>An option given by its full long name and the next word.\<close>

lemma long_match_exact:
  "List.find (\<lambda>(n, _). n = name) tbl = Some (name', e) \<Longrightarrow> long_match tbl name = Some e"
  by (simp add: long_match_def)

text \<open>A word that is not an option ends the loop.\<close>

lemma getopt_words_stop: "\<not> is_opt_word w \<Longrightarrow> getopt_words tbl None (w # ws) = ([], w # ws)"
  by (auto simp: is_opt_word_def)

lemma long_word_plain:
  assumes "long_match tbl name = Some (b, c)" and "CHR ''='' \<notin> set name"
  shows "long_word tbl name = (if b then ([], Some c) else ([Opt c []], None))"
proof -
  have "takeWhile (\<lambda>c. c \<noteq> CHR ''='') name = name" "dropWhile (\<lambda>c. c \<noteq> CHR ''='') name = []"
    using assms(2) by (auto simp: takeWhile_eq_all_conv)
  then show ?thesis using assms(1) by (simp only: long_word_def Let_def) simp
qed

text \<open>Options given by their full names, with the argument as the next word.\<close>

lemma getopt_words_arg:
  assumes "long_match tbl name = Some (True, c)" and "CHR ''='' \<notin> set name" and "name \<noteq> []"
  shows "getopt_words tbl None ((''--'' @ name) # v # ws) =
    (let (evs, rest) = getopt_words tbl None ws in (Opt c v # evs, rest))"
  using assms by (simp add: is_opt_word_def opt_word_def long_word_plain case_prod_beta)

lemma getopt_words_flag:
  assumes "long_match tbl name = Some (False, c)" and "CHR ''='' \<notin> set name" and "name \<noteq> []"
  shows "getopt_words tbl None ((''--'' @ name) # ws) =
    (let (evs, rest) = getopt_words tbl None ws in (Opt c [] # evs, rest))"
  using assms by (simp add: is_opt_word_def opt_word_def long_word_plain case_prod_beta)

text \<open>A number printed in decimal is read back: a leading zero only appears alone.\<close>

lemma dec_head_pos: "0 < n \<Longrightarrow> \<exists>d cs. 0 < d \<and> d < 10 \<and> dec n = digit_char d # cs"
proof (induction n rule: dec.induct)
  case (1 n)
  show ?case
  proof (cases "n < 10")
    case True
    then have "dec n = [digit_char n]" by (subst dec.simps) simp
    then show ?thesis using True "1.prems" by blast
  next
    case False
    then have "0 < n div 10" by (simp add: div_greater_zero_iff)
    then obtain d cs where "0 < d" "d < 10" "dec (n div 10) = digit_char d # cs" using "1.IH" [OF False] by blast
    moreover have "dec n = dec (n div 10) @ [digit_char (n mod 10)]" using False by (subst dec.simps) simp
    ultimately show ?thesis by auto
  qed
qed

lemma strtoull0_dec: "n < 2 ^ 64 \<Longrightarrow> strtoull0 (dec n) = of_nat n"
proof (cases "n = 0")
  case True
  have "dec 0 = ''0''" by code_simp
  then show ?thesis using True by (simp add: strtoull0_def is_space_def scan_sign_def oct_val_def conv_u64_def)
next
  case False
  assume n: "n < 2 ^ 64"
  obtain d cs where d: "0 < d" "d < 10" "dec n = digit_char d # cs" using dec_head_pos False by blast
  then have "(of_char (digit_char d) :: nat) = 48 + d" by (simp add: digit_char_code)
  then have z: "digit_char d \<noteq> CHR ''0''" using d(1) by auto
  have "dropWhile is_space (dec n) = dec n" "scan_sign (dec n) = (False, dec n)"
    using d digit_char_not_space [of d] digit_char_not_sign [of d] by (simp_all add: scan_sign_def)
  moreover have "take 2 (dec n) \<noteq> ''0x''" "take 2 (dec n) \<noteq> ''0X''" "take 1 (dec n) \<noteq> ''0''"
    using d(3) z by simp_all
  moreover have "scan_digits dec_val 10 (length (dec n)) 0 0 (dec n) = (n, length (dec n), [])"
    using scan_digits_dec [of n 0 "length (dec n)" 0 "[]"] by simp
  moreover have "length (dec n) \<noteq> 0" using d(3) by simp
  ultimately show ?thesis using n by (simp add: strtoull0_def)
qed

end
