(* ===== verification/Bdfs_Cli.thy ===== *)
theory Bdfs_Cli
  imports Bdfs_Getopt Bdfs_Main Bdfs_Socket
begin

text \<open>
  The command line tool (\<open>userspace/cli\<close>): UUIDs and compression names as text, and the
  commands that read their options into the argument of one ioctl or one request to the
  daemon.  A command gives its exit code, what it prints with \<open>--json\<close>, and the new state of
  the system; lines printed for people only are left out.  \<open>None\<close> is a run that reads past the
  end of its arguments or of a buffer, or whose ioctl does not come back from the kernel.

  The control device and the daemon are functions of a record \<open>cli_env\<close>.
\<close>

section \<open>UUIDs and compression names\<close>

definition bdfs_uuid_to_str :: "uuid \<Rightarrow> string" where
  "bdfs_uuid_to_str uuid = snprintf 37
     (hex_bytes (take 4 uuid) @ ''-'' @ hex_bytes (take 2 (drop 4 uuid)) @ ''-'' @
      hex_bytes (take 2 (drop 6 uuid)) @ ''-'' @ hex_bytes (take 2 (drop 8 uuid)) @ ''-'' @
      hex_bytes (take 6 (drop 10 uuid)))"

definition uuid_format :: "sconv list" where
  "uuid_format = replicate 4 (SXw 2) @ lits ''-'' @ replicate 2 (SXw 2) @ lits ''-'' @
     replicate 2 (SXw 2) @ lits ''-'' @ replicate 2 (SXw 2) @ lits ''-'' @ replicate 6 (SXw 2)"

definition bdfs_str_to_uuid :: "string \<Rightarrow> uuid option" where
  "bdfs_str_to_uuid str =
     (let b = sscanf uuid_format str
      in if length b \<noteq> 16 then None
         else Some (map (\<lambda>v. case v of V32 x \<Rightarrow> ucast x | _ \<Rightarrow> 0) b))"

definition bdfs_compression_name :: "u32 \<Rightarrow> string" where
  "bdfs_compression_name c =
     (if c = BDFS_COMPRESS_NONE then ''none''
      else if c = BDFS_COMPRESS_LZMA then ''lzma''
      else if c = BDFS_COMPRESS_ZSTD then ''zstd''
      else if c = BDFS_COMPRESS_LZ4 then ''lz4''
      else if c = BDFS_COMPRESS_BROTLI then ''brotli''
      else ''unknown'')"

definition bdfs_compression_from_name :: "string \<Rightarrow> u32" where
  "bdfs_compression_from_name name =
     (if name = ''none'' then BDFS_COMPRESS_NONE
      else if name = ''lzma'' then BDFS_COMPRESS_LZMA
      else if name = ''zstd'' then BDFS_COMPRESS_ZSTD
      else if name = ''lz4'' then BDFS_COMPRESS_LZ4
      else if name = ''brotli'' then BDFS_COMPRESS_BROTLI
      else BDFS_COMPRESS_ZSTD)"

section \<open>The tool and its environment\<close>

record bdfs_cli =
  cli_verbose :: bool
  cli_json_output :: bool
  cli_no_color :: bool
  cli_ctl_device :: string
  cli_socket_path :: string

text \<open>
  Whether the control device opens, the ioctls, a request to the daemon's socket (\<open>None\<close> when
  it cannot be reached, otherwise what \<open>recv\<close> gives), whether the n-th \<open>calloc\<close> of the
  process succeeds, which files are executable, whether a run of \<open>dwarfsck\<close> exits with 0, the
  seconds that a verification took as text, and what lies in memory behind a local structure.
\<close>

record 's cli_env =
  cl_open :: "string \<Rightarrow> bool"
  cl_ioctl :: "ioctl_cmd \<Rightarrow> 's \<Rightarrow> unit kres \<times> ioctl_out \<times> 's"
  cl_daemon :: "string \<Rightarrow> string \<Rightarrow> 's \<Rightarrow> string option \<times> 's"
  cl_calloc :: "nat \<Rightarrow> bool"
  cl_executable :: "string \<Rightarrow> bool"
  cl_dwarfsck :: "string list \<Rightarrow> bool"
  cl_elapsed :: string
  cl_stack :: umem

type_synonym 's cli_result = "(int \<times> string \<times> 's) option"

type_synonym 's command = "'s cli_env \<Rightarrow> bdfs_cli \<Rightarrow> nat \<Rightarrow> string list \<Rightarrow> 's \<Rightarrow> 's cli_result"

definition json_text :: "bdfs_cli \<Rightarrow> string \<Rightarrow> string" where
  "json_text cli t = (if cli_json_output cli then t else [])"

text \<open>\<open>bdfs_cli_open_ctl\<close> and one ioctl; \<open>show\<close> prints its result.\<close>

definition ctl_request :: "'s cli_env \<Rightarrow> bdfs_cli \<Rightarrow> ioctl_cmd \<Rightarrow> (ioctl_out \<Rightarrow> string) \<Rightarrow> 's \<Rightarrow> 's cli_result" where
  "ctl_request env cli cmd show s =
     (if \<not> cl_open env (cli_ctl_device cli) then Some (1, [], s)
      else case cl_ioctl env cmd s of
        (Inl Oops, _, _) \<Rightarrow> None
      | (Inl (Eno _), _, s') \<Rightarrow> Some (1, [], s')
      | (Inr _, out, s') \<Rightarrow> Some (0, json_text cli (show out), s'))"

text \<open>\<open>{"key":id}\<close> for the id that the ioctl returned.\<close>

definition show_id :: "string \<Rightarrow> ioctl_out \<Rightarrow> string" where
  "show_id key out =
     ''{\"'' @ key @ ''\":'' @ dec (unat (case out of Out_id i \<Rightarrow> i | _ \<Rightarrow> 0)) @ ''}'' @ newline"

text \<open>The options of a command, its checks, and what it does with the result.\<close>

definition with_opts ::
  "opt_table \<Rightarrow> (char \<Rightarrow> string \<Rightarrow> 'a \<Rightarrow> int + 'a) \<Rightarrow> 'a \<Rightarrow> ('a \<Rightarrow> string list \<Rightarrow> 's \<Rightarrow> 's cli_result) \<Rightarrow>
   nat \<Rightarrow> string list \<Rightarrow> 's \<Rightarrow> 's cli_result" where
  "with_opts tbl h a act optind argv s =
     (case parse_opts tbl h optind argv a of
        None \<Rightarrow> None
      | Some (Inl r) \<Rightarrow> Some (r, [], s)
      | Some (Inr (a', rest)) \<Rightarrow> act a' rest s)"

definition uuid_opt :: "string \<Rightarrow> (uuid \<Rightarrow> 'a) \<Rightarrow> int + 'a" where
  "uuid_opt v f = (case bdfs_str_to_uuid v of None \<Rightarrow> Inl 1 | Some u \<Rightarrow> Inr (f u))"

section \<open>Export and import\<close>

definition export_opts :: opt_table where
  "export_opts =
     [(''partition'', True, CHR ''p''), (''subvol-id'', True, CHR ''S''), (''btrfs-mount'', True, CHR ''b''),
      (''name'', True, CHR ''n''), (''compression'', True, CHR ''c''), (''block-size-bits'', True, CHR ''B''),
      (''workers'', True, CHR ''w''), (''incremental'', False, CHR ''i''), (''parent'', True, CHR ''P''),
      (''verify'', False, CHR ''V''), (''help'', False, CHR ''h'')]"

definition export_init :: bdfs_ioctl_export_to_dwarfs where
  "export_init = \<lparr>ex_partition_uuid = zero_uuid, ex_btrfs_subvol_id = 0, ex_btrfs_mount = [], ex_image_name = [],
     ex_compression = BDFS_COMPRESS_ZSTD, ex_block_size_bits = 22, ex_worker_threads = 4, ex_flags = 0,
     ex_parent_snap_path = []\<rparr>"

definition export_opt ::
  "char \<Rightarrow> string \<Rightarrow> bdfs_ioctl_export_to_dwarfs \<Rightarrow> int + bdfs_ioctl_export_to_dwarfs" where
  "export_opt c v a =
     (if c = CHR ''p'' then uuid_opt v (\<lambda>u. a\<lparr>ex_partition_uuid := u\<rparr>)
      else if c = CHR ''S'' then Inr (a\<lparr>ex_btrfs_subvol_id := strtoull0 v\<rparr>)
      else if c = CHR ''b'' then Inr (a\<lparr>ex_btrfs_mount := strncpy (BDFS_PATH_MAX - 1) v\<rparr>)
      else if c = CHR ''n'' then Inr (a\<lparr>ex_image_name := strncpy BDFS_NAME_MAX v\<rparr>)
      else if c = CHR ''c'' then Inr (a\<lparr>ex_compression := bdfs_compression_from_name v\<rparr>)
      else if c = CHR ''B'' then Inr (a\<lparr>ex_block_size_bits := atoi_u32 v\<rparr>)
      else if c = CHR ''w'' then Inr (a\<lparr>ex_worker_threads := atoi_u32 v\<rparr>)
      else if c = CHR ''i'' then Inr (a\<lparr>ex_flags := or (ex_flags a) BDFS_EXPORT_INCREMENTAL\<rparr>)
      else if c = CHR ''P'' then Inr (a\<lparr>ex_parent_snap_path := strncpy (BDFS_PATH_MAX - 1) v\<rparr>)
      else if c = CHR ''V'' then Inr (a\<lparr>ex_flags := or (ex_flags a) BDFS_EXPORT_VERIFY\<rparr>)
      else if c = CHR ''h'' then Inl 0
      else Inl 1)"

definition cmd_export :: "'s command" where
  "cmd_export env cli =
     with_opts export_opts export_opt export_init (\<lambda>arg rest s.
       if ex_image_name arg = [] then Some (1, [], s)
       else if ex_btrfs_mount arg = [] then Some (1, [], s)
       else if and (ex_flags arg) BDFS_EXPORT_INCREMENTAL \<noteq> 0 \<and> ex_parent_snap_path arg = [] then Some (1, [], s)
       else ctl_request env cli (BDFS_IOC_EXPORT_TO_DWARFS arg) (show_id ''image_id'') s)"

definition import_opts :: opt_table where
  "import_opts =
     [(''partition'', True, CHR ''p''), (''image-id'', True, CHR ''I''), (''btrfs-mount'', True, CHR ''b''),
      (''subvol-name'', True, CHR ''n''), (''readonly'', False, CHR ''r''), (''snapshot'', False, CHR ''s''),
      (''help'', False, CHR ''h'')]"

definition import_opt ::
  "char \<Rightarrow> string \<Rightarrow> bdfs_ioctl_import_from_dwarfs \<Rightarrow> int + bdfs_ioctl_import_from_dwarfs" where
  "import_opt c v a =
     (if c = CHR ''p'' then uuid_opt v (\<lambda>u. a\<lparr>im_partition_uuid := u\<rparr>)
      else if c = CHR ''I'' then Inr (a\<lparr>im_image_id := strtoull0 v\<rparr>)
      else if c = CHR ''b'' then Inr (a\<lparr>im_btrfs_mount := strncpy (BDFS_PATH_MAX - 1) v\<rparr>)
      else if c = CHR ''n'' then Inr (a\<lparr>im_subvol_name := strncpy BDFS_NAME_MAX v\<rparr>)
      else if c = CHR ''r'' then Inr (a\<lparr>im_flags := or (im_flags a) BDFS_IMPORT_READONLY\<rparr>)
      else if c = CHR ''s'' then Inr (a\<lparr>im_flags := or (im_flags a) BDFS_IMPORT_SNAPSHOT\<rparr>)
      else if c = CHR ''h'' then Inl 0
      else Inl 1)"

definition cmd_import :: "'s command" where
  "cmd_import env cli =
     with_opts import_opts import_opt
       \<lparr>im_partition_uuid = zero_uuid, im_image_id = 0, im_btrfs_mount = [], im_subvol_name = [], im_flags = 0\<rparr>
       (\<lambda>arg rest s.
         if im_subvol_name arg = [] then Some (1, [], s)
         else if im_btrfs_mount arg = [] then Some (1, [], s)
         else ctl_request env cli (BDFS_IOC_IMPORT_FROM_DWARFS arg) (show_id ''subvol_id'') s)"

section \<open>Mounts\<close>

definition mount_opts :: opt_table where
  "mount_opts =
     [(''partition'', True, CHR ''p''), (''image-id'', True, CHR ''I''), (''mountpoint'', True, CHR ''m''),
      (''cache-mb'', True, CHR ''c''), (''help'', False, CHR ''h'')]"

definition mount_opt ::
  "char \<Rightarrow> string \<Rightarrow> bdfs_ioctl_mount_dwarfs_image \<Rightarrow> int + bdfs_ioctl_mount_dwarfs_image" where
  "mount_opt c v a =
     (if c = CHR ''p'' then uuid_opt v (\<lambda>u. a\<lparr>md_partition_uuid := u\<rparr>)
      else if c = CHR ''I'' then Inr (a\<lparr>md_image_id := strtoull0 v\<rparr>)
      else if c = CHR ''m'' then Inr (a\<lparr>md_mount_point := strncpy (BDFS_PATH_MAX - 1) v\<rparr>)
      else if c = CHR ''c'' then Inr (a\<lparr>md_cache_size_mb := atoi_u32 v\<rparr>)
      else if c = CHR ''h'' then Inl 0
      else Inl 1)"

definition cmd_mount :: "'s command" where
  "cmd_mount env cli =
     with_opts mount_opts mount_opt
       \<lparr>md_partition_uuid = zero_uuid, md_image_id = 0, md_mount_point = [], md_flags = 0, md_cache_size_mb = 256\<rparr>
       (\<lambda>arg rest s.
         if md_mount_point arg = [] then Some (1, [], s)
         else ctl_request env cli (BDFS_IOC_MOUNT_DWARFS_IMAGE arg) (\<lambda>_. []) s)"

definition umount_opts :: opt_table where
  "umount_opts =
     [(''partition'', True, CHR ''p''), (''image-id'', True, CHR ''I''), (''force'', False, CHR ''f''),
      (''help'', False, CHR ''h'')]"

definition umount_opt ::
  "char \<Rightarrow> string \<Rightarrow> bdfs_ioctl_umount_dwarfs_image \<Rightarrow> int + bdfs_ioctl_umount_dwarfs_image" where
  "umount_opt c v a =
     (if c = CHR ''p'' then uuid_opt v (\<lambda>u. a\<lparr>ud_partition_uuid := u\<rparr>)
      else if c = CHR ''I'' then Inr (a\<lparr>ud_image_id := strtoull0 v\<rparr>)
      else if c = CHR ''f'' then Inr (a\<lparr>ud_flags := or (ud_flags a) BDFS_UMOUNT_FORCE\<rparr>)
      else if c = CHR ''h'' then Inl 0
      else Inl 1)"

definition cmd_umount :: "'s command" where
  "cmd_umount env cli =
     with_opts umount_opts umount_opt \<lparr>ud_partition_uuid = zero_uuid, ud_image_id = 0, ud_flags = 0\<rparr>
       (\<lambda>arg rest s. ctl_request env cli (BDFS_IOC_UMOUNT_DWARFS_IMAGE arg) (\<lambda>_. []) s)"

abbreviation (input) BDFS_MOUNT_LAZY_LOAD :: u32 where "BDFS_MOUNT_LAZY_LOAD \<equiv> 16"

definition blend_mount_opts :: opt_table where
  "blend_mount_opts =
     [(''btrfs-uuid'', True, CHR ''B''), (''dwarfs-uuid'', True, CHR ''D''), (''mountpoint'', True, CHR ''m''),
      (''compression'', True, CHR ''c''), (''cache-mb'', True, CHR ''C''), (''writeback'', False, CHR ''w''),
      (''lazy-load'', False, CHR ''L''), (''rdonly'', False, CHR ''r''), (''help'', False, CHR ''h'')]"

definition blend_mount_opt :: "char \<Rightarrow> string \<Rightarrow> bdfs_ioctl_mount_blend \<Rightarrow> int + bdfs_ioctl_mount_blend" where
  "blend_mount_opt c v a =
     (let o' = mb_opts a in
      if c = CHR ''B'' then uuid_opt v (\<lambda>u. a\<lparr>mb_btrfs_uuid := u\<rparr>)
      else if c = CHR ''D'' then uuid_opt v (\<lambda>u. a\<lparr>mb_dwarfs_uuid := u\<rparr>)
      else if c = CHR ''m'' then Inr (a\<lparr>mb_mount_point := strncpy (BDFS_PATH_MAX - 1) v\<rparr>)
      else if c = CHR ''c'' then Inr (a\<lparr>mb_opts := o'\<lparr>mo_compression := bdfs_compression_from_name v\<rparr>\<rparr>)
      else if c = CHR ''C'' then Inr (a\<lparr>mb_opts := o'\<lparr>mo_cache_size_mb := atoi_u32 v\<rparr>\<rparr>)
      else if c = CHR ''w'' then Inr (a\<lparr>mb_opts := o'\<lparr>mo_flags := or (mo_flags o') BDFS_MOUNT_WRITEBACK\<rparr>\<rparr>)
      else if c = CHR ''L'' then Inr (a\<lparr>mb_opts := o'\<lparr>mo_flags := or (mo_flags o') BDFS_MOUNT_LAZY_LOAD\<rparr>\<rparr>)
      else if c = CHR ''r'' then Inr (a\<lparr>mb_opts := o'\<lparr>mo_flags := or (mo_flags o') BDFS_MOUNT_RDONLY\<rparr>\<rparr>)
      else if c = CHR ''h'' then Inl 0
      else Inl 1)"

definition cmd_blend_mount :: "'s command" where
  "cmd_blend_mount env cli =
     with_opts blend_mount_opts blend_mount_opt
       \<lparr>mb_btrfs_uuid = zero_uuid, mb_dwarfs_uuid = zero_uuid, mb_mount_point = [],
        mb_opts = \<lparr>mo_flags = 0, mo_compression = 0, mo_block_size_bits = 0, mo_cache_size_mb = 256,
                    mo_worker_threads = 4\<rparr>\<rparr>
       (\<lambda>arg rest s.
         if mb_mount_point arg = [] then Some (1, [], s)
         else ctl_request env cli (BDFS_IOC_MOUNT_BLEND arg) (\<lambda>_. []) s)"

definition blend_umount_opts :: opt_table where
  "blend_umount_opts =
     [(''mountpoint'', True, CHR ''m''), (''force'', False, CHR ''f''), (''lazy'', False, CHR ''l''),
      (''help'', False, CHR ''h'')]"

definition blend_umount_opt :: "char \<Rightarrow> string \<Rightarrow> bdfs_ioctl_umount_blend \<Rightarrow> int + bdfs_ioctl_umount_blend" where
  "blend_umount_opt c v a =
     (if c = CHR ''m'' then Inr (a\<lparr>ub_mount_point := strncpy (BDFS_PATH_MAX - 1) v\<rparr>)
      else if c = CHR ''f'' then Inr (a\<lparr>ub_flags := or (ub_flags a) BDFS_UMOUNT_FORCE\<rparr>)
      else if c = CHR ''l'' then Inr (a\<lparr>ub_flags := or (ub_flags a) BDFS_UMOUNT_LAZY\<rparr>)
      else if c = CHR ''h'' then Inl 0
      else Inl 1)"

definition cmd_blend_umount :: "'s command" where
  "cmd_blend_umount env cli =
     with_opts blend_umount_opts blend_umount_opt \<lparr>ub_mount_point = [], ub_flags = 0\<rparr>
       (\<lambda>arg0 rest s.
         let arg = (if ub_mount_point arg0 = [] \<and> rest \<noteq> []
                    then arg0\<lparr>ub_mount_point := strncpy (BDFS_PATH_MAX - 1) (hd rest)\<rparr> else arg0)
         in if ub_mount_point arg = [] then Some (1, [], s)
            else ctl_request env cli (BDFS_IOC_UMOUNT_BLEND arg) (\<lambda>_. []) s)"

section \<open>Snapshot, promote, demote\<close>

definition snapshot_opts :: opt_table where
  "snapshot_opts =
     [(''partition'', True, CHR ''p''), (''image-id'', True, CHR ''I''), (''name'', True, CHR ''n''),
      (''readonly'', False, CHR ''r''), (''help'', False, CHR ''h'')]"

definition snapshot_opt ::
  "char \<Rightarrow> string \<Rightarrow> bdfs_ioctl_snapshot_dwarfs_container \<Rightarrow> int + bdfs_ioctl_snapshot_dwarfs_container" where
  "snapshot_opt c v a =
     (if c = CHR ''p'' then uuid_opt v (\<lambda>u. a\<lparr>sc_partition_uuid := u\<rparr>)
      else if c = CHR ''I'' then Inr (a\<lparr>sc_image_id := strtoull0 v\<rparr>)
      else if c = CHR ''n'' then Inr (a\<lparr>sc_snapshot_name := strncpy BDFS_NAME_MAX v\<rparr>)
      else if c = CHR ''r'' then Inr (a\<lparr>sc_flags := or (sc_flags a) BDFS_SNAP_READONLY\<rparr>)
      else if c = CHR ''h'' then Inl 0
      else Inl 1)"

definition cmd_snapshot :: "'s command" where
  "cmd_snapshot env cli =
     with_opts snapshot_opts snapshot_opt
       \<lparr>sc_partition_uuid = zero_uuid, sc_image_id = 0, sc_snapshot_name = [], sc_flags = 0\<rparr>
       (\<lambda>arg rest s.
         if sc_snapshot_name arg = [] then Some (1, [], s)
         else ctl_request env cli (BDFS_IOC_SNAPSHOT_DWARFS_CONTAINER arg) (show_id ''snapshot_subvol_id'') s)"

text \<open>
  The structures of promote and demote as they lie in memory: the two strings, the numbers
  behind them, and what follows the 4368 bytes of the structure.
\<close>

definition put_str :: "nat \<Rightarrow> string \<Rightarrow> umem \<Rightarrow> umem" where
  "put_str off t m i = (if off \<le> i \<and> i < off + length t then of_nat (of_char (t ! (i - off))) else m i)"

definition put_u32 :: "nat \<Rightarrow> u32 \<Rightarrow> umem \<Rightarrow> umem" where
  "put_u32 off x m i = (if off \<le> i \<and> i < off + 4 then ucast (drop_bit (8 * (i - off)) x) else m i)"

definition zeroed :: "nat \<Rightarrow> umem \<Rightarrow> umem" where
  "zeroed n m i = (if i < n then 0 else m i)"

definition promote_mem :: "umem \<Rightarrow> bdfs_ioctl_promote_to_btrfs \<Rightarrow> umem" where
  "promote_mem stack a =
     put_str 0 (pr_blend_path a) (put_str 4096 (pr_subvol_name a) (put_u32 4352 (pr_flags a) (zeroed 4368 stack)))"

definition demote_mem :: "umem \<Rightarrow> bdfs_ioctl_demote_to_dwarfs \<Rightarrow> umem" where
  "demote_mem stack a =
     put_str 0 (de_blend_path a) (put_str 4096 (de_image_name a)
       (put_u32 4352 (de_compression a) (put_u32 4356 (de_flags a) (zeroed 4368 stack))))"

definition promote_opts :: opt_table where
  "promote_opts = [(''blend-path'', True, CHR ''P''), (''subvol-name'', True, CHR ''n''), (''help'', False, CHR ''h'')]"

definition promote_opt :: "char \<Rightarrow> string \<Rightarrow> bdfs_ioctl_promote_to_btrfs \<Rightarrow> int + bdfs_ioctl_promote_to_btrfs" where
  "promote_opt c v a =
     (if c = CHR ''P'' then Inr (a\<lparr>pr_blend_path := strncpy (BDFS_PATH_MAX - 1) v\<rparr>)
      else if c = CHR ''n'' then Inr (a\<lparr>pr_subvol_name := strncpy BDFS_NAME_MAX v\<rparr>)
      else if c = CHR ''h'' then Inl 0
      else Inl 1)"

text \<open>
  The handlers write the id behind the structure of the caller, whose own field stays 0.
\<close>

definition cmd_promote :: "'s command" where
  "cmd_promote env cli =
     with_opts promote_opts promote_opt \<lparr>pr_blend_path = [], pr_subvol_name = [], pr_flags = 0\<rparr>
       (\<lambda>arg rest s.
         if pr_blend_path arg = [] then Some (1, [], s)
         else if pr_subvol_name arg = [] then Some (1, [], s)
         else ctl_request env cli (BDFS_IOC_PROMOTE_TO_BTRFS (promote_mem (cl_stack env) arg))
                (\<lambda>_. show_id ''subvol_id'' Out_none) s)"

definition demote_opts :: opt_table where
  "demote_opts =
     [(''blend-path'', True, CHR ''P''), (''image-name'', True, CHR ''n''), (''compression'', True, CHR ''c''),
      (''delete-subvol'', False, CHR ''d''), (''help'', False, CHR ''h'')]"

definition demote_opt :: "char \<Rightarrow> string \<Rightarrow> bdfs_ioctl_demote_to_dwarfs \<Rightarrow> int + bdfs_ioctl_demote_to_dwarfs" where
  "demote_opt c v a =
     (if c = CHR ''P'' then Inr (a\<lparr>de_blend_path := strncpy (BDFS_PATH_MAX - 1) v\<rparr>)
      else if c = CHR ''n'' then Inr (a\<lparr>de_image_name := strncpy BDFS_NAME_MAX v\<rparr>)
      else if c = CHR ''c'' then Inr (a\<lparr>de_compression := bdfs_compression_from_name v\<rparr>)
      else if c = CHR ''d'' then Inr (a\<lparr>de_flags := or (de_flags a) BDFS_DEMOTE_DELETE_SUBVOL\<rparr>)
      else if c = CHR ''h'' then Inl 0
      else Inl 1)"

definition cmd_demote :: "'s command" where
  "cmd_demote env cli =
     with_opts demote_opts demote_opt
       \<lparr>de_blend_path = [], de_image_name = [], de_compression = BDFS_COMPRESS_ZSTD, de_flags = 0\<rparr>
       (\<lambda>arg rest s.
         if de_blend_path arg = [] then Some (1, [], s)
         else if de_image_name arg = [] then Some (1, [], s)
         else ctl_request env cli (BDFS_IOC_DEMOTE_TO_DWARFS (demote_mem (cl_stack env) arg))
                (\<lambda>_. show_id ''image_id'' Out_none) s)"

end
