(* ===== verification/Bdfs_Cli_Main.thy ===== *)
theory Bdfs_Cli_Main
  imports Bdfs_Cli
begin

text \<open>
  The remaining commands of the tool: partitions, the policy requests to the daemon, status
  and verify with the lists they fetch, and the entry point, which reads the global options
  and hands the rest of its arguments to a command.
\<close>

section \<open>Lists from the kernel\<close>

text \<open>The entries read, a reported failure, or a read past the buffer.\<close>

datatype 'd fetched = Fetched "'d list" | Fetch_failed | Fetch_fault

definition of_buffer :: "'d list option \<Rightarrow> 'd fetched" where
  "of_buffer b = (case b of None \<Rightarrow> Fetch_fault | Some ds \<Rightarrow> Fetched ds)"

text \<open>
  A list in two passes, with room for 64 entries first.  \<open>check\<close> says whether the result of
  the second ioctl is looked at, \<open>n\<close> numbers the allocations.
\<close>

definition fetch_list ::
  "'s cli_env \<Rightarrow> 'd \<Rightarrow> (u32 \<Rightarrow> ioctl_cmd) \<Rightarrow> (ioctl_out \<Rightarrow> 'd list_out) \<Rightarrow> bool \<Rightarrow> nat \<Rightarrow> 's \<Rightarrow> 'd fetched \<times> 's" where
  "fetch_list env z cmd sel check n s =
     (let cap = 64 in
      if \<not> cl_calloc env n then (Fetch_failed, s)
      else case cl_ioctl env (cmd cap) s of
        (Inl Oops, _, s1) \<Rightarrow> (Fetch_fault, s1)
      | (Inl (Eno _), _, s1) \<Rightarrow> (Fetch_failed, s1)
      | (Inr _, out, s1) \<Rightarrow>
          let cnt = (case lo_count (sel out) of None \<Rightarrow> cap | Some c \<Rightarrow> c);
              tot = (case lo_total (sel out) of None \<Rightarrow> 0 | Some t \<Rightarrow> t)
          in if tot > cap then
               if \<not> cl_calloc env (Suc n) then (Fetch_failed, s1)
               else (case cl_ioctl env (cmd tot) s1 of
                   (Inl Oops, _, s2) \<Rightarrow> (Fetch_fault, s2)
                 | (r, out2, s2) \<Rightarrow>
                     if check \<and> r \<noteq> Inr () then (Fetch_failed, s2)
                     else (of_buffer (read_buffer z tot (case lo_count (sel out2) of None \<Rightarrow> tot | Some c \<Rightarrow> c)
                             (lo_items (sel out2))), s2))
             else (of_buffer (read_buffer z cap cnt (lo_items (sel out))), s1))"

definition out_partitions :: "ioctl_out \<Rightarrow> bdfs_partition list_out" where
  "out_partitions out = (case out of Out_partitions l \<Rightarrow> l | _ \<Rightarrow> no_list_out)"

definition out_images :: "ioctl_out \<Rightarrow> bdfs_dwarfs_image list_out" where
  "out_images out = (case out of Out_images l \<Rightarrow> l | _ \<Rightarrow> no_list_out)"

definition out_subvols :: "ioctl_out \<Rightarrow> bdfs_btrfs_subvol list_out" where
  "out_subvols out = (case out of Out_subvols l \<Rightarrow> l | _ \<Rightarrow> no_list_out)"

definition list_partitions_cmd :: "u32 \<Rightarrow> ioctl_cmd" where
  "list_partitions_cmd cap = BDFS_IOC_LIST_PARTITIONS \<lparr>lp_count = cap, lp_parts = True\<rparr>"

definition list_images_cmd :: "uuid \<Rightarrow> u32 \<Rightarrow> ioctl_cmd" where
  "list_images_cmd uuid cap =
     BDFS_IOC_LIST_DWARFS_IMAGES \<lparr>li_partition_uuid = uuid, li_count = cap, li_images = True\<rparr>"

definition list_subvols_cmd :: "uuid \<Rightarrow> u32 \<Rightarrow> ioctl_cmd" where
  "list_subvols_cmd uuid cap =
     BDFS_IOC_LIST_BTRFS_SUBVOLS \<lparr>ls_partition_uuid = uuid, ls_count = cap, ls_subvols = True\<rparr>"

section \<open>Printing\<close>

definition part_type_name :: "u32 \<Rightarrow> string" where
  "part_type_name t =
     (if t = BDFS_PART_DWARFS_BACKED then ''dwarfs-backed''
      else if t = BDFS_PART_BTRFS_BACKED then ''btrfs-backed''
      else if t = BDFS_PART_HYBRID_BLEND then ''hybrid-blend''
      else ''unknown'')"

definition partition_json :: "bdfs_partition \<Rightarrow> string" where
  "partition_json p =
     ''{\"uuid\":\"'' @ bdfs_uuid_to_str (part_uuid p) @ ''\",\"label\":\"'' @ part_label p @
     ''\",\"type\":\"'' @ part_type_name (part_type p) @ ''\",\"device\":\"'' @ part_device_path p @
     ''\",\"mount\":\"'' @ part_mount_point p @ ''\"}'' @ newline"

definition image_json :: "bdfs_dwarfs_image \<Rightarrow> string" where
  "image_json img =
     ''{\"id\":'' @ dec (unat (img_image_id img)) @ '',\"name\":\"'' @ img_name img @
     ''\",\"uuid\":\"'' @ bdfs_uuid_to_str (img_uuid img) @ ''\",\"size\":'' @ dec (unat (img_size_bytes img)) @
     '',\"uncompressed\":'' @ dec (unat (img_uncompressed_bytes img)) @
     '',\"compression\":\"'' @ bdfs_compression_name (img_compression img) @
     ''\",\"mounted\":'' @ json_bool (img_mounted img \<noteq> 0) @
     '',\"mount_point\":\"'' @ img_mount_point img @ ''\"}'' @ newline"

definition subvol_json :: "bdfs_btrfs_subvol \<Rightarrow> string" where
  "subvol_json sv =
     ''{\"id\":'' @ dec (unat (sv_subvol_id sv)) @ '',\"name\":\"'' @ sv_name sv @
     ''\",\"uuid\":\"'' @ bdfs_uuid_to_str (sv_uuid sv) @
     ''\",\"snapshot\":'' @ json_bool (sv_is_snapshot sv \<noteq> 0) @
     '',\"readonly\":'' @ json_bool (sv_is_readonly sv \<noteq> 0) @ '',\"path\":\"'' @ sv_path sv @ ''\"}'' @ newline"

text \<open>\<open>if (i) printf(",")\<close> before each entry.\<close>

fun commas :: "nat \<Rightarrow> string list \<Rightarrow> string" where
  "commas i [] = []"
| "commas i (t # ts) = (if i \<noteq> 0 then '','' else []) @ t @ commas (Suc i) ts"

section \<open>Partitions\<close>

definition partition_add_opts :: opt_table where
  "partition_add_opts =
     [(''type'', True, CHR ''t''), (''device'', True, CHR ''d''), (''label'', True, CHR ''l''),
      (''mount'', True, CHR ''m''), (''help'', False, CHR ''h'')]"

text \<open>The type is kept as text until the options have been read.\<close>

definition partition_add_opt ::
  "char \<Rightarrow> string \<Rightarrow> string option \<times> bdfs_partition \<Rightarrow> int + (string option \<times> bdfs_partition)" where
  "partition_add_opt c v a =
     (case a of (type_str, part) \<Rightarrow>
      if c = CHR ''t'' then Inr (Some v, part)
      else if c = CHR ''d'' then Inr (type_str, part\<lparr>part_device_path := strncpy (BDFS_PATH_MAX - 1) v\<rparr>)
      else if c = CHR ''l'' then Inr (type_str, part\<lparr>part_label := strncpy 255 v\<rparr>)
      else if c = CHR ''m'' then Inr (type_str, part\<lparr>part_mount_point := strncpy (BDFS_PATH_MAX - 1) v\<rparr>)
      else if c = CHR ''h'' then Inl 0
      else Inl 1)"

definition part_type_of_name :: "string \<Rightarrow> u32 option" where
  "part_type_of_name t =
     (if t = ''dwarfs-backed'' then Some BDFS_PART_DWARFS_BACKED
      else if t = ''btrfs-backed'' then Some BDFS_PART_BTRFS_BACKED
      else if t = ''hybrid-blend'' then Some BDFS_PART_HYBRID_BLEND
      else None)"

text \<open>The UUID printed is the field of the argument that the ioctl leaves at zero.\<close>

definition cmd_partition_add :: "'s command" where
  "cmd_partition_add env cli =
     with_opts partition_add_opts partition_add_opt
       (None, zero_partition\<lparr>part_magic := BDFS_MAGIC, part_version_major := 1, part_version_minor := 0\<rparr>)
       (\<lambda>(type_str, part) rest s.
         case type_str of
           None \<Rightarrow> Some (1, [], s)
         | Some t \<Rightarrow>
             if part_device_path part = [] then Some (1, [], s)
             else (case part_type_of_name t of
                 None \<Rightarrow> Some (1, [], s)
               | Some ty \<Rightarrow>
                   ctl_request env cli (BDFS_IOC_REGISTER_PARTITION \<lparr>rp_part = part\<lparr>part_type := ty\<rparr>\<rparr>)
                     (\<lambda>_. ''{\"uuid\":\"'' @ bdfs_uuid_to_str zero_uuid @ ''\"}'' @ newline) s))"

definition cmd_partition_remove :: "'s command" where
  "cmd_partition_remove env cli optind argv s =
     (if length argv < 2 then Some (1, [], s)
      else case bdfs_str_to_uuid (argv ! 1) of
        None \<Rightarrow> Some (1, [], s)
      | Some u \<Rightarrow> ctl_request env cli (BDFS_IOC_UNREGISTER_PARTITION \<lparr>up_uuid = u\<rparr>) (\<lambda>_. []) s)"

definition cmd_partition_list :: "'s command" where
  "cmd_partition_list env cli optind argv s =
     (if \<not> cl_open env (cli_ctl_device cli) then Some (1, [], s)
      else case fetch_list env zero_partition list_partitions_cmd out_partitions True 0 s of
        (Fetch_fault, _) \<Rightarrow> None
      | (Fetch_failed, s') \<Rightarrow> Some (1, [], s')
      | (Fetched ps, s') \<Rightarrow>
          Some (0, json_text cli (''['' @ commas 0 (map partition_json ps) @ '']'' @ newline), s'))"

definition cmd_partition_show :: "'s command" where
  "cmd_partition_show env cli optind argv s =
     (if length argv < 2 then Some (1, [], s)
      else case bdfs_str_to_uuid (argv ! 1) of
        None \<Rightarrow> Some (1, [], s)
      | Some target \<Rightarrow>
          if \<not> cl_open env (cli_ctl_device cli) then Some (1, [], s)
          else (case cl_ioctl env (list_partitions_cmd 64) s of
              (Inl Oops, _, _) \<Rightarrow> None
            | (Inl (Eno _), _, s') \<Rightarrow> Some (1, [], s')
            | (Inr _, out, s') \<Rightarrow>
                let l = out_partitions out; cnt = (case lo_count l of None \<Rightarrow> 64 | Some c \<Rightarrow> unat c)
                in if length (lo_items l) < cnt then None
                   else (case List.find (\<lambda>p. part_uuid p = target) (take cnt (lo_items l)) of
                       None \<Rightarrow> Some (1, [], s')
                     | Some p \<Rightarrow> Some (0, json_text cli (partition_json p), s'))))"

section \<open>Policy requests\<close>

text \<open>The answer of the daemon is printed as it is, or as \<open>OK\<close> when it holds a zero status.\<close>

definition daemon_request :: "'s cli_env \<Rightarrow> bdfs_cli \<Rightarrow> string \<Rightarrow> 's \<Rightarrow> 's cli_result" where
  "daemon_request env cli req s =
     (case cl_daemon env (cli_socket_path cli) req s of
        (None, s') \<Rightarrow> Some (- 1, [], s')
      | (Some msg, s') \<Rightarrow>
          let resp = takeWhile (\<lambda>c. c \<noteq> CHR 0x00) (take 4095 msg)
          in Some (0,
               (if msg = [] then []
                else if cli_json_output cli then resp
                else if has_word resp ''\"status\":0'' then ''OK'' @ newline
                else ''Response: '' @ resp @ newline), s'))"

record policy_add_args =
  pa_partition_uuid_str :: string
  pa_age_days :: u32
  pa_compression :: u32
  pa_name_pattern :: string
  pa_min_size_mb :: u64
  pa_readonly :: bool
  pa_delete_after :: bool

definition policy_add_opts :: opt_table where
  "policy_add_opts =
     [(''partition'', True, CHR ''p''), (''age-days'', True, CHR ''a''), (''compression'', True, CHR ''c''),
      (''name-pattern'', True, CHR ''n''), (''min-size-mb'', True, CHR ''m''), (''readonly'', False, CHR ''r''),
      (''delete-after-demote'', False, CHR ''d''), (''help'', False, CHR ''h'')]"

definition policy_add_opt :: "char \<Rightarrow> string \<Rightarrow> policy_add_args \<Rightarrow> int + policy_add_args" where
  "policy_add_opt c v a =
     (if c = CHR ''p'' then uuid_opt v (\<lambda>_. a\<lparr>pa_partition_uuid_str := strncpy 36 v\<rparr>)
      else if c = CHR ''a'' then Inr (a\<lparr>pa_age_days := atoi_u32 v\<rparr>)
      else if c = CHR ''c'' then Inr (a\<lparr>pa_compression := bdfs_compression_from_name v\<rparr>)
      else if c = CHR ''n'' then Inr (a\<lparr>pa_name_pattern := strncpy 255 v\<rparr>)
      else if c = CHR ''m'' then Inr (a\<lparr>pa_min_size_mb := strtoull0 v\<rparr>)
      else if c = CHR ''r'' then Inr (a\<lparr>pa_readonly := True\<rparr>)
      else if c = CHR ''d'' then Inr (a\<lparr>pa_delete_after := True\<rparr>)
      else if c = CHR ''h'' then Inl 0
      else Inl 1)"

definition policy_add_request :: "policy_add_args \<Rightarrow> string" where
  "policy_add_request a = snprintf 1024
     (''{\"cmd\":\"policy-add\",\"args\":{\"partition\":\"'' @ pa_partition_uuid_str a @
      ''\",\"age_days\":'' @ dec (unat (pa_age_days a)) @
      '',\"compression\":\"'' @ bdfs_compression_name (pa_compression a) @
      ''\",\"name_pattern\":\"'' @ pa_name_pattern a @
      ''\",\"min_size_bytes\":'' @ dec (unat (pa_min_size_mb a * 1024 * 1024)) @
      '',\"readonly\":'' @ json_bool (pa_readonly a) @
      '',\"delete_after_demote\":'' @ json_bool (pa_delete_after a) @ ''}}'' @ newline)"

definition cmd_policy_add :: "'s command" where
  "cmd_policy_add env cli =
     with_opts policy_add_opts policy_add_opt
       \<lparr>pa_partition_uuid_str = [], pa_age_days = 0, pa_compression = BDFS_COMPRESS_ZSTD, pa_name_pattern = [],
        pa_min_size_mb = 0, pa_readonly = False, pa_delete_after = False\<rparr>
       (\<lambda>a rest s.
         if pa_partition_uuid_str a = [] then Some (1, [], s)
         else if pa_age_days a = 0 then Some (1, [], s)
         else daemon_request env cli (policy_add_request a) s)"

definition cmd_policy_remove :: "'s command" where
  "cmd_policy_remove env cli optind argv s =
     (if length argv < 2 then Some (1, [], s)
      else daemon_request env cli (snprintf 256
             (''{\"cmd\":\"policy-remove\",\"args\":{\"rule_id\":'' @ argv ! 1 @ ''}}'' @ newline)) s)"

definition cmd_policy_list :: "'s command" where
  "cmd_policy_list env cli optind argv s =
     daemon_request env cli (snprintf 256 (''{\"cmd\":\"policy-list\"}'' @ newline)) s"

definition cmd_policy_scan :: "'s command" where
  "cmd_policy_scan env cli optind argv s =
     daemon_request env cli (snprintf 256 (''{\"cmd\":\"policy-scan\"}'' @ newline)) s"

section \<open>Status\<close>

definition query_daemon_status :: "'s cli_env \<Rightarrow> bdfs_cli \<Rightarrow> 's \<Rightarrow> string \<times> 's" where
  "query_daemon_status env cli s =
     (case cl_daemon env (cli_socket_path cli) (''{\"cmd\":\"status\"}'' @ newline) s of
        (Some msg, s') \<Rightarrow>
          (if msg = [] then ''(not running)'' else takeWhile (\<lambda>c. c \<noteq> CHR 0x00) (take 511 msg), s')
      | (None, s') \<Rightarrow> (''(not running)'', s'))"

definition print_dwarfs_images :: "'s cli_env \<Rightarrow> uuid \<Rightarrow> nat \<Rightarrow> 's \<Rightarrow> (string \<times> 's) option" where
  "print_dwarfs_images env uuid n s =
     (case fetch_list env zero_image (list_images_cmd uuid) out_images True n s of
        (Fetch_fault, _) \<Rightarrow> None
      | (Fetch_failed, s') \<Rightarrow> Some ([], s')
      | (Fetched imgs, s') \<Rightarrow> Some (''\"images\":['' @ commas 0 (map image_json imgs) @ '']'', s'))"

definition print_btrfs_subvols :: "'s cli_env \<Rightarrow> uuid \<Rightarrow> nat \<Rightarrow> 's \<Rightarrow> (string \<times> 's) option" where
  "print_btrfs_subvols env uuid n s =
     (case fetch_list env zero_subvol (list_subvols_cmd uuid) out_subvols True n s of
        (Fetch_fault, _) \<Rightarrow> None
      | (Fetch_failed, s') \<Rightarrow> Some ([], s')
      | (Fetched svs, s') \<Rightarrow> Some (''\"subvols\":['' @ commas 0 (map subvol_json svs) @ '']'', s'))"

text \<open>One partition: the list behind its UUID, in both modes of printing.\<close>

definition status_details :: "'s cli_env \<Rightarrow> bdfs_partition \<Rightarrow> nat \<Rightarrow> 's \<Rightarrow> (string \<times> 's) option" where
  "status_details env p n s =
     (if part_type p = BDFS_PART_DWARFS_BACKED then
        map_option (\<lambda>(t, s'). ('','' @ t, s')) (print_dwarfs_images env (part_uuid p) n s)
      else if part_type p = BDFS_PART_BTRFS_BACKED then
        map_option (\<lambda>(t, s'). ('','' @ t, s')) (print_btrfs_subvols env (part_uuid p) n s)
      else Some ([], s))"

fun status_loop ::
  "'s cli_env \<Rightarrow> uuid option \<Rightarrow> nat \<Rightarrow> bdfs_partition list \<Rightarrow> 's \<Rightarrow> (string \<times> 's) option" where
  "status_loop env filter_uuid i [] s = Some ([], s)"
| "status_loop env filter_uuid i (p # ps) s =
     (if filter_uuid \<noteq> None \<and> filter_uuid \<noteq> Some (part_uuid p) then status_loop env filter_uuid (Suc i) ps s
      else case status_details env p (2 * i + 2) s of
        None \<Rightarrow> None
      | Some (t, s') \<Rightarrow>
          map_option (\<lambda>(u, s''). ((if i \<noteq> 0 then '','' else []) @ ''{\"uuid\":\"'' @ bdfs_uuid_to_str (part_uuid p) @
              ''\"'' @ t @ ''}'' @ u, s''))
            (status_loop env filter_uuid (Suc i) ps s'))"

definition status_opts :: opt_table where
  "status_opts = [(''partition'', True, CHR ''p''), (''help'', False, CHR ''h'')]"

definition status_opt :: "char \<Rightarrow> string \<Rightarrow> uuid option \<Rightarrow> int + uuid option" where
  "status_opt c v a =
     (if c = CHR ''p'' then uuid_opt v Some else if c = CHR ''h'' then Inl 0 else Inl 1)"

definition cmd_status :: "'s command" where
  "cmd_status env cli =
     with_opts status_opts status_opt None
       (\<lambda>filter_uuid rest s.
         if \<not> cl_open env (cli_ctl_device cli) then Some (1, [], s)
         else
           let (daemon_status, s0) = query_daemon_status env cli s in
           case fetch_list env zero_partition list_partitions_cmd out_partitions False 0 s0 of
             (Fetch_fault, _) \<Rightarrow> None
           | (Fetch_failed, s') \<Rightarrow> Some (1, [], s')
           | (Fetched ps, s') \<Rightarrow>
               map_option (\<lambda>(t, s''). (0, json_text cli
                   (''{\"daemon\":'' @ daemon_status @ '',\"partitions\":['' @ t @ '']}'' @ newline), s''))
                 (status_loop env filter_uuid 0 ps s'))"

section \<open>Verify\<close>

definition find_dwarfsck :: "'s cli_env \<Rightarrow> string" where
  "find_dwarfsck env =
     (case List.find (cl_executable env) [''dwarfsck'', ''/usr/bin/dwarfsck'', ''/usr/local/bin/dwarfsck''] of
        Some c \<Rightarrow> c
      | None \<Rightarrow> ''dwarfsck'')"

definition dwarfsck_argv :: "'s cli_env \<Rightarrow> string \<Rightarrow> string option \<Rightarrow> bool \<Rightarrow> string list" where
  "dwarfsck_argv env image_path checksum_algo verbose =
     [find_dwarfsck env, image_path] @
     (case checksum_algo of None \<Rightarrow> [] | Some a \<Rightarrow> if a = [] then [] else [''--checksum'', a]) @
     (if \<not> verbose then [''-q''] else [])"

record verify_args =
  va_partition_uuid :: uuid
  va_image_id :: "u64 option"
  va_checksum :: "string option"
  va_fix :: bool
  va_quiet :: bool

definition verify_opts :: opt_table where
  "verify_opts =
     [(''partition'', True, CHR ''p''), (''image-id'', True, CHR ''I''), (''checksum'', True, CHR ''c''),
      (''fix'', False, CHR ''f''), (''quiet'', False, CHR ''q''), (''help'', False, CHR ''h'')]"

definition verify_opt :: "char \<Rightarrow> string \<Rightarrow> verify_args \<Rightarrow> int + verify_args" where
  "verify_opt c v a =
     (if c = CHR ''p'' then uuid_opt v (\<lambda>u. a\<lparr>va_partition_uuid := u\<rparr>)
      else if c = CHR ''I'' then Inr (a\<lparr>va_image_id := Some (strtoull0 v)\<rparr>)
      else if c = CHR ''c'' then Inr (a\<lparr>va_checksum := Some v\<rparr>)
      else if c = CHR ''f'' then Inr (a\<lparr>va_fix := True\<rparr>)
      else if c = CHR ''q'' then Inr (a\<lparr>va_quiet := True\<rparr>)
      else if c = CHR ''h'' then Inl 0
      else Inl 1)"

record verify_state =
  vf_pass :: nat
  vf_fail :: nat
  vf_skip :: nat
  vf_out :: string

definition verify_entry :: "bool \<Rightarrow> bdfs_dwarfs_image \<Rightarrow> string" where
  "verify_entry passed img =
     ''{\"id\":'' @ dec (unat (img_image_id img)) @ '',\"name\":\"'' @ img_name img @
     ''\",\"path\":\"'' @ img_backing_path img @ ''\",\"result\":\"'' @ (if passed then ''pass'' else ''fail'') @ ''\"}''"

text \<open>The line about an image without a file is printed in both modes.\<close>

definition skip_line :: "bdfs_dwarfs_image \<Rightarrow> string" where
  "skip_line img =
     ''  ['' @ dec (unat (img_image_id img)) @ ''] '' @ img_name img @ replicate (40 - length (img_name img)) (CHR '' '') @
     ''  SKIP (no backing path)'' @ newline"

fun verify_loop ::
  "'s cli_env \<Rightarrow> bdfs_cli \<Rightarrow> verify_args \<Rightarrow> nat \<Rightarrow> bdfs_dwarfs_image list \<Rightarrow> verify_state \<Rightarrow> verify_state" where
  "verify_loop env cli a i [] st = st"
| "verify_loop env cli a i (img # imgs) st =
     verify_loop env cli a (Suc i) imgs
       (if va_image_id a \<noteq> None \<and> va_image_id a \<noteq> Some (img_image_id img) then st\<lparr>vf_skip := Suc (vf_skip st)\<rparr>
        else if img_backing_path img = [] then
          st\<lparr>vf_skip := Suc (vf_skip st), vf_out := vf_out st @ (if va_quiet a then [] else skip_line img)\<rparr>
        else
          let passed = cl_dwarfsck env (dwarfsck_argv env (img_backing_path img) (va_checksum a) (cli_verbose cli));
              out = vf_out st @ (if 0 < i \<and> 0 < vf_pass st + vf_fail st then '','' else []) @ verify_entry passed img
          in if passed then st\<lparr>vf_pass := Suc (vf_pass st), vf_out := out\<rparr>
             else st\<lparr>vf_fail := Suc (vf_fail st), vf_out := out\<rparr>)"

definition cmd_verify :: "'s command" where
  "cmd_verify env cli =
     with_opts verify_opts verify_opt
       \<lparr>va_partition_uuid = zero_uuid, va_image_id = None, va_checksum = None, va_fix = False, va_quiet = False\<rparr>
       (\<lambda>a rest s.
         if \<not> cl_open env (cli_ctl_device cli) then Some (1, [], s)
         else case fetch_list env zero_image (list_images_cmd (va_partition_uuid a)) out_images False 0 s of
           (Fetch_fault, _) \<Rightarrow> None
         | (Fetch_failed, s') \<Rightarrow> Some (1, [], s')
         | (Fetched imgs, s') \<Rightarrow>
             if imgs = [] then
               Some (0, json_text cli (if va_quiet a then [] else ''No DwarFS images found on partition.'' @ newline), s')
             else
               let st = verify_loop env cli a 0 imgs \<lparr>vf_pass = 0, vf_fail = 0, vf_skip = 0, vf_out = []\<rparr>
               in Some (if 0 < vf_fail st then 1 else 0,
                    json_text cli (''['' @ vf_out st @ '']'' @ newline @
                      ''{\"pass\":'' @ dec (vf_pass st) @ '',\"fail\":'' @ dec (vf_fail st) @ '',\"skip\":'' @ dec (vf_skip st) @
                      '',\"elapsed_s\":'' @ cl_elapsed env @ ''}'' @ newline), s'))"

section \<open>Entry point\<close>

definition global_opts :: opt_table where
  "global_opts =
     [(''verbose'', False, CHR ''v''), (''json'', False, CHR ''j''), (''no-color'', False, CHR ''C''),
      (''ctl'', True, CHR ''c''), (''socket'', True, CHR ''s''), (''help'', False, CHR ''h''),
      (''version'', False, CHR ''V'')]"

definition global_opt :: "char \<Rightarrow> string \<Rightarrow> bdfs_cli \<Rightarrow> int + bdfs_cli" where
  "global_opt c v cli =
     (if c = CHR ''v'' then Inr (cli\<lparr>cli_verbose := True\<rparr>)
      else if c = CHR ''j'' then Inr (cli\<lparr>cli_json_output := True\<rparr>)
      else if c = CHR ''C'' then Inr (cli\<lparr>cli_no_color := True\<rparr>)
      else if c = CHR ''c'' then Inr (cli\<lparr>cli_ctl_device := strncpy 255 v\<rparr>)
      else if c = CHR ''s'' then Inr (cli\<lparr>cli_socket_path := strncpy 255 v\<rparr>)
      else if c = CHR ''h'' then Inl 0
      else if c = CHR ''V'' then Inl 0
      else Inl 1)"

definition cli_defaults :: bdfs_cli where
  "cli_defaults = \<lparr>cli_verbose = False, cli_json_output = False, cli_no_color = False,
     cli_ctl_device = ''/dev/bdfs_ctl'', cli_socket_path = ''/run/bdfs/daemon.sock''\<rparr>"

definition two_word_command :: "string \<Rightarrow> string \<Rightarrow> 's command option" where
  "two_word_command cmd sub =
     (if cmd = ''partition'' then
        if sub = ''add'' then Some cmd_partition_add
        else if sub = ''remove'' then Some cmd_partition_remove
        else if sub = ''list'' then Some cmd_partition_list
        else if sub = ''show'' then Some cmd_partition_show
        else None
      else if cmd = ''policy'' then
        if sub = ''add'' then Some cmd_policy_add
        else if sub = ''remove'' then Some cmd_policy_remove
        else if sub = ''list'' then Some cmd_policy_list
        else if sub = ''scan'' then Some cmd_policy_scan
        else None
      else
        if sub = ''mount'' then Some cmd_blend_mount
        else if sub = ''umount'' then Some cmd_blend_umount
        else None)"

definition one_word_command :: "string \<Rightarrow> 's command option" where
  "one_word_command cmd =
     (if cmd = ''export'' then Some cmd_export
      else if cmd = ''import'' then Some cmd_import
      else if cmd = ''mount'' then Some cmd_mount
      else if cmd = ''umount'' then Some cmd_umount
      else if cmd = ''snapshot'' then Some cmd_snapshot
      else if cmd = ''promote'' then Some cmd_promote
      else if cmd = ''demote'' then Some cmd_demote
      else if cmd = ''status'' then Some cmd_status
      else if cmd = ''verify'' then Some cmd_verify
      else None)"

text \<open>\<open>optind\<close> keeps the value that the global options left.\<close>

definition run_command :: "'s cli_env \<Rightarrow> bdfs_cli \<Rightarrow> nat \<Rightarrow> string list \<Rightarrow> 's \<Rightarrow> 's cli_result" where
  "run_command env cli optind sub_argv s =
     (let cmd = hd sub_argv in
      if cmd = ''partition'' \<or> cmd = ''policy'' \<or> cmd = ''blend'' then
        if length sub_argv < 2 then Some (1, [], s)
        else case two_word_command cmd (sub_argv ! 1) of
          None \<Rightarrow> Some (1, [], s)
        | Some f \<Rightarrow> f env cli optind (tl sub_argv) s
      else case one_word_command cmd of
          None \<Rightarrow> Some (1, [], s)
        | Some f \<Rightarrow> f env cli optind sub_argv s)"

definition cli_main :: "'s cli_env \<Rightarrow> string list \<Rightarrow> 's \<Rightarrow> 's cli_result" where
  "cli_main env argv s =
     (case parse_opts global_opts global_opt 1 argv cli_defaults of
        None \<Rightarrow> Some (1, [], s)
      | Some (Inl r) \<Rightarrow> Some (r, [], s)
      | Some (Inr (cli, sub_argv)) \<Rightarrow>
          if sub_argv = [] then Some (1, [], s)
          else map_option (\<lambda>(r, out, s'). (if r \<noteq> 0 then 1 else 0, out, s'))
                 (run_command env cli (length argv - length sub_argv) sub_argv s))"

end
