(* ===== verification/Bdfs_Cli_Props.thy ===== *)
theory Bdfs_Cli_Props
  imports Bdfs_Cli_Main Bdfs_Kernel_Props Bdfs_Policy_Props Bdfs_Netlink
begin

text \<open>
  Properties of the command line tool: UUIDs as text, the arguments it hands to the kernel,
  the way of a request through the kernel or the daemon's socket, and its exit codes.
\<close>

section \<open>Arguments of ioctls\<close>

text \<open>
  What the kernel may expect of an argument: UUIDs of 16 bytes, strings that fit their arrays
  with the terminator, the fields that are required, and known flags and values.
\<close>

definition text_ok :: "nat \<Rightarrow> string \<Rightarrow> bool" where
  "text_ok n t \<longleftrightarrow> length t < n"

fun ioctl_ok :: "ioctl_cmd \<Rightarrow> bool" where
  "ioctl_ok (BDFS_IOC_REGISTER_PARTITION a) \<longleftrightarrow>
     (let p = rp_part a in part_magic p = BDFS_MAGIC \<and> part_uuid p = zero_uuid \<and>
        part_type p \<in> {BDFS_PART_DWARFS_BACKED, BDFS_PART_BTRFS_BACKED, BDFS_PART_HYBRID_BLEND} \<and>
        part_device_path p \<noteq> [] \<and> text_ok BDFS_PATH_MAX (part_device_path p) \<and> text_ok 256 (part_label p) \<and>
        text_ok BDFS_PATH_MAX (part_mount_point p))"
| "ioctl_ok (BDFS_IOC_UNREGISTER_PARTITION a) \<longleftrightarrow> length (up_uuid a) = 16"
| "ioctl_ok (BDFS_IOC_LIST_PARTITIONS a) \<longleftrightarrow> lp_parts a \<and> 64 \<le> lp_count a"
| "ioctl_ok (BDFS_IOC_MOUNT_BLEND a) \<longleftrightarrow>
     length (mb_btrfs_uuid a) = 16 \<and> length (mb_dwarfs_uuid a) = 16 \<and> mb_mount_point a \<noteq> [] \<and>
     text_ok BDFS_PATH_MAX (mb_mount_point a)"
| "ioctl_ok (BDFS_IOC_UMOUNT_BLEND a) \<longleftrightarrow> ub_mount_point a \<noteq> [] \<and> text_ok BDFS_PATH_MAX (ub_mount_point a)"
| "ioctl_ok (BDFS_IOC_EXPORT_TO_DWARFS a) \<longleftrightarrow>
     length (ex_partition_uuid a) = 16 \<and> ex_btrfs_mount a \<noteq> [] \<and> text_ok BDFS_PATH_MAX (ex_btrfs_mount a) \<and>
     ex_image_name a \<noteq> [] \<and> text_ok 256 (ex_image_name a) \<and> text_ok BDFS_PATH_MAX (ex_parent_snap_path a) \<and>
     ex_compression a \<le> BDFS_COMPRESS_BROTLI \<and>
     (and (ex_flags a) BDFS_EXPORT_INCREMENTAL = 0 \<or> ex_parent_snap_path a \<noteq> [])"
| "ioctl_ok (BDFS_IOC_MOUNT_DWARFS_IMAGE a) \<longleftrightarrow>
     length (md_partition_uuid a) = 16 \<and> md_mount_point a \<noteq> [] \<and> text_ok BDFS_PATH_MAX (md_mount_point a)"
| "ioctl_ok (BDFS_IOC_UMOUNT_DWARFS_IMAGE a) \<longleftrightarrow> length (ud_partition_uuid a) = 16"
| "ioctl_ok (BDFS_IOC_LIST_DWARFS_IMAGES a) \<longleftrightarrow> li_images a \<and> 64 \<le> li_count a"
| "ioctl_ok (BDFS_IOC_IMPORT_FROM_DWARFS a) \<longleftrightarrow>
     length (im_partition_uuid a) = 16 \<and> im_btrfs_mount a \<noteq> [] \<and> text_ok BDFS_PATH_MAX (im_btrfs_mount a) \<and>
     im_subvol_name a \<noteq> [] \<and> text_ok 256 (im_subvol_name a)"
| "ioctl_ok (BDFS_IOC_SNAPSHOT_DWARFS_CONTAINER a) \<longleftrightarrow>
     length (sc_partition_uuid a) = 16 \<and> sc_snapshot_name a \<noteq> [] \<and> text_ok 256 (sc_snapshot_name a)"
| "ioctl_ok (BDFS_IOC_LIST_BTRFS_SUBVOLS a) \<longleftrightarrow> ls_subvols a \<and> 64 \<le> ls_count a"
| "ioctl_ok (BDFS_IOC_PROMOTE_TO_BTRFS m) \<longleftrightarrow> True"
| "ioctl_ok (BDFS_IOC_DEMOTE_TO_DWARFS m) \<longleftrightarrow> True"
| "ioctl_ok _ \<longleftrightarrow> False"


text \<open>The tool on the control device of the kernel module.\<close>

definition kernel_cli :: "'f vfs \<Rightarrow> kenv \<Rightarrow> 'f bstate cli_env \<Rightarrow> 'f bstate cli_env" where
  "kernel_cli v kenv env = env\<lparr>cl_ioctl := bdfs_ctl_ioctl v kenv\<rparr>"

text \<open>An image that \<open>verify\<close> checks and finds damaged.\<close>

definition image_fails :: "'s cli_env \<Rightarrow> bdfs_cli \<Rightarrow> verify_args \<Rightarrow> bdfs_dwarfs_image \<Rightarrow> bool" where
  "image_fails env cli a img \<longleftrightarrow>
     (va_image_id a = None \<or> va_image_id a = Some (img_image_id img)) \<and> img_backing_path img \<noteq> [] \<and>
     \<not> cl_dwarfsck env (dwarfsck_argv env (img_backing_path img) (va_checksum a) (cli_verbose cli))"

definition sample_cli_env :: "'f bstate cli_env" where
  "sample_cli_env = \<lparr>cl_open = \<lambda>_. True, cl_ioctl = \<lambda>_ s. (Inl (Eno ENOTTY), Out_none, s), cl_daemon = \<lambda>_ _ s. (None, s),
     cl_calloc = \<lambda>_. True, cl_executable = \<lambda>_. True, cl_dwarfsck = \<lambda>_. False, cl_elapsed = ''0.0'',
     cl_stack = \<lambda>_. 0\<rparr>"

text \<open>The text of a policy request with its fields, and fields without quotes and NULs.\<close>

definition request_text :: "string \<Rightarrow> string \<Rightarrow> string \<Rightarrow> string \<Rightarrow> string \<Rightarrow> bool \<Rightarrow> bool \<Rightarrow> string" where
  "request_text u n c p m r d =
     ''{\"cmd\":\"policy-add\",\"args\":{\"partition\":\"'' @ u @ ''\",\"age_days\":'' @ n @
      '',\"compression\":\"'' @ c @ ''\",\"name_pattern\":\"'' @ p @ ''\",\"min_size_bytes\":'' @ m @
      '',\"readonly\":'' @ json_bool r @ '',\"delete_after_demote\":'' @ json_bool d @ ''}}'' @ newline"

definition quotable :: "string \<Rightarrow> bool" where
  "quotable t \<longleftrightarrow> CHR 0x22 \<notin> set t \<and> CHR 0x00 \<notin> set t"

text \<open>The tool on the socket of the daemon, whose state it changes.\<close>

definition daemon_cli :: "client_env \<Rightarrow> bdfs_daemon cli_env \<Rightarrow> bdfs_daemon cli_env" where
  "daemon_cli cenv env = env\<lparr>cl_daemon := \<lambda>sock req d.
     case bdfs_handle_client cenv (Some req) d of None \<Rightarrow> (None, d) | Some (resp, d') \<Rightarrow> (resp, d')\<rparr>"

section \<open>UUIDs as text\<close>

lemma hex_val_digit: "d < 16 \<Longrightarrow> hex_val (digit_char d) = Some d"
  by (simp add: hex_val_def digit_char_code Let_def)

lemma byte_below: "unat (b :: u8) < 256"
proof -
  have "unat b < 2 ^ LENGTH(8)" by (rule unsigned_less)
  then show ?thesis by simp
qed

lemma byte_digits: "unat (b :: u8) div 16 < 16" "unat b mod 16 < 16"
  using byte_below [of b] by (simp_all add: less_mult_imp_div_less)

lemma scan_hex2: "scan_hex 2 (hex2 b @ r) = Some (False, unat b, r)"
proof -
  have "dropWhile is_space (hex2 b @ r) = hex2 b @ r" "scan_sign (hex2 b @ r) = (False, hex2 b @ r)"
    using digit_char_not_space [OF byte_digits(1)] digit_char_not_sign [OF byte_digits(1)]
    by (simp_all add: hex2_def scan_sign_def)
  moreover have "scan_digits hex_val 16 2 0 0 (hex2 b @ r) = (unat b, 2, r)"
    by (cases r) (simp_all add: hex2_def hex_val_digit byte_digits numeral_2_eq_2 split: option.split)
  ultimately show ?thesis by (simp add: scan_hex_def)
qed

lemma u8_via_u32: "ucast (conv_u32 False (unat (b :: u8))) = b"
proof -
  have "ucast (ucast (ucast b :: u64) :: u32) = b" by (rule bit_word_eqI) (simp add: bit_simps)
  then show ?thesis using byte_below [of b] by (simp add: conv_u32_def conv_u64_def)
qed

lemma sscanf_bytes:
  "sscanf (replicate (length bs) (SXw 2) @ fs) (hex_bytes bs @ r) =
   map (\<lambda>b. V32 (conv_u32 False (unat b))) bs @ sscanf fs r"
  by (induction bs) (simp_all add: hex_bytes_def scan_hex2)

lemma length_hex_bytes [simp]: "length (hex_bytes bs) = 2 * length bs"
  by (induction bs) (simp_all add: hex_bytes_def hex2_def)

lemma uuid_str_eq:
  assumes "length u = 16"
  shows "bdfs_uuid_to_str u = hex_bytes (take 4 u) @ ''-'' @ hex_bytes (take 2 (drop 4 u)) @ ''-'' @
      hex_bytes (take 2 (drop 6 u)) @ ''-'' @ hex_bytes (take 2 (drop 8 u)) @ ''-'' @ hex_bytes (take 6 (drop 10 u))"
  using assms unfolding bdfs_uuid_to_str_def by (intro snprintf_short) simp

lemma length_uuid_str: "length u = 16 \<Longrightarrow> length (bdfs_uuid_to_str u) = 36"
  by (simp add: uuid_str_eq)

lemma uuid_blocks:
  "length u = 16 \<Longrightarrow> take 4 u @ take 2 (drop 4 u) @ take 2 (drop 6 u) @ take 2 (drop 8 u) @ take 6 (drop 10 u) = (u :: uuid)"
  by (intro nth_equalityI) (auto simp: nth_append nth_take nth_drop)

lemma str_to_uuid_to_str:
  assumes "length u = 16"
  shows "bdfs_str_to_uuid (bdfs_uuid_to_str u) = Some u"
proof -
  let ?v = "map (\<lambda>b. V32 (conv_u32 False (unat b)))"
  have b: "sscanf (replicate n (SXw 2) @ fs) (hex_bytes bs @ r) = ?v bs @ sscanf fs r" if "length bs = n" for n bs fs r
    using sscanf_bytes [of bs fs r] that by simp
  have "sscanf uuid_format (bdfs_uuid_to_str u) =
      ?v (take 4 u @ take 2 (drop 4 u) @ take 2 (drop 6 u) @ take 2 (drop 8 u) @ take 6 (drop 10 u))"
    using assms b [of "take 6 (drop 10 u)" 6 "[]" "[]"] unfolding uuid_format_def uuid_str_eq [OF assms]
    by (simp add: b is_space_def)
  then have "sscanf uuid_format (bdfs_uuid_to_str u) = ?v u" using uuid_blocks [OF assms] by simp
  then show ?thesis using assms by (simp add: bdfs_str_to_uuid_def u8_via_u32 comp_def)
qed


section \<open>Arguments of commands\<close>






lemma text_ok_simps [simp]:
  "0 < n \<Longrightarrow> text_ok n []" "k < n \<Longrightarrow> text_ok n (strncpy k v)"
  by (simp_all add: text_ok_def strncpy_def)

lemma zero_uuid_length [simp]: "length zero_uuid = 16"
  by (simp add: zero_uuid_def)












lemma strict_list_cmds [simp]:
  "64 \<le> cap \<Longrightarrow> ioctl_ok (list_partitions_cmd cap)"
  "64 \<le> cap \<Longrightarrow> ioctl_ok (list_images_cmd u cap)"
  "64 \<le> cap \<Longrightarrow> ioctl_ok (list_subvols_cmd u cap)"
  by (simp_all add: list_partitions_cmd_def list_images_cmd_def list_subvols_cmd_def)
















section \<open>UUIDs\<close>

text \<open>
  A UUID printed by the tool is read back by the tool: the 36 characters that
  \<open>bdfs_uuid_to_str\<close> gives for any 16 bytes are parsed to the same bytes.
\<close>

theorem uuid_text_roundtrip:
  assumes "length u = 16"
  shows "length (bdfs_uuid_to_str u) = 36 \<and> bdfs_str_to_uuid (bdfs_uuid_to_str u) = Some u"
  using length_uuid_str str_to_uuid_to_str assms by blast

theorem uuid_text_roundtrip_witness: "bdfs_str_to_uuid (bdfs_uuid_to_str sample_uuid) = Some sample_uuid"
  using uuid_text_roundtrip [of sample_uuid] by (simp add: sample_uuid_def)

section \<open>Global options\<close>

lemma main_plain:
  assumes "\<not> is_opt_word cmd"
  shows "cli_main env (prog # cmd # ws) s =
    map_option (\<lambda>(r, out, s'). (if r \<noteq> 0 then 1 else 0, out, s')) (run_command env cli_defaults 1 (cmd # ws) s)"
  by (simp add: cli_main_def parse_opts_def getopt_words_stop [OF assms] Suc_diff_le del: getopt_words.simps(4))

lemma main_json:
  assumes "\<not> is_opt_word cmd"
  shows "cli_main env (prog # ''--json'' # cmd # ws) s =
    map_option (\<lambda>(r, out, s'). (if r \<noteq> 0 then 1 else 0, out, s'))
      (run_command env (cli_defaults\<lparr>cli_json_output := True\<rparr>) 2 (cmd # ws) s)"
proof -
  have "long_match global_opts ''json'' = Some (False, CHR ''j'')" by (simp add: long_match_def global_opts_def)
  then have "getopt_words global_opts None (''--json'' # cmd # ws) = ([Opt (CHR ''j'') []], cmd # ws)"
    using getopt_words_flag [of global_opts "''json''" "CHR ''j''" "cmd # ws"]
    by (simp add: getopt_words_stop [OF assms] del: getopt_words.simps)
  then show ?thesis
    by (simp add: cli_main_def parse_opts_def global_opt_def cli_defaults_def del: getopt_words.simps)
qed




section \<open>Lists\<close>

text \<open>Both passes of a fetch read all entries of a list that the kernel reports in full.\<close>

lemma fetch_all:
  assumes "\<And>cap. cl_ioctl env (cmd cap) s = (Inr (), out cap, s)"
    and "\<And>cap. sel (out cap) = \<lparr>lo_items = take (unat cap) ds, lo_count = Some (of_nat (min (unat cap) (length ds))),
      lo_total = Some (of_nat (length ds))\<rparr>"
    and "length ds < 2 ^ 32" and "\<And>n. cl_calloc env n"
  shows "fetch_list env z cmd sel check n s = (Fetched ds, s)"
proof -
  have b: "read_buffer z cap (of_nat (min (unat cap) (length ds))) (take (unat cap) ds) = Some ds"
    if "length ds \<le> unat cap" for cap
    using that assms(3) by (simp add: read_buffer_def min_absorb2 unat_of_nat)
  have le: "of_nat (length ds) > (64 :: u32) \<longleftrightarrow> 64 < length ds"
    using assms(3) by (simp add: word_less_nat_alt unat_of_nat)
  show ?thesis
  proof (cases "64 < length ds")
    case True
    moreover have "unat (of_nat (length ds) :: u32) = length ds" using assms(3) by (simp add: unat_of_nat)
    ultimately show ?thesis
      using b [of "of_nat (length ds)"] assms(1,2,4) le by (simp add: fetch_list_def of_buffer_def)
  next
    case False
    then show ?thesis using b [of 64] assms(1,2,4) le by (simp add: fetch_list_def of_buffer_def)
  qed
qed

lemma kernel_cli_simps [simp]:
  "cl_open (kernel_cli v kenv env) = cl_open env" "cl_calloc (kernel_cli v kenv env) = cl_calloc env"
  "cl_ioctl (kernel_cli v kenv env) = bdfs_ctl_ioctl v kenv" "cl_dwarfsck (kernel_cli v kenv env) = cl_dwarfsck env"
  "dwarfsck_argv (kernel_cli v kenv env) = dwarfsck_argv env"
  by (simp_all add: kernel_cli_def dwarfsck_argv_def [abs_def] find_dwarfsck_def)

lemma fetch_partitions:
  assumes "uaccess_ok kenv" and "length (partition_list s) < 2 ^ 32" and "\<And>n. cl_calloc env n"
  shows "fetch_list (kernel_cli v kenv env) z list_partitions_cmd out_partitions check n s =
    (Fetched (map ent_desc (partition_list s)), s)"
proof (rule fetch_all [where out = "\<lambda>cap. Out_partitions (snd (list_ioctl kenv cap True (map ent_desc (partition_list s))))"])
qed (use assms in \<open>simp_all add: list_partitions_cmd_def bdfs_list_partitions_def list_ioctl_ok out_partitions_def uaccess_ok_def\<close>)

lemma fetch_images:
  assumes "uaccess_ok kenv" and "bdfs_find_partition_locked u s = Some e" and "ent_private e = Some (DwarfsPriv p)"
    and "length (dp_images p) < 2 ^ 32" and "\<And>n. cl_calloc env n"
  shows "fetch_list (kernel_cli v kenv env) z (list_images_cmd u) out_images check n s = (Fetched (dp_images p), s)"
proof (rule fetch_all [where out = "\<lambda>cap. Out_images (snd (list_ioctl kenv cap True (dp_images p)))"])
qed (use assms in \<open>simp_all add: list_images_cmd_def bdfs_dwarfs_list_images_def list_ioctl_ok out_images_def uaccess_ok_def\<close>)

text \<open>
  C37: \<open>bdfs --json partition list\<close> prints every registered partition, however many there are:
  a second ioctl with a buffer of the reported size follows the first one when there are more
  than 64, and the output is the array of all descriptors in the order of the registry.
\<close>

theorem cli_lists_all_partitions:
  assumes "uaccess_ok kenv" and "length (partition_list s) < 2 ^ 32" and "\<And>n. cl_calloc env n"
    and "cl_open env ''/dev/bdfs_ctl''"
  shows "cli_main (kernel_cli v kenv env) [prog, ''--json'', ''partition'', ''list''] s =
    Some (0, ''['' @ commas 0 (map (partition_json \<circ> ent_desc) (partition_list s)) @ '']'' @ newline, s)"
  using assms fetch_partitions [OF assms(1-3)]
  by (simp add: main_json is_opt_word_def run_command_def two_word_command_def cmd_partition_list_def cli_defaults_def
      json_text_def)

theorem cli_lists_all_partitions_witness:
  "cli_main (kernel_cli tree_vfs quiet_env sample_cli_env) [''bdfs'', ''--json'', ''partition'', ''list'']
     (with_part BDFS_PART_DWARFS_BACKED []) =
   Some (0, ''['' @ partition_json (sample_part BDFS_PART_DWARFS_BACKED) @ '']'' @ newline, with_part BDFS_PART_DWARFS_BACKED [])"
  using cli_lists_all_partitions [of quiet_env "with_part BDFS_PART_DWARFS_BACKED []" sample_cli_env tree_vfs "''bdfs''"]
  by (simp add: uaccess_ok_def with_part_list sample_cli_env_def)

section \<open>Verify\<close>

lemma verify_loop_fail:
  "0 < vf_fail (verify_loop env cli a i imgs st) \<longleftrightarrow> 0 < vf_fail st \<or> (\<exists>img \<in> set imgs. image_fails env cli a img)"
  by (induction imgs arbitrary: i st) (auto simp: image_fails_def Let_def)

text \<open>
  C38: the exit code of \<open>bdfs verify --partition u\<close> tells whether \<open>dwarfsck\<close> rejects an image:
  it is 1 exactly when some image that the kernel knows on the partition has a file that fails
  the check.
\<close>

theorem cli_verify_exit_code:
  assumes "uaccess_ok kenv" and "length u = 16" and "bdfs_find_partition_locked u s = Some e"
    and "ent_private e = Some (DwarfsPriv p)" and "length (dp_images p) < 2 ^ 32" and "\<And>n. cl_calloc env n"
    and "cl_open env ''/dev/bdfs_ctl''"
  shows "cli_main (kernel_cli v kenv env) [prog, ''verify'', ''--partition'', bdfs_uuid_to_str u] s =
    Some (if \<exists>img \<in> set (dp_images p). img_backing_path img \<noteq> [] \<and>
            \<not> cl_dwarfsck env (dwarfsck_argv env (img_backing_path img) None False) then 1 else 0, [], s)"
proof -
  let ?a = "\<lparr>va_partition_uuid = u, va_image_id = None, va_checksum = None, va_fix = False, va_quiet = False\<rparr>"
  have "long_match verify_opts ''partition'' = Some (True, CHR ''p'')" by (simp add: long_match_def verify_opts_def)
  then have "parse_opts verify_opts verify_opt 1 [''verify'', ''--partition'', bdfs_uuid_to_str u]
      (?a\<lparr>va_partition_uuid := zero_uuid\<rparr>) = Some (Inr (?a, []))"
    using getopt_words_arg [of verify_opts "''partition''" "CHR ''p''" "bdfs_uuid_to_str u" "[]"]
    by (simp add: parse_opts_def verify_opt_def uuid_opt_def str_to_uuid_to_str [OF assms(2)] del: getopt_words.simps(4))
  then show ?thesis
    using fetch_images [OF assms(1,3-6)] assms(7)
    by (auto simp: main_plain is_opt_word_def run_command_def one_word_command_def cmd_verify_def with_opts_def
        cli_defaults_def json_text_def verify_loop_fail Let_def image_fails_def simp del: verify_loop.simps)
qed

theorem cli_verify_exit_code_witness:
  "cli_main (kernel_cli tree_vfs quiet_env sample_cli_env) [''bdfs'', ''verify'', ''--partition'', bdfs_uuid_to_str sample_uuid]
     (with_image []) = Some (1, [], with_image [])"
proof -
  let ?p = "\<lparr>dp_images = [], dp_next_image_id = 1, dp_backing_dir = []\<rparr>"
  let ?e = "hd (partition_list (with_part BDFS_PART_DWARFS_BACKED ([] :: tree_fs)))"
  have "bdfs_find_partition_locked sample_uuid (with_image ([] :: tree_fs)) =
      Some (?e\<lparr>ent_private := Some (DwarfsPriv (dwarfs_add_image (export_image sample_export ?p) ?p))\<rparr>)"
    using with_part_find [of "[] :: tree_fs"]
    by (simp add: with_image_def bdfs_dwarfs_export_def with_part_list sample_export_def sample_part_def Let_def)
  from cli_verify_exit_code [OF _ _ this, where kenv = quiet_env and env = sample_cli_env and v = tree_vfs
      and prog = "''bdfs''" and p = "dwarfs_add_image (export_image sample_export ?p) ?p"]
  show ?thesis
    by (simp add: uaccess_ok_def sample_cli_env_def sample_uuid_def dwarfs_add_image_def export_image_def sample_export_def)
qed

end
