(* ===== verification/Bdfs_Policy_Request.thy ===== *)
theory Bdfs_Policy_Request
  imports Bdfs_Cli_Props
begin

text \<open>
  A policy request on its way from the arguments of \<open>bdfs policy add\<close> through the text of the
  request and the daemon's search for keys into the rules of the policy engine.
\<close>

section \<open>The answer to a request\<close>



section \<open>The text of a request\<close>

lemma quotable_digits: "\<forall>c \<in> set t. \<exists>d < 16. c = digit_char d \<Longrightarrow> quotable t"
proof -
  have "digit_char d \<noteq> CHR 0x22 \<and> digit_char d \<noteq> CHR 0x00" if "d < 16" for d
    using digit_char_code [OF that] by (auto split: if_splits)
  then show "\<forall>c \<in> set t. \<exists>d < 16. c = digit_char d \<Longrightarrow> quotable t" by (force simp: quotable_def)
qed



lemma quotable_append [simp]: "quotable (s @ t) \<longleftrightarrow> quotable s \<and> quotable t"
  by (auto simp: quotable_def)

lemma quotable_hex_bytes [simp]: "quotable (hex_bytes bs)"
proof (rule quotable_digits)
  have "d < 16 \<Longrightarrow> \<exists>e < 16. digit_char d = digit_char e" for d by blast
  then show "\<forall>c \<in> set (hex_bytes bs). \<exists>d < 16. c = digit_char d"
    by (auto simp: hex_bytes_def hex2_def byte_digits)
qed











section \<open>Serving a request\<close>






text \<open>A quoted command word is taken for the command wherever it stands, also as a name pattern.\<close>

lemma has_word_infix: "has_word (x @ w @ y) w"
  by (induction x) (auto simp: has_word_def)

lemma quoted_status_is_status:
  "\<not> has_word (x @ ''\"status\"'' @ y) ''\"list-partitions\"'' \<Longrightarrow>
   client_dispatch cenv (x @ ''\"status\"'' @ y) d = Some (status_response d, d)"
  using has_word_infix [of x "''\"status\"''" y] by (simp only: client_dispatch_def) simp

section \<open>From the command line to the policy engine\<close>



end
