(* ===== verification/Bdfs_Life.thy ===== *)
theory Bdfs_Life
  imports Bdfs_Socket Bdfs_Netlink Bdfs_Getopt Bdfs_Daemon_Props
begin

text \<open>
  The life of the daemon process (\<open>bdfs_daemon.c\<close>): start-up with its error paths, the options
  of its command line, the event loop, and shutdown.  The process is a step relation in which
  the event loop, the policy thread and the workers take turns: a round of the loop serves
  netlink messages or a client, a scan of the policy thread is one step, and the workers take
  and finish jobs.  What is enqueued goes to the end of the queue and workers take from its
  front, so that a scan may be taken as one step.
\<close>

section \<open>Start-up\<close>

text \<open>
  The calls that make the netlink socket and the control socket, each with its return code and
  the calls made.  The address of the control socket holds 107 characters of the path.  The
  buffer for its directory is not cleared: a path of 255 characters leaves no terminator in it,
  and the string runs on into the \<open>stack\<close> behind.
\<close>

datatype sock_call =
    Sk_socket int
  | Sk_bind_group
  | Sk_mkdir string
  | Sk_unlink string
  | Sk_bind string
  | Sk_chmod string
  | Sk_listen

definition bdfs_netlink_init :: "(sock_call \<Rightarrow> errno option) \<Rightarrow> int \<Rightarrow> int \<times> sock_call list" where
  "bdfs_netlink_init answer proto =
     (case answer (Sk_socket proto) of
        Some e \<Rightarrow> (- errno_code e, [Sk_socket proto])
      | None \<Rightarrow>
          (case answer Sk_bind_group of
             Some e \<Rightarrow> (- errno_code e, [Sk_socket proto, Sk_bind_group])
           | None \<Rightarrow> (0, [Sk_socket proto, Sk_bind_group])))"

definition socket_dir :: "string \<Rightarrow> string \<Rightarrow> string option" where
  "socket_dir stack path =
     (let dir = (if length path < 255 then path else take 255 path @ stack)
      in map_option (\<lambda>i. take i dir) (strrchr_index dir (CHR ''/'')))"

definition bdfs_socket_init :: "(sock_call \<Rightarrow> errno option) \<Rightarrow> string \<Rightarrow> string \<Rightarrow> int \<times> sock_call list" where
  "bdfs_socket_init answer stack path =
     (let mk = (case socket_dir stack path of None \<Rightarrow> [] | Some dir \<Rightarrow> [Sk_mkdir dir]);
          made = (case mk of [] \<Rightarrow> None | c # _ \<Rightarrow> (case answer c of Some e \<Rightarrow> if e = EEXIST then None else Some e | None \<Rightarrow> None));
          addr = Sk_bind (strncpy 107 path)
      in case made of
           Some e \<Rightarrow> (- errno_code e, mk)
         | None \<Rightarrow>
             (case answer (Sk_socket 0) of
                Some e \<Rightarrow> (- errno_code e, mk @ [Sk_socket 0])
              | None \<Rightarrow>
                  (case answer addr of
                     Some e \<Rightarrow> (- errno_code e, mk @ [Sk_socket 0, Sk_unlink path, addr])
                   | None \<Rightarrow>
                       (case answer Sk_listen of
                          Some e \<Rightarrow> (- errno_code e, mk @ [Sk_socket 0, Sk_unlink path, addr, Sk_chmod path, Sk_listen])
                        | None \<Rightarrow> (0, mk @ [Sk_socket 0, Sk_unlink path, addr, Sk_chmod path, Sk_listen])))))"

text \<open>
  The answers of the system: \<open>mkdir\<close>, \<open>open\<close> of the control device, \<open>calloc\<close> for the given
  number of thread handles, the n-th \<open>pthread_create\<close>, the sockets, the policy engine.
\<close>

record start_env =
  st_mkdir :: "errno option"
  st_open :: "errno option"
  st_calloc :: "int \<Rightarrow> bool"
  st_create :: "nat \<Rightarrow> int"
  st_netlink :: "sock_call \<Rightarrow> errno option"
  st_socket :: "sock_call \<Rightarrow> errno option"
  st_stack :: string
  st_policy_calloc :: bool
  st_policy_create :: int
  st_errno :: int

text \<open>The loop that starts workers, from \<open>i\<close> on with \<open>k\<close> to go: return code and workers started.\<close>

fun spawn_workers :: "(nat \<Rightarrow> int) \<Rightarrow> nat \<Rightarrow> nat \<Rightarrow> int \<times> nat" where
  "spawn_workers create i 0 = (0, i)"
| "spawn_workers create i (Suc k) =
     (if create i \<noteq> 0 then (- create i, i) else spawn_workers create (Suc i) k)"

definition zero_daemon :: bdfs_daemon where
  "zero_daemon = \<lparr>dm_worker_count = 0, dm_pool = init_pool 0,
     dm_sys = \<lparr>sy_errno = 0, sy_trace = [], sy_mounts = []\<rparr>, dm_policy = None\<rparr>"

definition start_policy :: "start_env \<Rightarrow> bdfs_policy_engine option" where
  "start_policy env =
     (if \<not> st_policy_calloc env then None
      else let (rc, pe) = bdfs_policy_init (st_policy_create env) (st_errno env)
           in if rc \<noteq> 0 then None else Some pe)"

definition bdfs_daemon_init :: "start_env \<Rightarrow> bdfs_daemon_config \<Rightarrow> int \<times> bdfs_daemon" where
  "bdfs_daemon_init env cfg =
     (let c = apply_defaults cfg in
      case (case st_mkdir env of Some e \<Rightarrow> if e = EEXIST then None else Some e | None \<Rightarrow> None) of
        Some e \<Rightarrow> (- errno_code e, zero_daemon)
      | None \<Rightarrow>
          (case st_open env of
             Some e \<Rightarrow> (- errno_code e, zero_daemon)
           | None \<Rightarrow>
               let n = cfg_worker_threads c; d = zero_daemon\<lparr>dm_worker_count := n\<rparr> in
               if \<not> st_calloc env n then (- errno_code ENOMEM, d)
               else
                 let (rc, k) = spawn_workers (st_create env) 0 (nat n);
                     d1 = d\<lparr>dm_pool := init_pool k\<rparr>
                 in if rc \<noteq> 0 then (rc, d1\<lparr>dm_worker_count := int k\<rparr>)
                    else
                      let nl = fst (bdfs_netlink_init (st_netlink env) (cfg_netlink_proto c));
                          sk = fst (bdfs_socket_init (st_socket env) (st_stack env) (cfg_socket_path c))
                      in if nl \<noteq> 0 then (nl, d1)
                         else if sk \<noteq> 0 then (sk, d1)
                         else (0, d1\<lparr>dm_policy := start_policy env\<rparr>)))"

text \<open>Both sockets are made: every call succeeds, where the directory may exist.\<close>

definition sockets_made :: "start_env \<Rightarrow> bdfs_daemon_config \<Rightarrow> bool" where
  "sockets_made env c \<longleftrightarrow>
     st_netlink env (Sk_socket (cfg_netlink_proto c)) = None \<and> st_netlink env Sk_bind_group = None \<and>
     (case socket_dir (st_stack env) (cfg_socket_path c) of None \<Rightarrow> True
      | Some dir \<Rightarrow> st_socket env (Sk_mkdir dir) \<in> {None, Some EEXIST}) \<and>
     st_socket env (Sk_socket 0) = None \<and> st_socket env (Sk_bind (strncpy 107 (cfg_socket_path c))) = None \<and>
     st_socket env Sk_listen = None"

section \<open>The process\<close>

text \<open>
  The event loop runs, the workers are being joined, the descriptors are closed, all is over.
  \<open>lf_late\<close> records the jobs that were enqueued when no worker was left.
\<close>

datatype phase = Serving | Joining | Closed | Ended

record life =
  lf_daemon :: bdfs_daemon
  lf_phase :: phase
  lf_late :: "bdfs_job list"

definition with_daemon :: "life \<Rightarrow> bdfs_daemon \<Rightarrow> life" where
  "with_daemon l d =
     l\<lparr>lf_daemon := d,
       lf_late := lf_late l @
         (if all_joined (dm_pool (lf_daemon l))
          then drop (length (pl_queue (dm_pool (lf_daemon l)))) (pl_queue (dm_pool d)) else [])\<rparr>"

text \<open>The three parts of \<open>bdfs_daemon_shutdown\<close>: before, between and after the two joins.\<close>

definition shutdown_begin :: "life \<Rightarrow> life" where
  "shutdown_begin l =
     l\<lparr>lf_phase := Joining,
       lf_daemon := (lf_daemon l)\<lparr>dm_pool := (dm_pool (lf_daemon l))\<lparr>pl_shutdown := True\<rparr>\<rparr>\<rparr>"

definition shutdown_close :: "life \<Rightarrow> life" where
  "shutdown_close l = l\<lparr>lf_phase := Closed\<rparr>"

definition shutdown_end :: "life \<Rightarrow> life" where
  "shutdown_end l =
     l\<lparr>lf_phase := Ended,
       lf_daemon := (lf_daemon l)\<lparr>dm_policy := None, dm_sys := (dm_sys (lf_daemon l))\<lparr>sy_mounts := []\<rparr>\<rparr>\<rparr>"

text \<open>On the closed control device every list ioctl fails.\<close>

definition closed_device :: "policy_env \<Rightarrow> policy_env" where
  "closed_device pv = pv\<lparr>pv_list := \<lambda>k again arg. (Inl (Eno (Eother 8)), no_list_out)\<rparr>"

text \<open>One scan of the policy thread.\<close>

definition thread_scan :: "policy_env \<Rightarrow> phase \<Rightarrow> bdfs_daemon \<Rightarrow> bdfs_daemon option" where
  "thread_scan pv ph d =
     (case dm_policy d of
        None \<Rightarrow> None
      | Some pe \<Rightarrow>
          map_option (\<lambda>(n, pe', pool'). d\<lparr>dm_policy := Some pe', dm_pool := pool'\<rparr>)
            (bdfs_policy_scan (if ph = Closed then closed_device pv else pv) pe (dm_pool d)))"

inductive life_step :: "bdfs_daemon_config \<Rightarrow> life \<Rightarrow> life \<Rightarrow> bool" for cfg where
  netlink: "lf_phase l = Serving \<Longrightarrow> d = lf_daemon l \<Longrightarrow>
    life_step cfg l (with_daemon l (d\<lparr>dm_pool := bdfs_netlink_loop alloc received (dm_pool d)\<rparr>))"
| client: "lf_phase l = Serving \<Longrightarrow> bdfs_socket_loop env c (lf_daemon l) = Some (resp, d') \<Longrightarrow>
    life_step cfg l (with_daemon l d')"
| scan: "lf_phase l \<noteq> Ended \<Longrightarrow> thread_scan pv (lf_phase l) (lf_daemon l) = Some d' \<Longrightarrow>
    life_step cfg l (with_daemon l d')"
| take: "d = lf_daemon l \<Longrightarrow> i < length (pl_workers (dm_pool d)) \<Longrightarrow> pl_workers (dm_pool d) ! i = Idle \<Longrightarrow>
    life_step cfg l (l\<lparr>lf_daemon := d\<lparr>dm_pool := worker_fetch i (dm_pool d)\<rparr>\<rparr>)"
| finish: "d = lf_daemon l \<Longrightarrow> i < length (pl_workers (dm_pool d)) \<Longrightarrow> pl_workers (dm_pool d) ! i = Running job \<Longrightarrow>
    run_state (run_job env cfg fuel job) (dm_sys d) = (Some r, s') \<Longrightarrow>
    life_step cfg l (l\<lparr>lf_daemon := d\<lparr>dm_pool := worker_done i job (dm_pool d), dm_sys := s'\<rparr>\<rparr>)"
| stop: "lf_phase l = Serving \<Longrightarrow> life_step cfg l (shutdown_begin l)"
| joined: "lf_phase l = Joining \<Longrightarrow> all_joined (dm_pool (lf_daemon l)) \<Longrightarrow> life_step cfg l (shutdown_close l)"
| ended: "lf_phase l = Closed \<Longrightarrow> life_step cfg l (shutdown_end l)"

definition born :: "bdfs_daemon \<Rightarrow> life" where
  "born d = \<lparr>lf_daemon = d, lf_phase = Serving, lf_late = []\<rparr>"

text \<open>The options of the daemon, and \<open>main\<close>: an exit code, or the running process.\<close>

definition daemon_opts :: opt_table where
  "daemon_opts =
     [([], False, CHR ''f''), ([], True, CHR ''c''), ([], True, CHR ''s''), ([], True, CHR ''d''), ([], True, CHR ''j''),
      ([], False, CHR ''v'')]"

definition daemon_opt :: "char \<Rightarrow> string \<Rightarrow> bdfs_daemon_config \<Rightarrow> int + bdfs_daemon_config" where
  "daemon_opt c v cfg =
     (if c = CHR ''f'' then Inr (cfg\<lparr>cfg_daemonize := False\<rparr>)
      else if c = CHR ''c'' then Inr (cfg\<lparr>cfg_ctl_device := strncpy 255 v\<rparr>)
      else if c = CHR ''s'' then Inr (cfg\<lparr>cfg_socket_path := strncpy 255 v\<rparr>)
      else if c = CHR ''d'' then Inr (cfg\<lparr>cfg_state_dir := strncpy 255 v\<rparr>)
      else if c = CHR ''j'' then Inr (cfg\<lparr>cfg_worker_threads := sint (atoi_u32 v)\<rparr>)
      else if c = CHR ''v'' then Inr (cfg\<lparr>cfg_verbose := True\<rparr>)
      else Inl 1)"

definition zero_config :: bdfs_daemon_config where
  "zero_config = \<lparr>cfg_ctl_device = [], cfg_socket_path = [], cfg_state_dir = [], cfg_mkdwarfs_bin = [], cfg_dwarfs_bin = [],
     cfg_dwarfsextract_bin = [], cfg_dwarfsck_bin = [], cfg_btrfs_bin = [], cfg_worker_threads = 0, cfg_netlink_proto = 0,
     cfg_daemonize = True, cfg_verbose = False\<rparr>"

definition daemon_main :: "start_env \<Rightarrow> bool \<Rightarrow> string list \<Rightarrow> int + (bdfs_daemon_config \<times> life)" where
  "daemon_main env detached argv =
     (case opt_loop daemon_opt (getopt_permute daemon_opts None (tl argv)) zero_config of
        Inl r \<Rightarrow> Inl r
      | Inr cfg \<Rightarrow>
          if cfg_daemonize cfg \<and> \<not> detached then Inl 1
          else case bdfs_daemon_init env cfg of
            (rc, d) \<Rightarrow> if rc \<noteq> 0 then Inl 1 else Inr (apply_defaults cfg, born d))"

text \<open>
  What every reachable process satisfies.  A worker leaves on shutdown only; when all have
  left, what is in the queue was enqueued after that, and until then nothing counts as late.
\<close>

definition life_inv :: "life \<Rightarrow> bool" where
  "life_inv l \<longleftrightarrow>
     (let p = dm_pool (lf_daemon l) in
      pool_inv p \<and> pl_workers p \<noteq> [] \<and> (pl_shutdown p \<longleftrightarrow> lf_phase l \<noteq> Serving) \<and>
      (lf_phase l \<in> {Closed, Ended} \<longrightarrow> all_joined p) \<and>
      (if all_joined p then pl_queue p = lf_late l else lf_late l = []))"


section \<open>Samples\<close>

definition started_env :: start_env where
  "started_env = \<lparr>st_mkdir = Some EEXIST, st_open = None, st_calloc = \<lambda>n. 0 \<le> n, st_create = \<lambda>_. 0, st_netlink = \<lambda>_. None,
     st_socket = \<lambda>_. None, st_stack = [], st_policy_calloc = True, st_policy_create = 0, st_errno = 0\<rparr>"

definition one_worker :: bdfs_daemon_config where
  "one_worker = zero_config\<lparr>cfg_worker_threads := 1\<rparr>"

definition exit_worker :: "life \<Rightarrow> life" where
  "exit_worker l = l\<lparr>lf_daemon := (lf_daemon l)\<lparr>dm_pool := worker_fetch 0 (dm_pool (lf_daemon l))\<rparr>\<rparr>"

definition one_worker_daemon :: bdfs_daemon where
  "one_worker_daemon = zero_daemon\<lparr>dm_worker_count := 1, dm_pool := init_pool 1, dm_policy := start_policy started_env\<rparr>"

section \<open>Lemmas\<close>

text \<open>Whatever the event loop and the policy thread do, they append to the queue.\<close>

lemma enqueue_one: "bdfs_daemon_enqueue j p = enqueue_all [j] p"
  by (simp add: enqueue_all_def bdfs_daemon_enqueue_def)

lemma netlink_messages_append: "\<exists>js. netlink_messages alloc ms p = enqueue_all js p"
proof (induction alloc ms p rule: netlink_messages.induct)
  case (2 alloc m ms p)
  have e: "\<exists>js. bdfs_handle_event a evt p = enqueue_all js p" for a evt
    by (cases "event_job evt") (auto simp: bdfs_handle_event_def enqueue_one intro: exI [of _ "[]"])
  show ?case
  proof (cases "nlm_type m = NLMSG_DONE")
    case True
    then show ?thesis by (intro exI [of _ "[]"]) simp
  next
    case False
    let ?p = "if nlm_type m \<noteq> NLMSG_ERROR then bdfs_handle_event (alloc 0) (nlm_event m) p else p"
    have "\<exists>js. ?p = enqueue_all js p"
      using e [of "alloc 0" "nlm_event m"] by (cases "nlm_type m = NLMSG_ERROR") (auto intro: exI [of _ "[]"])
    then obtain js where "?p = enqueue_all js p" by blast
    moreover obtain ks where "netlink_messages (\<lambda>i. alloc (Suc i)) ms ?p = enqueue_all ks ?p"
      using 2 [OF False] by blast
    ultimately have "netlink_messages alloc (m # ms) p = enqueue_all (js @ ks) p"
      using False by (simp add: enqueue_all_append)
    then show ?thesis by blast
  qed
qed (auto intro: exI [of _ "[]"])

lemma netlink_loop_append: "\<exists>js. bdfs_netlink_loop alloc received p = enqueue_all js p"
  using netlink_messages_append by (cases received) (auto simp: bdfs_netlink_loop_def intro: exI [of _ "[]"])

lemma policy_scan_append:
  "bdfs_policy_scan pv pe p = Some (n, pe', p') \<Longrightarrow> \<exists>js. p' = enqueue_all js p"
  by (auto simp: bdfs_policy_scan_def scan_rules_jobs fold_demote split: if_splits)

lemma client_append:
  assumes "bdfs_socket_loop env c d = Some (resp, d')"
  shows "\<exists>js. dm_pool d' = enqueue_all js (dm_pool d)"
proof -
  have "\<exists>js. dm_pool d' = enqueue_all js (dm_pool d)" if "bdfs_handle_client env r d = Some (x, d')" for r x
    using handle_client_cases [OF that]
    by (auto dest!: client_dispatch_cases client_add_cases client_remove_cases client_scan_cases policy_scan_append
        intro: exI [of _ "[]"])
  then show ?thesis using assms by (auto simp: bdfs_socket_loop_def split: option.splits intro: exI [of _ "[]"])
qed

lemma thread_scan_append:
  "thread_scan pv ph d = Some d' \<Longrightarrow> \<exists>js. dm_pool d' = enqueue_all js (dm_pool d)"
  by (auto simp: thread_scan_def dest!: policy_scan_append split: option.splits)

lemma enqueue_all_simps [simp]:
  "pl_workers (enqueue_all js p) = pl_workers p" "pl_shutdown (enqueue_all js p) = pl_shutdown p"
  "pl_queue (enqueue_all js p) = pl_queue p @ js" "all_joined (enqueue_all js p) = all_joined p"
  "pool_inv p \<Longrightarrow> pool_inv (enqueue_all js p)"
  by (auto simp: enqueue_all_def all_joined_def pool_inv_def running_jobs_def)

lemma with_daemon_inv:
  assumes "life_inv l" and "\<exists>js. dm_pool d' = enqueue_all js (dm_pool (lf_daemon l))"
  shows "life_inv (with_daemon l d')"
  using assms by (auto simp: life_inv_def with_daemon_def Let_def)

lemma not_joined: "i < length (pl_workers p) \<Longrightarrow> pl_workers p ! i \<noteq> Exited_worker \<Longrightarrow> \<not> all_joined p"
  by (auto simp: all_joined_def)

lemma take_inv:
  assumes "life_inv l" and "d = lf_daemon l" and "i < length (pl_workers (dm_pool d))" and "pl_workers (dm_pool d) ! i = Idle"
  shows "life_inv (l\<lparr>lf_daemon := d\<lparr>dm_pool := worker_fetch i (dm_pool d)\<rparr>\<rparr>)"
proof -
  let ?p = "dm_pool d" and ?q = "worker_fetch i (dm_pool d)"
  have n: "\<not> all_joined ?p" using assms(3,4) by (intro not_joined [of i]) simp_all
  have late: "lf_late l = []" and inv: "pool_inv ?q" and ne: "pl_workers ?q \<noteq> []" and sh: "pl_shutdown ?q = pl_shutdown ?p"
    using assms n pool_inv_fetch [OF _ assms(3,4)]
    by (auto simp: life_inv_def Let_def worker_fetch_def split: list.split)
  have "all_joined ?q \<Longrightarrow> pl_queue ?q = []"
  proof (cases "pl_queue ?p")
    case (Cons j js)
    then have "pl_workers ?q ! i = Running j" "i < length (pl_workers ?q)" using assms(3) by (simp_all add: worker_fetch_def)
    then have "\<not> all_joined ?q" by (intro not_joined [of i]) simp_all
    then show "all_joined ?q \<Longrightarrow> pl_queue ?q = []" by simp
  qed (simp add: worker_fetch_def)
  then show ?thesis using assms(1,2) n late inv ne sh by (auto simp: life_inv_def Let_def)
qed

lemma finish_inv:
  assumes "life_inv l" and "d = lf_daemon l" and "i < length (pl_workers (dm_pool d))" and "pl_workers (dm_pool d) ! i = Running job"
  shows "life_inv (l\<lparr>lf_daemon := d\<lparr>dm_pool := worker_done i job (dm_pool d), dm_sys := s'\<rparr>\<rparr>)"
proof -
  let ?p = "dm_pool d" and ?q = "worker_done i job (dm_pool d)"
  have "\<not> all_joined ?p" using assms(3,4) by (intro not_joined [of i]) simp_all
  moreover have "\<not> all_joined ?q" using assms(3) by (intro not_joined [of i]) (simp_all add: worker_done_def)
  ultimately show ?thesis
    using assms pool_inv_done [OF _ assms(3,4)] by (auto simp: life_inv_def Let_def worker_done_def)
qed

lemma life_step_inv: "life_step cfg l l' \<Longrightarrow> life_inv l \<Longrightarrow> life_inv l'"
proof (induction rule: life_step.induct)
  case (netlink l d alloc received)
  then show ?case using netlink_loop_append by (intro with_daemon_inv) simp_all
next
  case (client l env c resp d')
  then show ?case using client_append by (intro with_daemon_inv) simp_all
next
  case (scan l pv d')
  then show ?case using thread_scan_append by (intro with_daemon_inv) simp_all
next
  case (take d l i)
  then show ?case by (intro take_inv)
next
  case (finish d l i job env fuel r s')
  then show ?case by (intro finish_inv)
next
  case (stop l)
  then show ?case
    by (auto simp: life_inv_def shutdown_begin_def Let_def pool_inv_def running_jobs_def all_joined_def split: if_splits)
qed (auto simp: life_inv_def shutdown_close_def shutdown_end_def Let_def)

lemma life_reachable_inv: "(life_step cfg)\<^sup>*\<^sup>* l l' \<Longrightarrow> life_inv l \<Longrightarrow> life_inv l'"
  by (induction rule: rtranclp_induct) (auto intro: life_step_inv)

text \<open>After the descriptors were closed, a scan enqueues nothing.\<close>

lemma closed_scan:
  assumes "thread_scan pv Closed d = Some d'"
  shows "dm_pool d' = dm_pool d"
proof -
  have f: "fetch_subvols (closed_device pv) k rule = Some []" for k rule
    by (simp add: fetch_subvols_def closed_device_def)
  have "scan_jobs (closed_device pv) k rules = []" for k rules
    by (force simp: scan_jobs_def listed_def f rule_jobs_def)
  then show ?thesis
    using assms by (auto simp: thread_scan_def bdfs_policy_scan_def scan_rules_jobs fold_demote enqueue_all_def
        split: option.splits if_splits)
qed

lemma spawn_workers_all:
  "(fst (spawn_workers create i k) = 0 \<longleftrightarrow> (\<forall>j < k. create (i + j) = 0)) \<and>
   ((\<forall>j < k. create (i + j) = 0) \<longrightarrow> spawn_workers create i k = (0, i + k))"
proof (induction k arbitrary: i)
  case (Suc k)
  have "(\<forall>j < Suc k. create (i + j) = 0) \<longleftrightarrow> create i = 0 \<and> (\<forall>j < k. create (Suc i + j) = 0)"
    by (auto simp: less_Suc_eq_0_disj)
  then show ?case using Suc.IH [of "Suc i"] by auto
qed simp

lemma sockets_made_iff:
  "sockets_made env c \<longleftrightarrow>
     fst (bdfs_netlink_init (st_netlink env) (cfg_netlink_proto c)) = 0 \<and>
     fst (bdfs_socket_init (st_socket env) (st_stack env) (cfg_socket_path c)) = 0"
  by (auto simp: sockets_made_def bdfs_netlink_init_def bdfs_socket_init_def Let_def split: option.splits)

lemma init_result:
  assumes "bdfs_daemon_init env cfg = (rc, d)" and "0 \<le> cfg_worker_threads cfg"
  shows "rc = 0 \<longleftrightarrow>
      (st_mkdir env = None \<or> st_mkdir env = Some EEXIST) \<and> st_open env = None \<and>
      st_calloc env (cfg_worker_threads (apply_defaults cfg)) \<and>
      (\<forall>i < nat (cfg_worker_threads (apply_defaults cfg)). st_create env i = 0) \<and> sockets_made env (apply_defaults cfg)"
    and "rc = 0 \<Longrightarrow> d = zero_daemon\<lparr>dm_worker_count := cfg_worker_threads (apply_defaults cfg),
      dm_pool := init_pool (nat (cfg_worker_threads (apply_defaults cfg))), dm_policy := start_policy env\<rparr>"
proof -
  let ?n = "nat (cfg_worker_threads (apply_defaults cfg))"
  obtain r k where k: "spawn_workers (st_create env) 0 ?n = (r, k)" by fastforce
  then have all: "r = 0 \<longleftrightarrow> (\<forall>i < ?n. st_create env i = 0)" "r = 0 \<Longrightarrow> k = ?n"
    using spawn_workers_all [of "st_create env" 0 ?n] by auto
  show "rc = 0 \<longleftrightarrow>
      (st_mkdir env = None \<or> st_mkdir env = Some EEXIST) \<and> st_open env = None \<and>
      st_calloc env (cfg_worker_threads (apply_defaults cfg)) \<and>
      (\<forall>i < ?n. st_create env i = 0) \<and> sockets_made env (apply_defaults cfg)"
    using assms(1) all(1) unfolding bdfs_daemon_init_def Let_def k sockets_made_iff
    by (auto split: option.splits if_splits)
  show "rc = 0 \<Longrightarrow> d = zero_daemon\<lparr>dm_worker_count := cfg_worker_threads (apply_defaults cfg),
      dm_pool := init_pool ?n, dm_policy := start_policy env\<rparr>"
    using assms(1) all(2) unfolding bdfs_daemon_init_def Let_def k
    by (auto split: option.splits if_splits)
qed

lemma default_threads: "0 \<le> cfg_worker_threads cfg \<Longrightarrow> 0 < cfg_worker_threads (apply_defaults cfg)"
  by (simp add: apply_defaults_def)

lemma born_inv:
  assumes "bdfs_daemon_init env cfg = (0, d)" and "0 \<le> cfg_worker_threads cfg"
  shows "life_inv (born d)"
proof -
  have "\<not> all_joined (init_pool (Suc k))" for k by (simp add: all_joined_def init_pool_def)
  moreover obtain k where "nat (cfg_worker_threads (apply_defaults cfg)) = Suc k"
    using default_threads [OF assms(2)] by (cases "nat (cfg_worker_threads (apply_defaults cfg))") auto
  ultimately show ?thesis
    using init_result(2) [OF assms] pool_inv_init [of "Suc k"] by (simp add: life_inv_def born_def) (simp add: init_pool_def)
qed







lemma one_worker_started: "bdfs_daemon_init started_env one_worker = (0, one_worker_daemon)"
  by (simp add: bdfs_daemon_init_def one_worker_def zero_config_def apply_defaults_def started_env_def
      one_worker_daemon_def start_policy_def bdfs_netlink_init_def bdfs_socket_init_def Let_def split: option.splits)

section \<open>Properties of the process\<close>

text \<open>
  C40: start-up succeeds exactly when every step of it does.  An existing state directory is no
  failure; the control device opens, the handles are allocated, every worker starts, and both
  sockets are made.  The daemon then has the configured number of idle workers, 4 by default,
  an empty queue and an empty table of mounts; a policy engine that fails to start is left out.
\<close>

theorem daemon_init_result:
  assumes "bdfs_daemon_init env cfg = (rc, d)" and "0 \<le> cfg_worker_threads cfg"
  shows "(rc = 0 \<longleftrightarrow> st_mkdir env \<in> {None, Some EEXIST} \<and> st_open env = None \<and>
      st_calloc env (cfg_worker_threads (apply_defaults cfg)) \<and>
      (\<forall>i < nat (cfg_worker_threads (apply_defaults cfg)). st_create env i = 0) \<and> sockets_made env (apply_defaults cfg)) \<and>
    (rc = 0 \<longrightarrow> pl_workers (dm_pool d) = replicate (if cfg_worker_threads cfg = 0 then 4 else nat (cfg_worker_threads cfg)) Idle \<and>
      dm_worker_count d = int (length (pl_workers (dm_pool d))) \<and> pl_queue (dm_pool d) = [] \<and>
      bdfs_mount_count (dm_sys d) = 0 \<and>
      (dm_policy d = None \<longleftrightarrow> \<not> st_policy_calloc env \<or> st_policy_create env \<noteq> 0 \<and> st_errno env \<noteq> 0))"
proof -
  note r = init_result [OF assms]
  have "dm_policy d = None \<longleftrightarrow> \<not> st_policy_calloc env \<or> st_policy_create env \<noteq> 0 \<and> st_errno env \<noteq> 0" if "rc = 0"
    using r(2) [OF that] by (simp add: start_policy_def bdfs_policy_init_def Let_def)
  then show ?thesis
    using r assms(2) by (auto simp: zero_daemon_def init_pool_def bdfs_mount_count_def apply_defaults_def)
qed

theorem daemon_init_result_witness:
  "pl_workers (dm_pool (snd (bdfs_daemon_init started_env zero_config))) = replicate 4 Idle \<and>
   dm_worker_count (snd (bdfs_daemon_init started_env zero_config)) = 4"
proof -
  have c: "cfg_worker_threads (apply_defaults zero_config) = 4" "cfg_worker_threads zero_config = 0"
    by (simp_all add: apply_defaults_def zero_config_def)
  from daemon_init_result [OF surjective_pairing, of zero_config started_env] c show ?thesis
    by (simp add: started_env_def sockets_made_def split: option.splits)
qed

text \<open>
  C7: a shutdown of the daemon loses no job but those that the policy thread queues too late.
  In every run of the process, with clients, netlink messages and scans in any order, once the
  workers were joined and the descriptors closed, every job ever accepted has finished except
  for those enqueued after the last worker had left, and just these are still in the queue.
\<close>

theorem daemon_shutdown_accounts:
  assumes "bdfs_daemon_init env cfg = (0, d)" and "0 \<le> cfg_worker_threads cfg"
    and "(life_step cfg')\<^sup>*\<^sup>* (born d) l" and "lf_phase l \<in> {Closed, Ended}"
  shows "pl_queue (dm_pool (lf_daemon l)) = lf_late l \<and>
    mset (pl_accepted (dm_pool (lf_daemon l))) = mset (pl_finished (dm_pool (lf_daemon l))) + mset (lf_late l)"
  using life_reachable_inv [OF assms(3) born_inv [OF assms(1,2)]] assms(4) joined_not_running [of "dm_pool (lf_daemon l)"]
  by (auto simp: life_inv_def Let_def pool_inv_def)

theorem daemon_shutdown_accounts_witness:
  "let l = shutdown_close (exit_worker (shutdown_begin (born (snd (bdfs_daemon_init started_env one_worker)))))
   in pl_queue (dm_pool (lf_daemon l)) = lf_late l \<and> lf_phase l = Closed"
proof -
  let ?d = "snd (bdfs_daemon_init started_env one_worker)"
  let ?m = "shutdown_begin (born ?d)"
  have d: "?d = one_worker_daemon" "bdfs_daemon_init started_env one_worker = (0, ?d)"
    by (simp_all add: one_worker_started)
  have w: "pl_workers (dm_pool (lf_daemon ?m)) = [Idle]" "lf_phase ?m = Joining"
    unfolding d(1) by (simp_all add: shutdown_begin_def born_def init_pool_def one_worker_daemon_def)
  have "life_step one_worker (born ?d) ?m" by (rule life_step.stop) (simp add: born_def)
  moreover have "life_step one_worker ?m (exit_worker ?m)"
    unfolding exit_worker_def by (rule life_step.take [OF refl]) (simp_all add: w)
  moreover have "life_step one_worker (exit_worker ?m) (shutdown_close (exit_worker ?m))"
    unfolding d(1) by (rule life_step.joined)
      (simp_all add: exit_worker_def shutdown_begin_def born_def worker_fetch_def init_pool_def all_joined_def
        one_worker_daemon_def)
  ultimately have "(life_step one_worker)\<^sup>*\<^sup>* (born ?d) (shutdown_close (exit_worker ?m))"
    by (iprover intro: rtranclp.intros)
  from daemon_shutdown_accounts [OF d(2) _ this] show ?thesis
    by (simp add: Let_def shutdown_close_def one_worker_def zero_config_def)
qed



end
