(* ===== verification/Mlsblk.thy ===== *)
theory Mlsblk
  imports Bdfs_Getopt
begin

text \<open>
  The lister of block devices (\<open>src/compat/mlsblk/mlsblk.c\<close>).  It reads the property list of
  \<open>diskutil\<close>, builds a tree of disks with their partitions and volumes, adds the mount table
  and, on request, more details, and prints a tree, a list or JSON.

  Nodes are shared between the flat array of all nodes and the tree, and are changed through
  both.  The flat array is the store: a node is its index there.  The tree is walked with
  fuel, since a device named below itself would make it infinite; \<open>None\<close> is a walk that does
  not end within the fuel, or a value used as a dictionary that is none.  Parameters are the
  parsed property lists, the mount table, and \<open>qsort\<close> of the C library.  Allocations succeed.
\<close>

section \<open>Property lists\<close>

datatype plist =
    Pl_string string
  | Pl_number int
  | Pl_array "plist list"
  | Pl_dict "(string \<times> plist) list"
  | Pl_other

text \<open>\<open>CFDictionaryGetValue\<close> on a value that was not checked: \<open>None\<close> if it is no dictionary.\<close>

fun as_dict :: "plist \<Rightarrow> (string \<times> plist) list option" where
  "as_dict (Pl_dict d) = Some d"
| "as_dict _ = None"

definition cfstr :: "plist option \<Rightarrow> string option" where
  "cfstr ref = (case ref of Some (Pl_string s) \<Rightarrow> Some s | _ \<Rightarrow> None)"

definition cfint :: "plist option \<Rightarrow> u64" where
  "cfint ref = (case ref of Some (Pl_number n) \<Rightarrow> word_of_int n | _ \<Rightarrow> 0)"

definition array_of :: "plist option \<Rightarrow> plist list" where
  "array_of ref = (case ref of Some (Pl_array xs) \<Rightarrow> xs | _ \<Rightarrow> [])"

section \<open>Nodes\<close>

record node =
  nd_name :: string
  nd_size :: u64
  nd_type :: string
  nd_mountpoint :: string
  nd_fstype :: string
  nd_label :: string
  nd_uuid :: string
  nd_parent :: "nat option"
  nd_children :: "nat list"

type_synonym store = "node list"

definition node_create :: "string \<Rightarrow> u64 \<Rightarrow> string \<Rightarrow> node" where
  "node_create name sz ty =
     \<lparr>nd_name = name, nd_size = sz, nd_type = ty, nd_mountpoint = [], nd_fstype = [], nd_label = [], nd_uuid = [],
      nd_parent = None, nd_children = []\<rparr>"

definition upd_node :: "nat \<Rightarrow> (node \<Rightarrow> node) \<Rightarrow> store \<Rightarrow> store" where
  "upd_node i f st = st[i := f (st ! i)]"

definition node_add_child :: "nat \<Rightarrow> nat \<Rightarrow> store \<Rightarrow> store" where
  "node_add_child parent child st =
     upd_node parent (\<lambda>n. n\<lparr>nd_children := nd_children n @ [child]\<rparr>)
       (upd_node child (\<lambda>n. n\<lparr>nd_parent := Some parent\<rparr>) st)"

text \<open>The walks over lists of nodes, when each single walk may not end.\<close>

fun fold_opt :: "('a \<Rightarrow> 'b \<Rightarrow> 'b option) \<Rightarrow> 'a list \<Rightarrow> 'b \<Rightarrow> 'b option" where
  "fold_opt f [] s = Some s"
| "fold_opt f (x # xs) s = (case f x s of None \<Rightarrow> None | Some s' \<Rightarrow> fold_opt f xs s')"

fun concat_opt :: "('a \<Rightarrow> 'b list option) \<Rightarrow> 'a list \<Rightarrow> 'b list option" where
  "concat_opt f [] = Some []"
| "concat_opt f (x # xs) =
     (case f x of None \<Rightarrow> None | Some ys \<Rightarrow> map_option (\<lambda>zs. ys @ zs) (concat_opt f xs))"

text \<open>\<open>node_free\<close>: the nodes freed, in order.\<close>

fun node_free :: "nat \<Rightarrow> store \<Rightarrow> nat \<Rightarrow> nat list option" where
  "node_free 0 st n = None"
| "node_free (Suc fuel) st n =
     map_option (\<lambda>ns. ns @ [n]) (concat_opt (\<lambda>c. node_free fuel st c) (nd_children (st ! n)))"

section \<open>Order of names\<close>

text \<open>\<open>strtoul\<close> on a string that starts with a digit: the value, at most \<open>ULONG_MAX\<close>, and the rest.\<close>

definition strtoul10 :: "string \<Rightarrow> nat \<times> string" where
  "strtoul10 s = (case scan_digits dec_val 10 (length s) 0 0 s of (v, _, r) \<Rightarrow> (min v (2 ^ 64 - 1), r))"

definition first_code :: "string \<Rightarrow> int" where
  "first_code s = (case s of [] \<Rightarrow> 0 | c # _ \<Rightarrow> int (of_char c))"

lemma scan_digits_shrinks: "length (snd (snd (scan_digits val base w acc n s))) \<le> length s"
proof (induction s arbitrary: acc n)
  case (Cons c cs)
  show ?case using Cons.IH [of _ "Suc n"] by (auto split: option.splits intro: le_SucI)
qed simp

lemma strtoul10_shrinks: "dec_val c \<noteq> None \<Longrightarrow> length (snd (strtoul10 (c # cs))) \<le> length cs"
  using scan_digits_shrinks [of dec_val 10 "Suc (length cs)" _ "Suc 0" cs]
  by (auto simp: strtoul10_def split: prod.splits) (metis snd_conv)

function name_cmp_loop :: "string \<Rightarrow> string \<Rightarrow> int" where
  "name_cmp_loop pa pb =
     (case pa of
        [] \<Rightarrow> first_code pa - first_code pb
      | a # as \<Rightarrow>
          (case pb of
             [] \<Rightarrow> first_code pa - first_code pb
           | b # bs \<Rightarrow>
               if a = b then name_cmp_loop as bs
               else if a = CHR ''s'' then 1
               else if b = CHR ''s'' then - 1
               else if dec_val a \<noteq> None \<and> dec_val b \<noteq> None then
                 (if fst (strtoul10 pa) \<noteq> fst (strtoul10 pb)
                  then (if fst (strtoul10 pb) < fst (strtoul10 pa) then 1 else - 1)
                  else name_cmp_loop (snd (strtoul10 pa)) (snd (strtoul10 pb)))
               else int (of_char a) - int (of_char b)))"
  by pat_completeness auto
termination
  by (relation "measure (length \<circ> fst)") (auto intro!: le_imp_less_Suc strtoul10_shrinks)

declare name_cmp_loop.simps [simp del]

definition skip_disk :: "string \<Rightarrow> string" where
  "skip_disk s = (if take 4 s = ''disk'' then drop 4 s else s)"

definition name_cmp :: "string \<Rightarrow> string \<Rightarrow> int" where
  "name_cmp a b = name_cmp_loop (skip_disk a) (skip_disk b)"

type_synonym qsort_fun = "(nat \<Rightarrow> nat \<Rightarrow> int) \<Rightarrow> nat list \<Rightarrow> nat list"

definition node_cmp :: "store \<Rightarrow> nat \<Rightarrow> nat \<Rightarrow> int" where
  "node_cmp st a b = name_cmp (nd_name (st ! a)) (nd_name (st ! b))"

fun sort_children :: "nat \<Rightarrow> qsort_fun \<Rightarrow> nat \<Rightarrow> store \<Rightarrow> store option" where
  "sort_children 0 qsort n st = None"
| "sort_children (Suc fuel) qsort n st =
     (if length (nd_children (st ! n)) \<le> 1 then Some st
      else let st1 = upd_node n (\<lambda>x. x\<lparr>nd_children := qsort (node_cmp st) (nd_children x)\<rparr>) st
           in fold_opt (\<lambda>c s. sort_children fuel qsort c s) (nd_children (st1 ! n)) st1)"

section \<open>Sizes\<close>

text \<open>
  Division with rounding to the nearest, ties to even, as in the conversion of an integer to a
  \<open>double\<close> of 53 bits and in \<open>%.1f\<close>.  The divisions by 1024 are exact, so that the value
  printed is the converted number over a power of 1024.
\<close>

definition div_round :: "nat \<Rightarrow> nat \<Rightarrow> nat" where
  "div_round a b = (let q = a div b; r = a mod b in if 2 * r < b \<or> 2 * r = b \<and> even q then q else q + 1)"

fun bits :: "nat \<Rightarrow> nat" where
  "bits n = (if n = 0 then 0 else Suc (bits (n div 2)))"

declare bits.simps [simp del]

definition double_of :: "nat \<Rightarrow> nat" where
  "double_of n = (let e = bits n - 53 in div_round n (2 ^ e) * 2 ^ e)"

text \<open>The loop of \<open>fmt_size\<close>, from the unit \<open>u\<close> on.\<close>

function size_unit :: "nat \<Rightarrow> nat \<Rightarrow> nat" where
  "size_unit v u = (if 1024 ^ Suc u \<le> v \<and> u < 5 then size_unit v (Suc u) else u)"
  by pat_completeness auto
termination
  by (relation "measure (\<lambda>(v, u). 5 - u)") auto

declare size_unit.simps [simp del]

definition size_tenths :: "nat \<Rightarrow> nat" where
  "size_tenths bytes = (let v = double_of bytes in div_round (10 * v) (1024 ^ size_unit v 0))"

definition size_text :: "nat \<Rightarrow> string" where
  "size_text bytes =
     dec (size_tenths bytes div 10) @ ''.'' @ dec (size_tenths bytes mod 10) @ [''BKMGTP'' ! size_unit (double_of bytes) 0]"

definition fmt_size :: "u64 \<Rightarrow> nat \<Rightarrow> string" where
  "fmt_size bytes bufsz = snprintf bufsz (size_text (unat bytes))"

section \<open>The tree\<close>

definition has :: "string \<Rightarrow> string \<Rightarrow> bool" where
  "has s pat \<longleftrightarrow> strstr s pat \<noteq> None"

definition content_to_fstype :: "string option \<Rightarrow> string" where
  "content_to_fstype content =
     (case content of
        None \<Rightarrow> []
      | Some c \<Rightarrow>
          if has c ''APFS'' \<or> has c ''41504653'' then ''apfs''
          else if has c ''HFS'' \<or> has c ''Apple_HFS'' then ''hfs''
          else if has c ''EFI'' \<or> has c ''C12A7328'' then ''vfat''
          else if has c ''GUID_partition_scheme'' then []
          else take 31 c)"

text \<open>\<open>ensure_node\<close>: the first node with the name, or a new one at the end.\<close>

definition ensure_node :: "store \<Rightarrow> string \<Rightarrow> u64 \<Rightarrow> string \<Rightarrow> nat \<times> store" where
  "ensure_node st name sz ty =
     (case List.find (\<lambda>i. nd_name (st ! i) = name) [0..<length st] of
        Some i \<Rightarrow> (i, st)
      | None \<Rightarrow> (length st, st @ [node_create name sz ty]))"

definition add_partition :: "nat \<Rightarrow> plist \<Rightarrow> store \<Rightarrow> store option" where
  "add_partition disk part st =
     (case as_dict part of
        None \<Rightarrow> None
      | Some d \<Rightarrow>
          (case cfstr (map_of d ''DeviceIdentifier'') of
             None \<Rightarrow> Some st
           | Some name \<Rightarrow>
               let (child, st1) = ensure_node st name (cfint (map_of d ''Size'')) ''part'';
                   fs = content_to_fstype (cfstr (map_of d ''Content''))
               in Some (node_add_child disk child (upd_node child (\<lambda>n. n\<lparr>nd_fstype := fs\<rparr>) st1))))"

text \<open>A string that replaces a field unless it is missing or empty.\<close>

definition nonempty_or :: "string option \<Rightarrow> string \<Rightarrow> string" where
  "nonempty_or s old = (case s of Some (c # cs) \<Rightarrow> c # cs | _ \<Rightarrow> old)"

definition given_or :: "string option \<Rightarrow> string \<Rightarrow> string" where
  "given_or s old = (case s of Some x \<Rightarrow> x | None \<Rightarrow> old)"

definition volume_fields :: "(string \<times> plist) list \<Rightarrow> node \<Rightarrow> node" where
  "volume_fields d n =
     n\<lparr>nd_mountpoint := nonempty_or (cfstr (map_of d ''MountPoint'')) (nd_mountpoint n),
       nd_label := nonempty_or (cfstr (map_of d ''VolumeName'')) (nd_label n),
       nd_uuid := given_or (cfstr (map_of d ''VolumeUUID'')) (nd_uuid n),
       nd_fstype := ''apfs''\<rparr>"

definition add_apfs_volume :: "nat \<Rightarrow> plist \<Rightarrow> store \<Rightarrow> store option" where
  "add_apfs_volume container vol st =
     (case as_dict vol of
        None \<Rightarrow> None
      | Some d \<Rightarrow>
          (case cfstr (map_of d ''DeviceIdentifier'') of
             None \<Rightarrow> Some st
           | Some name \<Rightarrow>
               let (child, st1) = ensure_node st name (cfint (map_of d ''Size'')) ''part''
               in Some (upd_node child (volume_fields d) (node_add_child container child st1))))"

definition is_whole :: "string option \<Rightarrow> bool" where
  "is_whole content =
     (case content of None \<Rightarrow> False | Some c \<Rightarrow> has c ''GUID_partition_scheme'' \<or> has c ''Apple_APFS_Container'')"

text \<open>One element of the array, with the nodes and the roots so far.\<close>

definition collect_disk :: "nat option \<Rightarrow> plist \<Rightarrow> store \<times> nat list \<Rightarrow> (store \<times> nat list) option" where
  "collect_disk parent x s =
     (case as_dict x of
        None \<Rightarrow> Some s
      | Some d \<Rightarrow>
          (case cfstr (map_of d ''DeviceIdentifier'') of
             None \<Rightarrow> Some s
           | Some name \<Rightarrow>
               let content = cfstr (map_of d ''Content'');
                   (disk, st1) = ensure_node (fst s) name (cfint (map_of d ''Size'')) (if is_whole content then ''disk'' else ''part'');
                   st2 = (if content = None then st1
                          else upd_node disk (\<lambda>n. n\<lparr>nd_fstype := content_to_fstype content\<rparr>) st1)
               in if parent = None \<and> 64 \<le> length (snd s) then Some (st2, snd s)
                  else
                    let (st3, roots) =
                      (case parent of None \<Rightarrow> (st2, snd s @ [disk]) | Some p \<Rightarrow> (node_add_child p disk st2, snd s))
                    in case fold_opt (add_partition disk) (array_of (map_of d ''Partitions'')) st3 of
                         None \<Rightarrow> None
                       | Some st4 \<Rightarrow>
                           map_option (\<lambda>st5. (st5, roots))
                             (fold_opt (add_apfs_volume disk) (array_of (map_of d ''APFSVolumes'')) st4)))"

definition collect_nodes :: "plist list \<Rightarrow> nat option \<Rightarrow> store \<times> nat list \<Rightarrow> (store \<times> nat list) option" where
  "collect_nodes all parent s = fold_opt (collect_disk parent) all s"

text \<open>\<open>build_tree\<close>: \<open>Inl\<close> for its failure.  The depth of a tree is at most the number of nodes.\<close>

definition build_tree :: "qsort_fun \<Rightarrow> (string \<times> plist) list \<Rightarrow> (int + (store \<times> nat list)) option" where
  "build_tree qsort list_plist =
     (case map_of list_plist ''AllDisksAndPartitions'' of
        Some (Pl_array all) \<Rightarrow>
          (case collect_nodes all None ([], []) of
             None \<Rightarrow> None
           | Some (st, roots) \<Rightarrow>
               map_option (\<lambda>st'. Inr (st', qsort (node_cmp st') roots))
                 (fold_opt (sort_children (Suc (length st)) qsort) roots st))
      | _ \<Rightarrow> Some (Inl (- 1)))"

section \<open>Mount points and details\<close>

fun set_mountpoint_recursive :: "nat \<Rightarrow> string \<Rightarrow> string \<Rightarrow> nat \<Rightarrow> store \<Rightarrow> store option" where
  "set_mountpoint_recursive 0 from target n st = None"
| "set_mountpoint_recursive (Suc fuel) from target n st =
     (if nd_name (st ! n) = from then Some (upd_node n (\<lambda>x. x\<lparr>nd_mountpoint := target\<rparr>) st)
      else fold_opt (\<lambda>c s. set_mountpoint_recursive fuel from target c s) (nd_children (st ! n)) st)"

definition fill_mountpoint :: "nat list \<Rightarrow> string \<times> string \<Rightarrow> store \<Rightarrow> store option" where
  "fill_mountpoint roots m st =
     (if take 5 (fst m) \<noteq> ''/dev/'' then Some st
      else fold_opt (set_mountpoint_recursive (Suc (length st)) (drop 5 (fst m)) (snd m)) roots st)"

definition fill_mountpoints :: "(string \<times> string) list \<Rightarrow> nat list \<Rightarrow> store \<Rightarrow> store option" where
  "fill_mountpoints mounts roots st = fold_opt (fill_mountpoint roots) mounts st"

text \<open>\<open>fill_info\<close>, where \<open>info\<close> gives the dictionary that \<open>diskutil info\<close> prints for a name.\<close>

definition fill_info :: "(string \<Rightarrow> (string \<times> plist) list option) \<Rightarrow> node \<Rightarrow> node" where
  "fill_info info n =
     (case info (nd_name n) of
        None \<Rightarrow> n
      | Some d \<Rightarrow>
          let label = nonempty_or (cfstr (map_of d ''VolumeName'')) (nd_label n);
              uuid = (case map_of d ''VolumeUUID'' of None \<Rightarrow> map_of d ''DiskUUID'' | v \<Rightarrow> v)
          in n\<lparr>nd_fstype := given_or (cfstr (map_of d ''FilesystemType'')) (nd_fstype n),
               nd_label := (if label = [] then nonempty_or (cfstr (map_of d ''MediaName'')) label else label),
               nd_uuid := given_or (cfstr uuid) (nd_uuid n),
               nd_mountpoint := nonempty_or (cfstr (map_of d ''MountPoint'')) (nd_mountpoint n)\<rparr>)"

section \<open>Columns\<close>

datatype col = COL_NAME | COL_SIZE | COL_TYPE | COL_MOUNTPOINT | COL_FSTYPE | COL_LABEL | COL_UUID

definition all_cols :: "(col \<times> string) list" where
  "all_cols = [(COL_NAME, ''NAME''), (COL_SIZE, ''SIZE''), (COL_TYPE, ''TYPE''), (COL_MOUNTPOINT, ''MOUNTPOINT''),
     (COL_FSTYPE, ''FSTYPE''), (COL_LABEL, ''LABEL''), (COL_UUID, ''UUID'')]"

fun col_name :: "col \<Rightarrow> string" where
  "col_name COL_NAME = ''NAME''"
| "col_name COL_SIZE = ''SIZE''"
| "col_name COL_TYPE = ''TYPE''"
| "col_name COL_MOUNTPOINT = ''MOUNTPOINT''"
| "col_name COL_FSTYPE = ''FSTYPE''"
| "col_name COL_LABEL = ''LABEL''"
| "col_name COL_UUID = ''UUID''"

text \<open>The tokens that \<open>strtok\<close> finds between commas, with the characters of the current one.\<close>

fun strtok_commas :: "string \<Rightarrow> string \<Rightarrow> string list" where
  "strtok_commas cur [] = (if cur = [] then [] else [cur])"
| "strtok_commas cur (c # cs) =
     (if c = CHR '','' then (if cur = [] then [] else [cur]) @ strtok_commas [] cs
      else strtok_commas (cur @ [c]) cs)"

definition lower_char :: "char \<Rightarrow> char" where
  "lower_char c = (let k = (of_char c :: nat) in if 65 \<le> k \<and> k \<le> 90 then char_of (k + 32) else c)"

definition strcasecmp_eq :: "string \<Rightarrow> string \<Rightarrow> bool" where
  "strcasecmp_eq a b \<longleftrightarrow> map lower_char a = map lower_char b"

definition find_col :: "string \<Rightarrow> col option" where
  "find_col tok =
     map_option fst (List.find (\<lambda>(c, n). strcasecmp_eq (dropWhile (\<lambda>x. x = CHR '' '') tok) n) all_cols)"

fun add_columns :: "string list \<Rightarrow> col list \<Rightarrow> col list option" where
  "add_columns [] cols = Some cols"
| "add_columns (tok # toks) cols =
     (case find_col tok of
        None \<Rightarrow> add_columns toks cols
      | Some c \<Rightarrow> if 32 \<le> length cols then None else add_columns toks (cols @ [c]))"

definition parse_columns :: "string \<Rightarrow> col list option" where
  "parse_columns ostr = add_columns (strtok_commas [] ostr) []"

definition parse_output_option :: "string option \<Rightarrow> col list option" where
  "parse_output_option ostr =
     (case ostr of
        Some (c # cs) \<Rightarrow> parse_columns (c # cs)
      | _ \<Rightarrow> parse_columns ''NAME,SIZE,TYPE,MOUNTPOINT'')"

section \<open>Output\<close>

definition nl :: string where
  "nl = [CHR 0x0A]"

definition vbar :: string where
  "vbar = [CHR 0xE2, CHR 0x94, CHR 0x82]"

definition branch :: "bool \<Rightarrow> string" where
  "branch is_last =
     [CHR 0xE2, CHR 0x94, if is_last then CHR 0x94 else CHR 0x9C, CHR 0xE2, CHR 0x94, CHR 0x80, CHR 0xE2, CHR 0x94, CHR 0x80]"

text \<open>The text of a column; \<open>bufsz\<close> is the size given to \<open>fmt_size\<close>.\<close>

fun cell :: "nat \<Rightarrow> node \<Rightarrow> col \<Rightarrow> string" where
  "cell bufsz n COL_NAME = nd_name n"
| "cell bufsz n COL_SIZE = fmt_size (nd_size n) bufsz"
| "cell bufsz n COL_TYPE = nd_type n"
| "cell bufsz n COL_MOUNTPOINT = nd_mountpoint n"
| "cell bufsz n COL_FSTYPE = nd_fstype n"
| "cell bufsz n COL_LABEL = nd_label n"
| "cell bufsz n COL_UUID = nd_uuid n"

text \<open>A row of the tree: the name, then the columns from the second on, without further names.\<close>

definition tree_row :: "col list \<Rightarrow> node \<Rightarrow> string" where
  "tree_row cols n =
     nd_name n @ concat (map (\<lambda>c. if c = COL_NAME then [] else '' '' @ cell 32 n c) (tl cols)) @ nl"

fun spaced :: "string list \<Rightarrow> string" where
  "spaced [] = []"
| "spaced (w # ws) = w @ concat (map (\<lambda>x. '' '' @ x) ws)"

text \<open>A row of the list; the size goes to a buffer of 8 bytes, the size of a pointer.\<close>

definition list_row :: "col list \<Rightarrow> node \<Rightarrow> string" where
  "list_row cols n = spaced (map (cell 8 n) cols) @ nl"

definition header :: "col list \<Rightarrow> string" where
  "header cols = spaced (map col_name cols) @ nl"

text \<open>The children with the flag for the last one.\<close>

definition marked :: "'a list \<Rightarrow> (bool \<times> 'a) list" where
  "marked xs = zip (map (\<lambda>i. i = length xs - 1) [0..<length xs]) xs"

fun print_tree :: "nat \<Rightarrow> store \<Rightarrow> col list \<Rightarrow> string \<Rightarrow> bool \<Rightarrow> nat \<Rightarrow> string option" where
  "print_tree 0 st cols prefix last_one n = None"
| "print_tree (Suc fuel) st cols prefix last_one n =
     concat_opt (\<lambda>(is_last, ch).
         map_option (\<lambda>sub. prefix @ branch is_last @ '' '' @ tree_row cols (st ! ch) @ sub)
           (print_tree fuel st cols (snprintf 256 (prefix @ (if last_one then '' '' else vbar) @ ''  '')) is_last ch))
       (marked (nd_children (st ! n)))"

fun print_list_dfs :: "nat \<Rightarrow> store \<Rightarrow> col list \<Rightarrow> nat \<Rightarrow> string option" where
  "print_list_dfs 0 st cols n = None"
| "print_list_dfs (Suc fuel) st cols n =
     map_option (\<lambda>sub. list_row cols (st ! n) @ sub)
       (concat_opt (\<lambda>c. print_list_dfs fuel st cols c) (nd_children (st ! n)))"

definition print_list :: "store \<Rightarrow> nat list \<Rightarrow> col list \<Rightarrow> string option" where
  "print_list st roots cols =
     map_option (\<lambda>rows. header cols @ rows) (concat_opt (print_list_dfs (Suc (length st)) st cols) roots)"

definition json_fields :: "node \<Rightarrow> string" where
  "json_fields n =
     ''{\"name\":\"'' @ nd_name n @ ''\",\"size\":'' @ dec (unat (nd_size n)) @ '',\"type\":\"'' @ nd_type n @
     ''\",\"mountpoint\":\"'' @ nd_mountpoint n @ ''\",\"fstype\":\"'' @ nd_fstype n @ ''\",\"label\":\"'' @ nd_label n @
     ''\",\"uuid\":\"'' @ nd_uuid n @ ''\"''"

definition indent :: "nat \<Rightarrow> string" where
  "indent depth = replicate (depth * 2) (CHR '' '')"

fun emit_json :: "nat \<Rightarrow> store \<Rightarrow> nat \<Rightarrow> bool \<Rightarrow> nat \<Rightarrow> string option" where
  "emit_json 0 st depth fst_one n = None"
| "emit_json (Suc fuel) st depth fst_one n =
     map_option (\<lambda>sub. (if fst_one then [] else '','' @ nl) @ indent depth @ json_fields (st ! n) @
         (if nd_children (st ! n) = [] then [] else '',\"children\":['' @ sub @ nl @ indent depth @ '']'') @ ''}'')
       (concat_opt (\<lambda>(i, c). emit_json fuel st (depth + 1) (i = 0) c)
         (zip [0..<length (nd_children (st ! n))] (nd_children (st ! n))))"

definition print_json :: "store \<Rightarrow> nat list \<Rightarrow> string option" where
  "print_json st roots =
     map_option (\<lambda>t. ''{\"blockdevices\":['' @ nl @ t @ nl @ '']}'' @ nl)
       (concat_opt (\<lambda>(i, r). map_option (\<lambda>t. (if i = 0 then [] else '','' @ nl) @ t) (emit_json (Suc (length st)) st 1 True r))
         (zip [0..<length roots] roots))"

definition print_trees :: "store \<Rightarrow> nat list \<Rightarrow> col list \<Rightarrow> string option" where
  "print_trees st roots cols =
     map_option (\<lambda>rows. header cols @ rows)
       (concat_opt (\<lambda>(i, r).
           map_option (\<lambda>sub. tree_row cols (st ! r) @ sub)
             (print_tree (Suc (length st)) st cols ''  '' (i = length roots - 1 \<and> nd_children (st ! r) = []) r))
         (zip [0..<length roots] roots))"

section \<open>The program\<close>

record options =
  opt_f :: bool
  opt_J :: bool
  opt_list :: bool
  opt_o :: "string option"

definition mlsblk_opts :: opt_table where
  "mlsblk_opts = [([], False, CHR ''f''), ([], True, CHR ''o''), ([], False, CHR ''J''), ([], False, CHR ''l'')]"

definition mlsblk_opt :: "char \<Rightarrow> string \<Rightarrow> options \<Rightarrow> int + options" where
  "mlsblk_opt c v opts =
     (if c = CHR ''f'' then Inr (opts\<lparr>opt_f := True\<rparr>)
      else if c = CHR ''o'' then Inr (opts\<lparr>opt_o := Some v\<rparr>)
      else if c = CHR ''J'' then Inr (opts\<lparr>opt_J := True\<rparr>)
      else if c = CHR ''l'' then Inr (opts\<lparr>opt_list := True\<rparr>)
      else Inl 1)"

definition no_options :: options where
  "no_options = \<lparr>opt_f = False, opt_J = False, opt_list = False, opt_o = None\<rparr>"

definition choose_columns :: "options \<Rightarrow> col list option" where
  "choose_columns opts =
     (case parse_output_option (opt_o opts) of
        None \<Rightarrow> None
      | Some cols \<Rightarrow>
          if opt_f opts \<and> opt_o opts = None then parse_columns ''NAME,SIZE,TYPE,FSTYPE,MOUNTPOINT,LABEL,UUID''
          else Some cols)"

text \<open>What the system answers: the list, the details of a device, and the mount table.\<close>

record disk_env =
  de_list :: "(string \<times> plist) list option"
  de_info :: "string \<Rightarrow> (string \<times> plist) list option"
  de_mounts :: "(string \<times> string) list"

definition print_nodes :: "options \<Rightarrow> col list \<Rightarrow> store \<Rightarrow> nat list \<Rightarrow> string option" where
  "print_nodes opts cols st roots =
     (if opt_J opts then print_json st roots
      else if opt_list opts then print_list st roots cols
      else print_trees st roots cols)"

text \<open>\<open>main\<close>: the exit code, the standard output, and the nodes freed at the end.\<close>

definition mlsblk_main :: "qsort_fun \<Rightarrow> disk_env \<Rightarrow> string list \<Rightarrow> (int \<times> string \<times> nat list) option" where
  "mlsblk_main qsort env argv =
     (case opt_loop mlsblk_opt (getopt_bsd mlsblk_opts None (tl argv)) no_options of
        Inl r \<Rightarrow> Some (r, [], [])
      | Inr opts \<Rightarrow>
          (case choose_columns opts of
             None \<Rightarrow> Some (1, [], [])
           | Some cols \<Rightarrow>
               (case de_list env of
                  None \<Rightarrow> Some (1, [], [])
                | Some pl \<Rightarrow>
                    (case build_tree qsort pl of
                       None \<Rightarrow> None
                     | Some (Inl _) \<Rightarrow> Some (1, [], [])
                     | Some (Inr (st, roots)) \<Rightarrow>
                         (case fill_mountpoints (de_mounts env) roots st of
                            None \<Rightarrow> None
                          | Some st1 \<Rightarrow>
                              let st2 = (if opt_f opts then map (fill_info (de_info env)) st1 else st1)
                              in case print_nodes opts cols st2 roots of
                                   None \<Rightarrow> None
                                 | Some out \<Rightarrow>
                                     map_option (\<lambda>freed. (0, out, freed))
                                       (concat_opt (node_free (Suc (length st2)) st2) roots))))))"

end
