(* ===== verification/Mlsblk_Names.thy ===== *)
theory Mlsblk_Names
  imports Mlsblk "HOL-Library.Multiset"
begin

text \<open>
  The order of device names, what \<open>qsort\<close> makes of it, and the text of sizes.

  Names with the same beginning and a number below 100 at the end are compared by that number;
  for larger numbers the comparison is not even transitive.  \<open>qsort_ok\<close> is what the C standard
  promises of \<open>qsort\<close>: the elements in order, when the comparison is a total order on them.
\<close>

section \<open>Definitions\<close>

definition consistent_on :: "'a set \<Rightarrow> ('a \<Rightarrow> 'a \<Rightarrow> int) \<Rightarrow> bool" where
  "consistent_on A cmp \<longleftrightarrow>
     (\<forall>a \<in> A. \<forall>b \<in> A. 0 < cmp a b \<longleftrightarrow> cmp b a < 0) \<and>
     (\<forall>a \<in> A. \<forall>b \<in> A. \<forall>c \<in> A. cmp a b \<le> 0 \<longrightarrow> cmp b c \<le> 0 \<longrightarrow> cmp a c \<le> 0)"

definition qsort_ok :: "qsort_fun \<Rightarrow> bool" where
  "qsort_ok qsort \<longleftrightarrow>
     (\<forall>cmp xs. consistent_on (set xs) cmp \<longrightarrow>
        mset (qsort cmp xs) = mset xs \<and> sorted_wrt (\<lambda>a b. cmp a b \<le> 0) (qsort cmp xs))"

text \<open>A sorting function that keeps the promise.\<close>

fun insert_by :: "('a \<Rightarrow> 'a \<Rightarrow> int) \<Rightarrow> 'a \<Rightarrow> 'a list \<Rightarrow> 'a list" where
  "insert_by cmp x [] = [x]"
| "insert_by cmp x (y # ys) = (if cmp x y \<le> 0 then x # y # ys else y # insert_by cmp x ys)"

fun sort_by :: "('a \<Rightarrow> 'a \<Rightarrow> int) \<Rightarrow> 'a list \<Rightarrow> 'a list" where
  "sort_by cmp [] = []"
| "sort_by cmp (x # xs) = insert_by cmp x (sort_by cmp xs)"

text \<open>The number at the end of a name.\<close>

definition trailing_number :: "string \<Rightarrow> nat" where
  "trailing_number s = fst (strtoul10 (rev (takeWhile (\<lambda>c. dec_val c \<noteq> None) (rev s))))"

section \<open>Names\<close>

lemma name_cmp_common: "name_cmp_loop (p @ x) (p @ y) = name_cmp_loop x y"
  by (induction p) (simp_all add: name_cmp_loop.simps)

lemma dec_below_100: "n < 100 \<Longrightarrow> dec n = (if n < 10 then [digit_char n] else [digit_char (n div 10), digit_char (n mod 10)])"
  using div_less_iff_less_mult [of 10 n 10] by (simp add: dec.simps)

lemma digit_char_inj [simp]: "a < 10 \<Longrightarrow> b < 10 \<Longrightarrow> digit_char a = digit_char b \<longleftrightarrow> a = b"
  by (metis dec_val_digit_char option.inject)

lemma dec_val_s [simp]: "dec_val (CHR ''s'') = None"
  by (simp add: dec_val_def)

lemma digit_char_not_s [simp]: "a < 10 \<Longrightarrow> digit_char a \<noteq> CHR ''s''"
  using dec_val_digit_char [of a] by force

lemma strtoul10_digits [simp]:
  "a < 10 \<Longrightarrow> strtoul10 [digit_char a] = (a, [])"
  "a < 10 \<Longrightarrow> b < 10 \<Longrightarrow> strtoul10 [digit_char a, digit_char b] = (10 * a + b, [])"
  by (simp_all add: strtoul10_def)

lemma first_code_digit: "a < 10 \<Longrightarrow> 0 < first_code (digit_char a # cs)"
  by (simp add: first_code_def digit_char_code)

lemma name_cmp_digit:
  "a < 10 \<Longrightarrow> b < 10 \<Longrightarrow> sgn (name_cmp_loop [digit_char a] [digit_char b]) = sgn (int a - int b)"
  by (auto simp: name_cmp_loop.simps first_code_def)

lemma name_cmp_numbers:
  assumes "a < 100" and "b < 100"
  shows "sgn (name_cmp_loop (p @ dec a) (p @ dec b)) = sgn (int a - int b)"
proof -
  have dm: "a = 10 * (a div 10) + a mod 10" "b = 10 * (b div 10) + b mod 10" "a div 10 < 10" "b div 10 < 10"
    using assms by auto
  have one_two: "sgn (name_cmp_loop [digit_char c] [digit_char d, digit_char e]) = - 1"
      "sgn (name_cmp_loop [digit_char d, digit_char e] [digit_char c]) = 1"
    if "c < 10" "d < 10" "e < 10" "0 < d" for c d e
    using that first_code_digit [OF that(3), of "[]"]
    by (cases "c = d"; simp add: name_cmp_loop.simps; simp add: first_code_def)+
  have two_two: "sgn (name_cmp_loop [digit_char c, digit_char d] [digit_char e, digit_char f]) =
      sgn (int (10 * c + d) - int (10 * e + f))"
    if "c < 10" "d < 10" "e < 10" "f < 10" for c d e f
    using that name_cmp_digit [OF that(2,4)]
    by (cases "c = e"; simp add: name_cmp_loop.simps [of "_ # _ # _"]; auto)
  show ?thesis unfolding name_cmp_common
  proof (cases "a < 10"; cases "b < 10")
    assume ab: "\<not> a < 10" "\<not> b < 10"
    then show "sgn (name_cmp_loop (dec a) (dec b)) = sgn (int a - int b)"
      using two_two [of "a div 10" "a mod 10" "b div 10" "b mod 10"] dm assms by (simp add: dec_below_100)
  qed (use assms dm one_two [of a "b div 10" "b mod 10"] one_two [of b "a div 10" "a mod 10"] name_cmp_digit [of a b]
      in \<open>auto simp: dec_below_100 div_greater_zero_iff\<close>)
qed

lemma trailing_number_dec:
  assumes "k < 100" and "dec_val c = None"
  shows "trailing_number (p @ c # dec k) = k"
proof -
  have "k div 10 < 10" "10 * (k div 10) + k mod 10 = k" using assms(1) by auto
  then show ?thesis using assms by (simp add: trailing_number_def dec_below_100)
qed

text \<open>Beyond 99 the comparison has a cycle, for which the result of \<open>qsort\<close> is undefined.\<close>

lemma name_cmp_cycle:
  "name_cmp ''disk99'' ''disk100'' < 0 \<and> name_cmp ''disk100'' ''disk11'' < 0 \<and> name_cmp ''disk11'' ''disk99'' < 0"
  by (simp add: name_cmp_def skip_disk_def name_cmp_loop.simps strtoul10_def dec_val_def)

section \<open>Sorting\<close>

lemma sort_by_mset: "mset (sort_by cmp xs) = mset xs"
proof -
  have "mset (insert_by cmp x ys) = add_mset x (mset ys)" for x ys by (induction ys) auto
  then show ?thesis by (induction xs) auto
qed

lemma consistent_trans:
  "consistent_on A cmp \<Longrightarrow> a \<in> A \<Longrightarrow> b \<in> A \<Longrightarrow> c \<in> A \<Longrightarrow> cmp a b \<le> 0 \<Longrightarrow> cmp b c \<le> 0 \<Longrightarrow> cmp a c \<le> 0"
  unfolding consistent_on_def by blast

lemma consistent_subset: "consistent_on A cmp \<Longrightarrow> B \<subseteq> A \<Longrightarrow> consistent_on B cmp"
  unfolding consistent_on_def by blast

lemma set_insert_by [simp]: "set (insert_by cmp x ys) = insert x (set ys)"
  by (induction ys) auto

lemma insert_by_sorted:
  assumes "consistent_on (insert x (set ys)) cmp" and "sorted_wrt (\<lambda>a b. cmp a b \<le> 0) ys"
  shows "sorted_wrt (\<lambda>a b. cmp a b \<le> 0) (insert_by cmp x ys)"
  using assms
proof (induction ys)
  case (Cons y ys)
  show ?case
  proof (cases "cmp x y \<le> 0")
    case True
    have "cmp x z \<le> 0" if "z \<in> set ys" for z
    proof -
      have "cmp y z \<le> 0" using Cons.prems(2) that by simp
      then show ?thesis using that by (intro consistent_trans [OF Cons.prems(1) _ _ _ True]) simp_all
    qed
    then show ?thesis using True Cons.prems(2) by simp
  next
    case False
    have "0 < cmp x y \<longleftrightarrow> cmp y x < 0" using Cons.prems(1) unfolding consistent_on_def by simp
    then have "cmp y x \<le> 0" using False by simp
    moreover have "consistent_on (insert x (set ys)) cmp" by (rule consistent_subset [OF Cons.prems(1)]) auto
    ultimately show ?thesis using False Cons by simp
  qed
qed simp

lemma sort_by_ok: "qsort_ok sort_by"
proof -
  have "sorted_wrt (\<lambda>a b. cmp a b \<le> 0) (sort_by cmp xs)" if "consistent_on (set xs) cmp" for cmp :: "nat \<Rightarrow> nat \<Rightarrow> int" and xs
    using that
  proof (induction xs)
    case (Cons x xs)
    have "set (sort_by cmp xs) = set xs" by (rule mset_eq_setD [OF sort_by_mset])
    moreover have "consistent_on (set xs) cmp" by (rule consistent_subset [OF Cons.prems]) auto
    ultimately show ?case using Cons insert_by_sorted [of x "sort_by cmp xs" cmp] by simp
  qed simp
  then show ?thesis by (simp add: qsort_ok_def sort_by_mset)
qed

text \<open>With a comparison by different numbers the result is unique.\<close>

lemma qsort_key:
  assumes q: "qsort_ok qsort" and cmp: "\<And>a b. a \<in> set xs \<Longrightarrow> b \<in> set xs \<Longrightarrow> sgn (cmp a b) = sgn (int (key a) - int (key b))"
    and i: "inj_on key (set xs)" and d: "distinct xs"
  shows "qsort cmp xs = sort_key key xs"
proof -
  have le: "cmp a b \<le> 0 \<longleftrightarrow> key a \<le> key b" if "a \<in> set xs" "b \<in> set xs" for a b
    using cmp [OF that] by (auto simp: sgn_if split: if_splits)
  have "0 < cmp a b \<longleftrightarrow> cmp b a < 0" if "a \<in> set xs" "b \<in> set xs" for a b
    using cmp [OF that] cmp [OF that(2,1)] by (auto simp: sgn_if split: if_splits)
  then have "consistent_on (set xs) cmp" unfolding consistent_on_def using le by (meson le_trans)
  then have ys: "mset (qsort cmp xs) = mset xs" "sorted_wrt (\<lambda>a b. cmp a b \<le> 0) (qsort cmp xs)"
    using q by (simp_all add: qsort_ok_def)
  have set: "set (qsort cmp xs) = set xs" by (rule mset_eq_setD [OF ys(1)])
  have dy: "distinct (qsort cmp xs)" using d mset_eq_imp_distinct_iff [OF ys(1)] by simp
  have "sorted (map key (qsort cmp xs))"
    unfolding sorted_map by (rule sorted_wrt_mono_rel [OF _ ys(2)]) (simp add: le set)
  then show ?thesis
    using i d dy set by (intro map_sorted_distinct_set_unique [of key]) (auto simp: distinct_map)
qed

lemma sort_key_map: "map f (sort_key (\<lambda>x. g (f x)) xs) = sort_key g (map f xs)"
proof -
  have "map f (insort_key (\<lambda>x. g (f x)) x ys) = insort_key g (f x) (map f ys)" for x ys
    by (induction ys) auto
  then show ?thesis by (induction xs) auto
qed

section \<open>Sizes\<close>

lemma div_round_error:
  assumes "0 < b"
  shows "2 * \<bar>int (div_round a b) * int b - int a\<bar> \<le> int b"
proof -
  obtain q r where qr: "a div b = q" "a mod b = r" "a = q * b + r" "r < b"
    using assms by (metis div_mult_mod_eq mod_less_divisor)
  have e: "int a = int q * int b + int r" using qr(3) by simp
  have "int (Suc q) * int b - int a = int b - int r" unfolding e by (simp add: algebra_simps)
  moreover have "int q * int b - int a = - int r" unfolding e by simp
  ultimately show ?thesis using qr(4) by (auto simp: div_round_def qr(1,2) simp flip: of_nat_Suc)
qed

lemma div_round_bound:
  assumes "0 < b" and "a \<le> c * b"
  shows "div_round a b \<le> c"
proof -
  obtain q r where qr: "a div b = q" "a mod b = r" "a = q * b + r" "r < b"
    using assms(1) by (metis div_mult_mod_eq mod_less_divisor)
  have "q \<le> c" using assms qr(1) by (metis div_le_mono nonzero_mult_div_cancel_right less_numeral_extra(3))
  moreover have "r = 0" if "q = c" using assms(2) qr(3) that by simp
  ultimately show ?thesis using assms(1) by (cases "q = c") (auto simp: div_round_def qr(1,2))
qed

lemma bits_le: "n < 2 ^ k \<Longrightarrow> bits n \<le> k"
proof (induction k arbitrary: n)
  case (Suc k)
  then have "bits (n div 2) \<le> k" by simp
  then show ?case by (subst bits.simps) simp
qed (simp add: bits.simps)

lemma double_of_exact: "n < 2 ^ 53 \<Longrightarrow> double_of n = n"
  using bits_le [of n 53] by (simp add: double_of_def div_round_def)

lemma double_of_error:
  assumes "n < 2 ^ 64"
  shows "2 * \<bar>int (double_of n) - int n\<bar> \<le> 2 ^ 11"
proof -
  let ?e = "bits n - 53"
  have "?e \<le> 11" using bits_le [OF assms] by simp
  then have "(2::int) ^ ?e \<le> 2 ^ 11" by (intro power_increasing) simp_all
  then show ?thesis using div_round_error [of "2 ^ ?e" n] by (simp add: double_of_def Let_def)
qed

lemma double_of_bound:
  assumes "n < 2 ^ 64" and "n \<le> m * 2 ^ 11"
  shows "double_of n \<le> m * 2 ^ 11"
proof -
  let ?e = "bits n - 53"
  have e: "?e \<le> 11" using bits_le [OF assms(1)] by simp
  have p: "m * 2 ^ (11 - ?e) * 2 ^ ?e = m * 2 ^ 11" using e by (simp add: mult.assoc flip: power_add)
  have "div_round n (2 ^ ?e) \<le> m * 2 ^ (11 - ?e)" by (rule div_round_bound) (simp, unfold p, rule assms(2))
  then have "div_round n (2 ^ ?e) * 2 ^ ?e \<le> m * 2 ^ (11 - ?e) * 2 ^ ?e" by (rule mult_le_mono1)
  then show ?thesis unfolding p by (simp add: double_of_def Let_def)
qed

lemma size_unit_range:
  "u \<le> 5 \<Longrightarrow> u = 0 \<or> 1024 ^ u \<le> v \<Longrightarrow>
   size_unit v u \<le> 5 \<and> (size_unit v u = 0 \<or> 1024 ^ size_unit v u \<le> v) \<and> (size_unit v u = 5 \<or> v < 1024 ^ Suc (size_unit v u))"
proof (induction v u rule: size_unit.induct)
  case (1 v u)
  show ?case
  proof (cases "1024 ^ Suc u \<le> v \<and> u < 5")
    case True
    then have "size_unit v u = size_unit v (Suc u)" by (subst size_unit.simps) simp
    then show ?thesis using 1(1) [OF True] True by simp
  next
    case False
    then have "size_unit v u = u" by (subst size_unit.simps) auto
    then show ?thesis using 1(2,3) False by auto
  qed
qed

end
