(* ===== verification/Mlsblk_Tree.thy ===== *)
theory Mlsblk_Tree
  imports Mlsblk_Names
begin

text \<open>
  The specification of what \<open>mlsblk\<close> prints, and the store of nodes that it builds.  The
  specification works on the property list alone: every disk with
  its partitions and volumes, in the order of their numbers, with the mount table and the
  details applied to each device by its name.  The program reaches the same text through
  shared nodes that are linked, sorted and changed in place.
\<close>

section \<open>Specification\<close>

definition device_id :: "(string \<times> plist) list \<Rightarrow> string option" where
  "device_id d = cfstr (map_of d ''DeviceIdentifier'')"

text \<open>The devices of an array: those elements that have an identifier.\<close>

definition devices :: "((string \<times> plist) list \<Rightarrow> string \<Rightarrow> 'a) \<Rightarrow> plist list \<Rightarrow> 'a list" where
  "devices f xs =
     concat (map (\<lambda>x. case as_dict x of None \<Rightarrow> []
       | Some d \<Rightarrow> (case device_id d of None \<Rightarrow> [] | Some name \<Rightarrow> [f d name])) xs)"

definition part_data :: "(string \<times> plist) list \<Rightarrow> string \<Rightarrow> node" where
  "part_data d name =
     (node_create name (cfint (map_of d ''Size'')) ''part'')\<lparr>nd_fstype := content_to_fstype (cfstr (map_of d ''Content''))\<rparr>"

definition volume_data :: "(string \<times> plist) list \<Rightarrow> string \<Rightarrow> node" where
  "volume_data d name = volume_fields d (node_create name (cfint (map_of d ''Size'')) ''part'')"

definition disk_data :: "(string \<times> plist) list \<Rightarrow> string \<Rightarrow> node" where
  "disk_data d name =
     (node_create name (cfint (map_of d ''Size'')) (if is_whole (cfstr (map_of d ''Content'')) then ''disk'' else ''part''))
       \<lparr>nd_fstype := content_to_fstype (cfstr (map_of d ''Content''))\<rparr>"

type_synonym tree = "(node \<times> node list) list"

definition spec_disk :: "(string \<times> plist) list \<Rightarrow> string \<Rightarrow> node \<times> node list" where
  "spec_disk d name =
     (disk_data d name, devices part_data (array_of (map_of d ''Partitions'')) @ devices volume_data (array_of (map_of d ''APFSVolumes'')))"

definition spec_tree :: "plist list \<Rightarrow> tree" where
  "spec_tree all = devices spec_disk all"

definition tree_names :: "tree \<Rightarrow> string list" where
  "tree_names t = concat (map (\<lambda>(n, cs). nd_name n # map nd_name cs) t)"

definition number_of :: "node \<Rightarrow> nat" where
  "number_of n = trailing_number (nd_name n)"

definition sorted_tree :: "tree \<Rightarrow> tree" where
  "sorted_tree t = sort_key (\<lambda>(n, cs). number_of n) (map (\<lambda>(n, cs). (n, sort_key number_of cs)) t)"

text \<open>The mount table on one device: the last entry for its name counts.\<close>

definition set_mount :: "string \<times> string \<Rightarrow> node \<Rightarrow> node" where
  "set_mount m n = (if take 5 (fst m) = ''/dev/'' \<and> nd_name n = drop 5 (fst m) then n\<lparr>nd_mountpoint := snd m\<rparr> else n)"

definition mounted :: "(string \<times> string) list \<Rightarrow> node \<Rightarrow> node" where
  "mounted mounts n = fold set_mount mounts n"

definition map_tree :: "(node \<Rightarrow> node) \<Rightarrow> tree \<Rightarrow> tree" where
  "map_tree f t = map (\<lambda>(n, cs). (f n, map f cs)) t"

definition list_spec :: "col list \<Rightarrow> tree \<Rightarrow> string" where
  "list_spec cols t = header cols @ concat (map (\<lambda>(n, cs). list_row cols n @ concat (map (list_row cols) cs)) t)"

definition tree_spec :: "col list \<Rightarrow> tree \<Rightarrow> string" where
  "tree_spec cols t =
     header cols @ concat (map (\<lambda>(n, cs).
       tree_row cols n @ concat (map (\<lambda>(l, c). ''  '' @ branch l @ '' '' @ tree_row cols c) (marked cs))) t)"

definition with_commas :: "string list \<Rightarrow> string" where
  "with_commas xs = concat (map (\<lambda>(i, x). (if i = 0 then [] else '','' @ nl) @ x) (zip [0..<length xs] xs))"

definition json_spec :: "tree \<Rightarrow> string" where
  "json_spec t =
     ''{\"blockdevices\":['' @ nl @
     with_commas (map (\<lambda>(n, cs). indent 1 @ json_fields n @
       (if cs = [] then []
        else '',\"children\":['' @ with_commas (map (\<lambda>c. indent 2 @ json_fields c @ ''}'') cs) @ nl @ indent 1 @ '']'') @ ''}'') t) @
     nl @ '']}'' @ nl"

text \<open>The text for the chosen format, and what a device gets from the mount table and, with \<open>-f\<close>, the details.\<close>

definition nodes_text :: "options \<Rightarrow> col list \<Rightarrow> tree \<Rightarrow> string" where
  "nodes_text opts cols t =
     (if opt_J opts then json_spec t else if opt_list opts then list_spec cols t else tree_spec cols t)"

definition completed :: "options \<Rightarrow> disk_env \<Rightarrow> node \<Rightarrow> node" where
  "completed opts env n =
     (if opt_f opts then fill_info (de_info env) (mounted (de_mounts env) n) else mounted (de_mounts env) n)"

text \<open>
  The lists that \<open>diskutil\<close> gives: at most 64 disks, numbered below 100; partitions and volumes
  are dictionaries, named after their disk with a number below 100; names differ.
\<close>

definition parts_are_dicts :: "plist list \<Rightarrow> bool" where
  "parts_are_dicts all \<longleftrightarrow>
     (\<forall>x \<in> set all. \<forall>d. as_dict x = Some d \<longrightarrow>
        (\<forall>y \<in> set (array_of (map_of d ''Partitions'')) \<union> set (array_of (map_of d ''APFSVolumes'')). as_dict y \<noteq> None))"

definition well_named :: "tree \<Rightarrow> bool" where
  "well_named t \<longleftrightarrow>
     (\<forall>(n, cs) \<in> set t. (\<exists>j < 100. nd_name n = ''disk'' @ dec j) \<and> (\<forall>c \<in> set cs. \<exists>k < 100. nd_name c = nd_name n @ ''s'' @ dec k))"

definition listing_ok :: "plist list \<Rightarrow> bool" where
  "listing_ok all \<longleftrightarrow> parts_are_dicts all \<and> length (spec_tree all) \<le> 64 \<and> distinct (tree_names (spec_tree all)) \<and>
     well_named (spec_tree all)"

text \<open>The tree that the nodes of a store make, below the roots, and its indices.\<close>

definition strip :: "node \<Rightarrow> node" where
  "strip n = n\<lparr>nd_parent := None, nd_children := []\<rparr>"

definition view :: "store \<Rightarrow> nat \<Rightarrow> node \<times> node list" where
  "view st r = (strip (st ! r), map (\<lambda>c. strip (st ! c)) (nd_children (st ! r)))"

definition tree_ids :: "store \<Rightarrow> nat list \<Rightarrow> nat list" where
  "tree_ids st roots = concat (map (\<lambda>r. r # nd_children (st ! r)) roots)"

definition shape :: "store \<Rightarrow> nat list \<Rightarrow> tree \<Rightarrow> bool" where
  "shape st roots t \<longleftrightarrow>
     map (view st) roots = t \<and> mset (tree_ids st roots) = mset [0..<length st] \<and>
     (\<forall>r \<in> set roots. \<forall>c \<in> set (nd_children (st ! r)). nd_children (st ! c) = [])"

text \<open>How the nodes are laid out when all names differ.\<close>

definition block :: "nat \<Rightarrow> node \<times> node list \<Rightarrow> store" where
  "block k b = (fst b)\<lparr>nd_children := [Suc k..<Suc k + length (snd b)]\<rparr> # map (\<lambda>x. x\<lparr>nd_parent := Some k\<rparr>) (snd b)"

fun layout :: "nat \<Rightarrow> tree \<Rightarrow> store" where
  "layout k [] = []"
| "layout k (b # t) = block k b @ layout (Suc k + length (snd b)) t"

fun root_ids :: "nat \<Rightarrow> tree \<Rightarrow> nat list" where
  "root_ids k [] = []"
| "root_ids k (b # t) = k # root_ids (Suc k + length (snd b)) t"

definition add_leaf :: "nat \<Rightarrow> node \<Rightarrow> store \<Rightarrow> store" where
  "add_leaf disk n st =
     upd_node disk (\<lambda>x. x\<lparr>nd_children := nd_children x @ [length st]\<rparr>) st @ [n\<lparr>nd_parent := Some disk\<rparr>]"

text \<open>A change of the nodes with the given indices, and the sorting of their children.\<close>

definition on_ids :: "nat set \<Rightarrow> (node \<Rightarrow> node) \<Rightarrow> store \<Rightarrow> store" where
  "on_ids S f st = map (\<lambda>i. if i \<in> S then f (st ! i) else st ! i) [0..<length st]"

definition sort_node :: "store \<Rightarrow> node \<Rightarrow> node" where
  "sort_node st n = n\<lparr>nd_children := sort_key (\<lambda>c. number_of (st ! c)) (nd_children n)\<rparr>"

section \<open>Collecting the nodes\<close>

lemma upd_node_simps [simp]:
  "length (upd_node i f st) = length st"
  "i < length st \<Longrightarrow> upd_node i f st ! j = (if i = j then f (st ! i) else st ! j)"
  by (simp_all add: upd_node_def nth_list_update)

lemma upd_node_append:
  "upd_node (length st) f (st @ [n]) = st @ [f n]"
  "i < length st \<Longrightarrow> upd_node i f (st @ ns) = upd_node i f st @ ns"
  by (simp_all add: upd_node_def nth_append list_update_append)

lemma upd_node_names: "(\<And>n. nd_name (f n) = nd_name n) \<Longrightarrow> map nd_name (upd_node i f st) = map nd_name st"
  unfolding upd_node_def by (metis list_update_beyond list_update_id linorder_not_le map_update nth_map)

lemma ensure_fresh:
  "name \<notin> set (map nd_name st) \<Longrightarrow> ensure_node st name sz ty = (length st, st @ [node_create name sz ty])"
  by (auto simp: ensure_node_def find_None_iff split: option.splits dest!: find_SomeD)

lemma add_partition_fresh:
  assumes "as_dict p = Some d" and "device_id d = Some name" and "name \<notin> set (map nd_name st)" and "disk < length st"
  shows "add_partition disk p st = Some (add_leaf disk (part_data d name) st)"
  using assms ensure_fresh [OF assms(3)]
  by (simp add: add_partition_def device_id_def part_data_def add_leaf_def node_add_child_def upd_node_append)

lemma add_apfs_volume_fresh:
  assumes "as_dict p = Some d" and "device_id d = Some name" and "name \<notin> set (map nd_name st)" and "disk < length st"
  shows "add_apfs_volume disk p st = Some (add_leaf disk (volume_data d name) st)"
proof -
  have e: "upd_node (length st) g (upd_node disk f st @ [n]) = upd_node disk f st @ [g n]" for f g n
    using upd_node_append(1) [of "upd_node disk f st"] by simp
  show ?thesis
    using assms ensure_fresh [OF assms(3)]
    by (simp add: add_apfs_volume_def device_id_def volume_data_def add_leaf_def node_add_child_def upd_node_append e)
      (simp add: volume_fields_def node_create_def)
qed

lemma add_leaf_simps [simp]:
  "length (add_leaf disk n st) = Suc (length st)"
  "map nd_name (add_leaf disk n st) = map nd_name st @ [nd_name n]"
  using upd_node_names [of "\<lambda>x. x\<lparr>nd_children := nd_children x @ [length st]\<rparr>" disk st] by (simp_all add: add_leaf_def)

lemma devices_Cons:
  "devices f (x # xs) = (case as_dict x of None \<Rightarrow> []
     | Some d \<Rightarrow> (case device_id d of None \<Rightarrow> [] | Some name \<Rightarrow> [f d name])) @ devices f xs"
  by (simp add: devices_def)

lemma devices_append_map [simp]: "devices f [] = []"
  by (simp add: devices_def)

lemma fold_fresh:
  assumes g: "\<And>p d name st. as_dict p = Some d \<Longrightarrow> device_id d = Some name \<Longrightarrow> name \<notin> set (map nd_name st) \<Longrightarrow>
      disk < length st \<Longrightarrow> g p st = Some (add_leaf disk (f d name) st)"
    and skip: "\<And>p d st. as_dict p = Some d \<Longrightarrow> device_id d = None \<Longrightarrow> g p st = Some st"
    and name: "\<And>d n. nd_name (f d n) = n"
  shows "\<forall>x \<in> set xs. as_dict x \<noteq> None \<Longrightarrow> disk < length st \<Longrightarrow> distinct (map nd_name st @ map nd_name (devices f xs)) \<Longrightarrow>
    fold_opt g xs st = Some (fold (add_leaf disk) (devices f xs) st)"
proof (induction xs arbitrary: st)
  case (Cons x xs)
  then obtain d where d: "as_dict x = Some d" by auto
  show ?case
  proof (cases "device_id d")
    case None
    then show ?thesis using Cons d skip [OF d None] by (simp add: devices_Cons)
  next
    case (Some a)
    then have "a \<notin> set (map nd_name st)" using Cons.prems(3) d by (auto simp: devices_Cons name)
    then have "g x st = Some (add_leaf disk (f d a) st)" using g [OF d Some _ Cons.prems(2)] by blast
    moreover have "distinct (map nd_name (add_leaf disk (f d a) st) @ map nd_name (devices f xs))"
      using Cons.prems(3) d Some by (auto simp: devices_Cons simp del: map_map)
    ultimately show ?thesis
      using Cons.IH [of "add_leaf disk (f d a) st"] Cons.prems(1,2) d Some by (simp add: devices_Cons)
  qed
qed simp

lemma fold_add_leaf:
  "disk < length st \<Longrightarrow>
   fold (add_leaf disk) ns st =
   upd_node disk (\<lambda>x. x\<lparr>nd_children := nd_children x @ [length st..<length st + length ns]\<rparr>) st @
     map (\<lambda>x. x\<lparr>nd_parent := Some disk\<rparr>) ns"
proof (induction ns arbitrary: st)
  case Nil
  then show ?case by (simp add: upd_node_def)
next
  case (Cons n ns)
  have u: "[length st..<length st + length (n # ns)] = length st # [Suc (length st)..<Suc (length st) + length ns]"
    by (simp add: upt_conv_Cons del: upt_Suc)
  show ?case
    unfolding u using Cons.IH [of "add_leaf disk n st"] Cons.prems
    by (simp add: add_leaf_def upd_node_append del: upt_Suc) (simp add: upd_node_def del: upt_Suc)
qed

lemma part_names [simp]:
  "nd_name (part_data d n) = n" "nd_name (volume_data d n) = n" "nd_name (disk_data d n) = n"
  by (simp_all add: part_data_def volume_data_def disk_data_def volume_fields_def node_create_def)

lemma part_strips [simp]:
  "strip (part_data d n) = part_data d n" "strip (volume_data d n) = volume_data d n" "strip (disk_data d n) = disk_data d n"
  by (simp_all add: part_data_def volume_data_def disk_data_def volume_fields_def node_create_def strip_def)

lemma fold_partitions:
  "\<forall>x \<in> set xs. as_dict x \<noteq> None \<Longrightarrow> disk < length st \<Longrightarrow> distinct (map nd_name st @ map nd_name (devices part_data xs)) \<Longrightarrow>
    fold_opt (add_partition disk) xs st = Some (fold (add_leaf disk) (devices part_data xs) st)"
  by (rule fold_fresh [OF add_partition_fresh]) (simp_all add: add_partition_def device_id_def)

lemma fold_volumes:
  "\<forall>x \<in> set xs. as_dict x \<noteq> None \<Longrightarrow> disk < length st \<Longrightarrow> distinct (map nd_name st @ map nd_name (devices volume_data xs)) \<Longrightarrow>
    fold_opt (add_apfs_volume disk) xs st = Some (fold (add_leaf disk) (devices volume_data xs) st)"
  by (rule fold_fresh [OF add_apfs_volume_fresh]) (simp_all add: add_apfs_volume_def device_id_def)

lemma names_upd [simp]:
  "map nd_name (upd_node i (\<lambda>x. x\<lparr>nd_children := h x\<rparr>) st) = map nd_name st"
  by (rule upd_node_names) simp

lemma fold_add_leaf_names:
  "disk < length st \<Longrightarrow> map nd_name (fold (add_leaf disk) ns st) = map nd_name st @ map nd_name ns"
  by (simp add: fold_add_leaf)

lemma collect_disk_fresh:
  assumes x: "as_dict x = Some d" and n: "device_id d = Some name"
    and dicts: "\<forall>y \<in> set (array_of (map_of d ''Partitions'')) \<union> set (array_of (map_of d ''APFSVolumes'')). as_dict y \<noteq> None"
    and dist: "distinct (map nd_name st @ tree_names [spec_disk d name])" and few: "length roots < 64"
  shows "collect_disk None x (st, roots) = Some (st @ block (length st) (spec_disk d name), roots @ [length st])"
proof -
  let ?ps = "array_of (map_of d ''Partitions'')" and ?vs = "array_of (map_of d ''APFSVolumes'')" and ?k = "length st"
  let ?st3 = "st @ [disk_data d name]"
  let ?st4 = "fold (add_leaf ?k) (devices part_data ?ps) ?st3"
  have c: "content_to_fstype None = []" by (simp add: content_to_fstype_def)
  have new: "name \<notin> set (map nd_name st)" using dist by (simp add: tree_names_def spec_disk_def)
  have st4: "map nd_name ?st4 = map nd_name st @ name # map nd_name (devices part_data ?ps)"
    by (simp add: fold_add_leaf_names)
  have d3: "distinct (map nd_name ?st3 @ map nd_name (devices part_data ?ps))"
    using dist by (auto simp: tree_names_def spec_disk_def)
  have d4: "distinct (map nd_name ?st4 @ map nd_name (devices volume_data ?vs))"
    unfolding st4 using dist by (auto simp: tree_names_def spec_disk_def)
  have l4: "?k < length ?st4" by (simp add: fold_add_leaf)
  have parts: "fold_opt (add_partition ?k) ?ps ?st3 = Some ?st4" using dicts d3 by (intro fold_partitions) auto
  have "fold (add_leaf ?k) (devices volume_data ?vs) ?st4 =
      fold (add_leaf ?k) (devices part_data ?ps @ devices volume_data ?vs) ?st3" by simp
  also have "\<dots> = st @ block ?k (spec_disk d name)"
    by (subst fold_add_leaf) (simp_all add: upd_node_append block_def spec_disk_def disk_data_def node_create_def del: upt_Suc)
  finally have vols: "fold_opt (add_apfs_volume ?k) ?vs ?st4 = Some (st @ block ?k (spec_disk d name))"
    using fold_volumes [OF _ l4 d4] dicts by simp
  let ?n = "node_create name (cfint (map_of d ''Size'')) (if is_whole (cfstr (map_of d ''Content'')) then ''disk'' else ''part'')"
  have st2: "(if cfstr (map_of d ''Content'') = None then st @ [?n]
      else upd_node ?k (\<lambda>n. n\<lparr>nd_fstype := content_to_fstype (cfstr (map_of d ''Content''))\<rparr>) (st @ [?n])) = ?st3"
    by (auto simp: upd_node_append c node_create_def disk_data_def)
  show ?thesis
    unfolding collect_disk_def Let_def x option.case n [unfolded device_id_def] fst_conv snd_conv ensure_fresh [OF new] prod.case st2
    using few parts vols by simp
qed

lemma tree_names_Cons: "tree_names (b # t) = tree_names [b] @ tree_names t"
  by (simp add: tree_names_def)

lemma block_simps [simp]:
  "length (block k b) = Suc (length (snd b))" "map nd_name (block k b) = tree_names [b]"
  by (auto simp: block_def tree_names_def split: prod.splits)

lemma collect_layout:
  assumes "parts_are_dicts all" and "length roots + length (spec_tree all) \<le> 64"
    and "distinct (map nd_name st @ tree_names (spec_tree all))"
  shows "collect_nodes all None (st, roots) =
    Some (st @ layout (length st) (spec_tree all), roots @ root_ids (length st) (spec_tree all))"
  using assms
proof (induction all arbitrary: st roots)
  case Nil
  then show ?case by (simp add: collect_nodes_def spec_tree_def)
next
  case (Cons x all)
  have dicts: "parts_are_dicts all" using Cons.prems(1) by (simp add: parts_are_dicts_def)
  show ?case
  proof (cases "\<exists>d name. as_dict x = Some d \<and> device_id d = Some name")
    case False
    then have "spec_tree (x # all) = spec_tree all" "collect_disk None x (st, roots) = Some (st, roots)"
      by (auto simp: spec_tree_def devices_Cons collect_disk_def device_id_def split: option.splits)
    then show ?thesis using Cons.IH [of roots st] dicts Cons.prems by (simp add: collect_nodes_def)
  next
    case True
    then obtain d name where d: "as_dict x = Some d" "device_id d = Some name" by blast
    have t: "spec_tree (x # all) = spec_disk d name # spec_tree all" by (simp add: spec_tree_def devices_Cons d)
    let ?st = "st @ block (length st) (spec_disk d name)"
    have dist: "distinct (map nd_name ?st @ tree_names (spec_tree all))"
      using Cons.prems(3) unfolding t by (subst (asm) tree_names_Cons) simp
    have "collect_disk None x (st, roots) = Some (?st, roots @ [length st])"
    proof (rule collect_disk_fresh [OF d])
      show "distinct (map nd_name st @ tree_names [spec_disk d name])" using dist by auto
    qed (use Cons.prems(1,2) d t in \<open>auto simp: parts_are_dicts_def\<close>)
    moreover have "length (roots @ [length st]) + length (spec_tree all) \<le> 64" using Cons.prems(2) t by simp
    ultimately show ?thesis using Cons.IH [OF dicts _ dist] t by (simp add: collect_nodes_def)
  qed
qed

section \<open>The shape of the store\<close>

definition stripped :: "tree \<Rightarrow> bool" where
  "stripped t \<longleftrightarrow> (\<forall>(n, cs) \<in> set t. strip n = n \<and> (\<forall>c \<in> set cs. strip c = c))"

lemma spec_tree_stripped: "stripped (spec_tree all)"
  by (auto simp: stripped_def spec_tree_def devices_def spec_disk_def split: option.splits)

lemma strip_children: "nd_children (strip n) = []"
  by (simp add: strip_def)

lemma layout_shape:
  assumes "stripped t" and "st = pre @ layout (length pre) t" and "ids = root_ids (length pre) t"
  shows "map (view st) ids = t \<and> tree_ids st ids = [length pre..<length st] \<and>
    (\<forall>r \<in> set ids. \<forall>c \<in> set (nd_children (st ! r)). nd_children (st ! c) = [])"
  using assms
proof (induction t arbitrary: pre ids)
  case (Cons b t)
  let ?k = "length pre" and ?pre = "pre @ block (length pre) b"
  have st: "st = ?pre @ layout (length ?pre) t" "ids = ?k # root_ids (length ?pre) t" using Cons.prems(2,3) by simp_all
  have t: "stripped t" and b: "strip (fst b) = fst b" "\<And>c. c \<in> set (snd b) \<Longrightarrow> strip c = c"
    using Cons.prems(1) by (auto simp: stripped_def)
  have k: "st ! ?k = (fst b)\<lparr>nd_children := [Suc ?k..<Suc ?k + length (snd b)]\<rparr>"
    by (simp add: st(1) nth_append block_def)
  have c: "st ! (Suc ?k + i) = (snd b ! i)\<lparr>nd_parent := Some ?k\<rparr>" if "i < length (snd b)" for i
    using that by (simp add: st(1) nth_append block_def)
  have ch: "map (\<lambda>c. f (st ! c)) [Suc ?k..<Suc ?k + length (snd b)] = map (\<lambda>x. f (x\<lparr>nd_parent := Some ?k\<rparr>)) (snd b)"
    for f :: "node \<Rightarrow> 'c"
    using c by (intro nth_equalityI) (simp_all del: upt_Suc)
  have s: "strip (x\<lparr>nd_parent := p\<rparr>) = strip x" "strip (x\<lparr>nd_children := cs\<rparr>) = strip x" for x p cs
    by (simp_all add: strip_def)
  have "map strip (snd b) = snd b" by (rule map_idI) (rule b(2))
  then have "view st ?k = b" using ch [of strip] by (simp add: view_def k s b(1) del: upt_Suc)
  moreover note IH = Cons.IH [OF t st(1) refl]
  ultimately have one: "map (view st) ids = b # t" using st(2) by simp
  have len: "Suc ?k + length (snd b) \<le> length st" by (simp add: st(1))
  then obtain m where "length st = Suc ?k + length (snd b) + m" using le_Suc_ex by blast
  then have "[Suc ?k..<length st] = [Suc ?k..<Suc ?k + length (snd b)] @ [Suc ?k + length (snd b)..<length st]"
    by (simp only:) (rule upt_add_eq_append, simp)
  moreover have "[?k..<length st] = ?k # [Suc ?k..<length st]" using len by (intro upt_conv_Cons) simp
  ultimately have "[?k..<length st] = ?k # [Suc ?k..<Suc ?k + length (snd b)] @ [Suc ?k + length (snd b)..<length st]"
    by (simp del: upt_Suc)
  then have two: "tree_ids st ids = [?k..<length st]" using IH by (simp add: tree_ids_def st(2) k del: upt_Suc)
  have leaf: "nd_children (snd b ! i) = []" if "i < length (snd b)" for i
    using b(2) [OF nth_mem [OF that]] strip_children [of "snd b ! i"] by simp
  have "nd_children (st ! c') = []" if "c' \<in> set (nd_children (st ! ?k))" for c'
  proof -
    have "c' = Suc ?k + (c' - Suc ?k)" "c' - Suc ?k < length (snd b)" using that by (auto simp: k simp del: upt_Suc)
    then show ?thesis using c [of "c' - Suc ?k"] leaf [of "c' - Suc ?k"] by simp
  qed
  then have "\<forall>r \<in> set ids. \<forall>c \<in> set (nd_children (st ! r)). nd_children (st ! c) = []"
    unfolding st(2) list.set using IH by blast
  then show ?case by (intro conjI one two)
qed (simp add: tree_ids_def)

lemma collected_shape:
  assumes "listing_ok all"
  shows "collect_nodes all None ([], []) = Some (layout 0 (spec_tree all), root_ids 0 (spec_tree all))"
    and "shape (layout 0 (spec_tree all)) (root_ids 0 (spec_tree all)) (spec_tree all)"
  using collect_layout [of all "[]" "[]"] layout_shape [OF spec_tree_stripped, of _ "[]", OF _ refl] assms
  by (simp_all add: listing_ok_def shape_def)

lemma distinct_blocks:
  "distinct (concat (map (\<lambda>r. r # g r) rs)) \<Longrightarrow> distinct rs \<and> (\<forall>r \<in> set rs. distinct (r # g r) \<and> set (g r) \<inter> set rs = {})"
proof (induction rs)
  case (Cons a rs)
  then have ih: "distinct rs" "\<forall>r \<in> set rs. distinct (r # g r) \<and> set (g r) \<inter> set rs = {}" by auto
  have a: "distinct (a # g a)" "set (a # g a) \<inter> (\<Union>r \<in> set rs. set (r # g r)) = {}" using Cons.prems by auto
  have "a \<notin> set rs" "set (g a) \<inter> set rs = {}" "\<forall>r \<in> set rs. a \<notin> set (g r)" using a(2) by auto
  then show ?case using ih a(1) by auto
qed simp

lemma shape_ids:
  assumes "shape st roots t"
  shows "distinct roots" and "r \<in> set roots \<Longrightarrow> r < length st \<and> distinct (r # nd_children (st ! r))"
    and "r \<in> set roots \<Longrightarrow> c \<in> set (nd_children (st ! r)) \<Longrightarrow> c < length st \<and> c \<notin> set roots"
    and "set (tree_ids st roots) = {..<length st}" and "distinct (tree_ids st roots)"
proof -
  have m: "mset (tree_ids st roots) = mset [0..<length st]" using assms by (simp add: shape_def)
  show d: "distinct (tree_ids st roots)" using mset_eq_imp_distinct_iff [OF m] by simp
  show s: "set (tree_ids st roots) = {..<length st}" using mset_eq_setD [OF m] by (simp add: lessThan_atLeast0)
  from distinct_blocks [OF d [unfolded tree_ids_def]] show "distinct roots"
    and "r \<in> set roots \<Longrightarrow> r < length st \<and> distinct (r # nd_children (st ! r))"
    and "r \<in> set roots \<Longrightarrow> c \<in> set (nd_children (st ! r)) \<Longrightarrow> c < length st \<and> c \<notin> set roots"
    using s by (auto simp: tree_ids_def)
qed

end
