(* ===== verification/Mlsblk_Props.thy ===== *)
theory Mlsblk_Props
  imports Mlsblk_Tree
begin

text \<open>
  The tree that \<open>mlsblk\<close> sorts, completes and prints is that of its specification; every node
  is freed once; sizes and columns are read and printed as they should be.
\<close>

section \<open>Samples\<close>

definition sample_disk :: "string \<Rightarrow> string list \<Rightarrow> plist" where
  "sample_disk name parts =
     Pl_dict [(''DeviceIdentifier'', Pl_string name), (''Size'', Pl_number 4096),
       (''Partitions'', Pl_array (map (\<lambda>p. Pl_dict [(''DeviceIdentifier'', Pl_string p), (''Size'', Pl_number 512)]) parts))]"

definition sample_disks :: "plist list" where
  "sample_disks = [sample_disk ''disk12'' [], sample_disk ''disk2'' [''disk2s10'', ''disk2s9'']]"

definition sample_disk_env :: disk_env where
  "sample_disk_env = \<lparr>de_list = Some [(''AllDisksAndPartitions'', Pl_array sample_disks)], de_info = \<lambda>_. None,
     de_mounts = [(''/dev/disk2s9'', ''/data'')]\<rparr>"

text \<open>Words with commas between them.\<close>

fun join_commas :: "string list \<Rightarrow> string" where
  "join_commas [] = []"
| "join_commas [w] = w"
| "join_commas (w # ws) = w @ CHR '','' # join_commas ws"

section \<open>Changes of the nodes\<close>

lemma on_ids_simps [simp]:
  "length (on_ids S f st) = length st"
  "i < length st \<Longrightarrow> on_ids S f st ! i = (if i \<in> S then f (st ! i) else st ! i)"
  by (simp_all add: on_ids_def)

lemma on_ids_empty: "on_ids {} f st = st"
  by (simp add: on_ids_def map_nth)

lemma upd_node_same: "i < length st \<Longrightarrow> f (st ! i) = st ! i \<Longrightarrow> upd_node i f st = st"
  by (simp add: upd_node_def)

lemma on_ids_insert: "r < length st \<Longrightarrow> r \<notin> S \<Longrightarrow> upd_node r f (on_ids S f st) = on_ids (insert r S) f st"
  by (rule nth_equalityI) auto

lemma on_ids_same: "(\<And>i. i < length st \<Longrightarrow> i \<notin> S \<Longrightarrow> i \<in> T \<Longrightarrow> f (st ! i) = st ! i) \<Longrightarrow> S \<subseteq> T \<Longrightarrow> on_ids T f st = on_ids S f st"
  by (rule nth_equalityI) auto

lemma on_ids_all: "(\<And>i. i < length st \<Longrightarrow> i \<notin> S \<Longrightarrow> f (st ! i) = st ! i) \<Longrightarrow> on_ids S f st = map f st"
  by (rule nth_equalityI) auto

lemma fold_opt_stays: "\<forall>x \<in> set xs. f x s = Some s \<Longrightarrow> fold_opt f xs s = Some s"
  by (induction xs) auto

text \<open>A walk over blocks of indices that changes the nodes of each block.\<close>

lemma fold_opt_on_ids:
  assumes "\<And>x T. x \<in> set xs \<Longrightarrow> T \<inter> B x = {} \<Longrightarrow> g x (on_ids T f st) = Some (on_ids (T \<union> B x) f st)"
    and "\<And>x y. x \<in> set xs \<Longrightarrow> y \<in> set xs \<Longrightarrow> x \<noteq> y \<Longrightarrow> B x \<inter> B y = {}" and "distinct xs"
    and "S \<inter> (\<Union>x \<in> set xs. B x) = {}"
  shows "fold_opt g xs (on_ids S f st) = Some (on_ids (S \<union> (\<Union>x \<in> set xs. B x)) f st)"
  using assms
proof (induction xs arbitrary: S)
  case (Cons x xs)
  have "g x (on_ids S f st) = Some (on_ids (S \<union> B x) f st)" using Cons.prems(1,4) by auto
  moreover have "fold_opt g xs (on_ids (S \<union> B x) f st) = Some (on_ids (S \<union> B x \<union> (\<Union>x \<in> set xs. B x)) f st)"
  proof (rule Cons.IH)
    have "B x \<inter> B y = {}" if "y \<in> set xs" for y using Cons.prems(2) [of x y] Cons.prems(3) that by auto
    then show "(S \<union> B x) \<inter> (\<Union>x \<in> set xs. B x) = {}" using Cons.prems(4) by auto
  qed (use Cons.prems in auto)
  ultimately show ?case by (simp add: Un_assoc)
qed simp

lemma shape_blocks:
  assumes "shape st roots t" and "x \<in> set roots" and "y \<in> set roots" and "x \<noteq> y"
  shows "set (x # nd_children (st ! x)) \<inter> set (y # nd_children (st ! y)) = {}"
proof -
  have "distinct (concat (map g rs)) \<Longrightarrow> x \<in> set rs \<Longrightarrow> y \<in> set rs \<Longrightarrow> x \<noteq> y \<Longrightarrow> set (g x) \<inter> set (g y) = {}"
    for g :: "nat \<Rightarrow> nat list" and rs
    by (induction rs) auto
  from this [OF shape_ids(5) [OF assms(1), unfolded tree_ids_def] assms(2-4)] show ?thesis .
qed

section \<open>Sorting the tree\<close>

lemma sort_root:
  assumes q: "qsort_ok qsort" and r: "r < length st" and d: "distinct (r # ch)" and ch: "ch = nd_children (st ! r)"
    and leaf: "\<And>c. c \<in> set ch \<Longrightarrow> c < length st \<and> nd_children (st ! c) = []"
    and names: "\<And>c. c \<in> set ch \<Longrightarrow> \<exists>k < 100. nd_name (st ! c) = ''disk'' @ p @ ''s'' @ dec k"
    and inj: "inj_on (\<lambda>c. nd_name (st ! c)) (set ch)"
    and st0: "\<And>c. number_of (st0 ! c) = number_of (st ! c)"
  shows "sort_children (Suc (Suc fuel)) qsort r st = Some (upd_node r (sort_node st0) st)"
proof (cases "length ch \<le> 1")
  case True
  then have "sort_key (\<lambda>c. number_of (st0 ! c)) ch = ch" by (cases ch) auto
  then have "sort_node st0 (st ! r) = st ! r" using ch by (simp add: sort_node_def)
  then show ?thesis using True ch by (simp add: upd_node_def)
next
  case False
  have num: "\<exists>k < 100. nd_name (st ! c) = ''disk'' @ p @ ''s'' @ dec k \<and> number_of (st ! c) = k" if "c \<in> set ch" for c
    using names [OF that] trailing_number_dec [of _ "CHR ''s''" "''disk'' @ p"] by (auto simp: number_of_def)
  have "inj_on (\<lambda>c. number_of (st ! c)) (set ch)"
    using num inj by (intro inj_onI) (metis inj_on_eq_iff)
  moreover have "sgn (node_cmp st a b) = sgn (int (number_of (st ! a)) - int (number_of (st ! b)))" if ab: "a \<in> set ch" "b \<in> set ch" for a b
  proof -
    obtain j where j: "j < 100" "nd_name (st ! a) = ''disk'' @ p @ ''s'' @ dec j" "number_of (st ! a) = j"
      using num [OF ab(1)] by blast
    obtain k where k: "k < 100" "nd_name (st ! b) = ''disk'' @ p @ ''s'' @ dec k" "number_of (st ! b) = k"
      using num [OF ab(2)] by blast
    show ?thesis using name_cmp_numbers [OF j(1) k(1), of "p @ ''s''"] j(2,3) k(2,3)
      by (simp add: node_cmp_def name_cmp_def skip_disk_def)
  qed
  ultimately have s: "qsort (node_cmp st) ch = sort_key (\<lambda>c. number_of (st ! c)) ch" using d by (intro qsort_key [OF q]) auto
  let ?st = "upd_node r (sort_node st0) st"
  have u: "upd_node r (\<lambda>x. x\<lparr>nd_children := qsort (node_cmp st) (nd_children x)\<rparr>) st = ?st"
    using s ch by (simp add: upd_node_def sort_node_def st0)
  have "sort_children (Suc fuel) qsort c ?st = Some ?st" if "c \<in> set ch" for c
    using leaf [OF that] d that r by auto
  then have "fold_opt (\<lambda>c s. sort_children (Suc fuel) qsort c s) (nd_children (?st ! r)) ?st = Some ?st"
    using r ch by (intro fold_opt_stays) (simp add: sort_node_def)
  then show ?thesis
    unfolding sort_children.simps(2) [of "Suc fuel"] Let_def u using False ch by (simp del: sort_children.simps)
qed

lemma nth_beyond: "length xs = length ys \<Longrightarrow> length xs \<le> i \<Longrightarrow> xs ! i = ys ! i"
  by (induction xs ys arbitrary: i rule: list_induct2) (auto simp: nth_Cons split: nat.splits)

lemma strip_simps [simp]: "nd_name (strip n) = nd_name n" "number_of (strip n) = number_of n"
  by (simp_all add: strip_def number_of_def)

lemma shape_names: "shape st roots t \<Longrightarrow> tree_names t = map (\<lambda>i. nd_name (st ! i)) (tree_ids st roots)"
  by (auto simp: shape_def tree_names_def tree_ids_def view_def map_concat intro!: arg_cong [where f = concat])

lemma shape_names_distinct: "shape st roots t \<Longrightarrow> distinct (map nd_name st) \<longleftrightarrow> distinct (tree_names t)"
proof -
  assume a: "shape st roots t"
  have "mset (tree_names t) = image_mset (\<lambda>i. nd_name (st ! i)) (mset [0..<length st])"
    using a by (simp add: shape_names [OF a] mset_map shape_def)
  also have "\<dots> = mset (map (\<lambda>i. nd_name (st ! i)) [0..<length st])" by (simp only: mset_map)
  also have "map (\<lambda>i. nd_name (st ! i)) [0..<length st] = map nd_name st" by (rule nth_equalityI) simp_all
  finally show ?thesis using mset_eq_imp_distinct_iff by metis
qed

lemma shape_view: "shape st roots t \<Longrightarrow> r \<in> set roots \<Longrightarrow> view st r \<in> set t"
  by (auto simp: shape_def)

lemma well_named_root:
  assumes "shape st roots t" and "well_named t" and "r \<in> set roots"
  shows "\<exists>j < 100. nd_name (st ! r) = ''disk'' @ dec j"
    and "c \<in> set (nd_children (st ! r)) \<Longrightarrow> \<exists>k < 100. nd_name (st ! c) = nd_name (st ! r) @ ''s'' @ dec k"
proof -
  have "(\<exists>j < 100. nd_name (fst (view st r)) = ''disk'' @ dec j) \<and>
      (\<forall>c \<in> set (snd (view st r)). \<exists>k < 100. nd_name c = nd_name (fst (view st r)) @ ''s'' @ dec k)"
    using assms(2) shape_view [OF assms(1,3)] unfolding well_named_def by (auto simp: case_prod_unfold)
  then show "\<exists>j < 100. nd_name (st ! r) = ''disk'' @ dec j"
    and "c \<in> set (nd_children (st ! r)) \<Longrightarrow> \<exists>k < 100. nd_name (st ! c) = nd_name (st ! r) @ ''s'' @ dec k"
    unfolding view_def by simp_all
qed

lemma names_inj: "distinct (map nd_name st) \<Longrightarrow> A \<subseteq> {..<length st} \<Longrightarrow> inj_on (\<lambda>i. nd_name (st ! i)) A"
proof (rule inj_onI)
  fix x y
  assume a: "distinct (map nd_name st)" "A \<subseteq> {..<length st}" and xy: "x \<in> A" "y \<in> A" "nd_name (st ! x) = nd_name (st ! y)"
  then have "x < length st" "y < length st" by auto
  then show "x = y" using nth_eq_iff_index_eq [OF a(1), of x y] xy(3) by simp
qed

lemma sort_all:
  assumes "qsort_ok qsort" and sh: "shape st roots t" and wn: "well_named t" and dist: "distinct (map nd_name st)"
  shows "fold_opt (sort_children (Suc (length st)) qsort) roots st = Some (map (sort_node st) st)"
proof -
  have num: "number_of (on_ids T (sort_node st) st ! c) = number_of (st ! c)" for T c
    using nth_beyond [of st "on_ids T (sort_node st) st" c] by (cases "c < length st") (auto simp: sort_node_def number_of_def)
  have step: "sort_children (Suc (length st)) qsort r (on_ids T (sort_node st) st) = Some (on_ids (T \<union> {r}) (sort_node st) st)"
    if r: "r \<in> set roots" and T: "T \<inter> {r} = {}" for r T
  proof -
    let ?st = "on_ids T (sort_node st) st"
    note ids = shape_ids(2) [OF sh r] shape_ids(3) [OF sh r]
    obtain fuel where f: "length st = Suc fuel" using ids(1) by (cases "length st") auto
    obtain j where j: "nd_name (st ! r) = ''disk'' @ dec j" using well_named_root(1) [OF sh wn r] by blast
    have at: "?st ! r = st ! r" using T ids(1) by simp
    have nm: "nd_name (?st ! c) = nd_name (st ! c)" if "c < length st" for c using that by (simp add: sort_node_def)
    have "sort_children (Suc (Suc fuel)) qsort r ?st = Some (upd_node r (sort_node st) ?st)"
    proof (rule sort_root [OF assms(1), where ch = "nd_children (st ! r)" and p = "dec j"])
      fix c
      assume c: "c \<in> set (nd_children (st ! r))"
      then have "nd_children (st ! c) = []" using sh r by (simp add: shape_def)
      then show "c < length ?st \<and> nd_children (?st ! c) = []" using ids(2) [OF c] by (simp add: sort_node_def)
      show "\<exists>k < 100. nd_name (?st ! c) = ''disk'' @ dec j @ ''s'' @ dec k"
        using well_named_root(2) [OF sh wn r c] nm ids(2) [OF c] j by auto
    next
      have "inj_on (\<lambda>c. nd_name (st ! c)) (set (nd_children (st ! r)))" using ids(2) by (intro names_inj [OF dist]) auto
      moreover have "nd_name (?st ! c) = nd_name (st ! c)" if "c \<in> set (nd_children (st ! r))" for c
        using nm ids(2) [OF that] by blast
      ultimately show "inj_on (\<lambda>c. nd_name (?st ! c)) (set (nd_children (st ! r)))" by (simp cong: inj_on_cong)
      show "r < length ?st" "distinct (r # nd_children (st ! r))" using ids(1) by simp_all
      show "nd_children (st ! r) = nd_children (?st ! r)" by (simp only: at)
      show "number_of (st ! c) = number_of (?st ! c)" for c by (simp only: num)
    qed
    moreover have "upd_node r (sort_node st) ?st = on_ids (T \<union> {r}) (sort_node st) st"
      using on_ids_insert [of r st T] ids(1) T by simp
    ultimately show ?thesis by (simp only: f)
  qed
  have "fold_opt (sort_children (Suc (length st)) qsort) roots (on_ids {} (sort_node st) st) =
      Some (on_ids ({} \<union> (\<Union>x \<in> set roots. {x})) (sort_node st) st)"
    by (rule fold_opt_on_ids [OF step]) (use shape_ids(1) [OF sh] in auto)
  moreover have "on_ids (set roots) (sort_node st) st = map (sort_node st) st"
  proof (rule on_ids_all)
    fix i
    assume "i < length st" "i \<notin> set roots"
    then obtain r where "r \<in> set roots" "i \<in> set (nd_children (st ! r))" using shape_ids(4) [OF sh] by (auto simp: tree_ids_def)
    then have "nd_children (st ! i) = []" using sh by (simp add: shape_def)
    then show "sort_node st (st ! i) = st ! i" by (simp add: sort_node_def)
  qed
  ultimately show ?thesis by (simp add: on_ids_empty)
qed

lemma mset_concat_map: "mset (concat (map f xs)) = (\<Sum>x \<in># mset xs. mset (f x))"
  by (induction xs) simp_all

lemma mset_tree_ids: "mset (tree_ids st roots) = (\<Sum>r \<in># mset roots. add_mset r (mset (nd_children (st ! r))))"
  by (simp add: tree_ids_def mset_concat_map)

text \<open>A change of all nodes that keeps the links, up to the order of the children.\<close>

lemma shape_map:
  assumes sh: "shape st roots t" and ch: "\<And>n. mset (nd_children (g n)) = mset (nd_children n)"
    and view: "\<And>r. r \<in> set roots \<Longrightarrow> view (map g st) r = h (view st r)"
  shows "shape (map g st) roots (map h t)"
proof -
  have r: "r < length st" if "r \<in> set roots" for r using shape_ids(2) [OF sh that] by simp
  have "mset (tree_ids (map g st) roots) = mset (tree_ids st roots)"
    unfolding mset_tree_ids by (rule arg_cong [where f = sum_mset], rule image_mset_cong) (simp add: r ch)
  moreover have "nd_children (map g st ! c) = []"
    if "r \<in> set roots" "c \<in> set (nd_children (map g st ! r))" for r c
  proof -
    have "set (nd_children (map g st ! r)) = set (nd_children (st ! r))"
      using mset_eq_setD [OF ch [of "st ! r"]] r [OF that(1)] by simp
    then have c: "c \<in> set (nd_children (st ! r))" using that(2) by simp
    then have "nd_children (st ! c) = []" "c < length st" using sh that(1) shape_ids(3) [OF sh that(1) c]
      by (simp_all add: shape_def)
    then show ?thesis using ch [of "st ! c"] by simp
  qed
  moreover have "map (view (map g st)) roots = map h t" using sh view by (auto simp: shape_def)
  ultimately show ?thesis using sh by (simp add: shape_def)
qed

lemma shape_sorted_children:
  assumes sh: "shape st roots t"
  shows "shape (map (sort_node st) st) roots (map (\<lambda>(n, cs). (n, sort_key number_of cs)) t)"
proof (rule shape_map [OF sh])
  fix r
  assume r: "r \<in> set roots"
  have s: "strip (sort_node st n) = strip n" for n by (simp add: sort_node_def strip_def)
  let ?ch = "sort_key (\<lambda>c. number_of (st ! c)) (nd_children (st ! r))"
  have "map (\<lambda>c. strip (map (sort_node st) st ! c)) ?ch = map (\<lambda>c. strip (st ! c)) ?ch"
    using shape_ids(3) [OF sh r] by (intro map_cong [OF refl]) (simp add: s)
  also have "map (\<lambda>c. strip (st ! c)) (sort_key (\<lambda>c. number_of (st ! c)) (nd_children (st ! r))) =
      sort_key number_of (map (\<lambda>c. strip (st ! c)) (nd_children (st ! r)))"
    using sort_key_map [of "\<lambda>c. strip (st ! c)" number_of "nd_children (st ! r)"] by simp
  finally show "view (map (sort_node st) st) r = (case view st r of (n, cs) \<Rightarrow> (n, sort_key number_of cs))"
    using shape_ids(2) [OF sh r] by (simp add: view_def s) (simp add: sort_node_def)
qed (simp add: sort_node_def)

lemma shape_sorted_roots:
  assumes sh: "shape st roots t"
  shows "shape st (sort_key (\<lambda>r. number_of (st ! r)) roots) (sort_key (\<lambda>(n, cs). number_of n) t)"
proof -
  have "map (view st) (sort_key (\<lambda>r. case view st r of (n, cs) \<Rightarrow> number_of n) roots) = sort_key (\<lambda>(n, cs). number_of n) t"
    using sort_key_map [of "view st" "\<lambda>(n, cs). number_of n" roots] sh by (simp add: shape_def)
  moreover have "(case view st r of (n, cs) \<Rightarrow> number_of n) = number_of (st ! r)" for r by (simp add: view_def)
  ultimately have "map (view st) (sort_key (\<lambda>r. number_of (st ! r)) roots) = sort_key (\<lambda>(n, cs). number_of n) t" by simp
  then show ?thesis using sh by (simp add: shape_def mset_tree_ids)
qed

lemma sort_roots:
  assumes q: "qsort_ok qsort" and sh: "shape st roots t" and dist: "distinct (map nd_name st)"
    and names: "\<And>r. r \<in> set roots \<Longrightarrow> \<exists>j < 100. nd_name (st ! r) = ''disk'' @ dec j"
  shows "qsort (node_cmp st) roots = sort_key (\<lambda>r. number_of (st ! r)) roots"
proof (rule qsort_key [OF q])
  have k: "dec_val (CHR ''k'') = None" by (simp add: dec_val_def)
  have num: "\<exists>j < 100. nd_name (st ! r) = ''disk'' @ dec j \<and> number_of (st ! r) = j" if "r \<in> set roots" for r
    using names [OF that] trailing_number_dec [OF _ k, of _ "''dis''"] by (auto simp: number_of_def)
  show "sgn (node_cmp st a b) = sgn (int (number_of (st ! a)) - int (number_of (st ! b)))"
    if ab: "a \<in> set roots" "b \<in> set roots" for a b
  proof -
    obtain i where i: "i < 100" "nd_name (st ! a) = ''disk'' @ dec i" "number_of (st ! a) = i" using num [OF ab(1)] by blast
    obtain j where j: "j < 100" "nd_name (st ! b) = ''disk'' @ dec j" "number_of (st ! b) = j" using num [OF ab(2)] by blast
    show ?thesis using name_cmp_numbers [OF i(1) j(1), of "[]"] i(2,3) j(2,3) by (simp add: node_cmp_def name_cmp_def skip_disk_def)
  qed
  have i: "inj_on (\<lambda>r. nd_name (st ! r)) (set roots)" using shape_ids(2) [OF sh] by (intro names_inj [OF dist]) auto
  show "inj_on (\<lambda>r. number_of (st ! r)) (set roots)"
  proof (rule inj_onI)
    fix a b
    assume ab: "a \<in> set roots" "b \<in> set roots" "number_of (st ! a) = number_of (st ! b)"
    then have "nd_name (st ! a) = nd_name (st ! b)" using num [OF ab(1)] num [OF ab(2)] by auto
    then show "a = b" using inj_onD [OF i] ab by blast
  qed
qed (rule shape_ids(1) [OF sh])

lemma build_tree_shape:
  assumes "qsort_ok qsort" and "map_of pl ''AllDisksAndPartitions'' = Some (Pl_array all)" and ok: "listing_ok all"
  shows "\<exists>st roots. build_tree qsort pl = Some (Inr (st, roots)) \<and> shape st roots (sorted_tree (spec_tree all)) \<and>
    distinct (map nd_name st)"
proof -
  let ?t = "spec_tree all"
  let ?st = "layout 0 ?t" and ?ids = "root_ids 0 ?t"
  note sh = collected_shape(2) [OF ok]
  have wn: "well_named ?t" and dist: "distinct (map nd_name ?st)"
    using ok shape_names_distinct [OF sh] by (simp_all add: listing_ok_def)
  let ?st1 = "map (sort_node ?st) ?st"
  have names: "map nd_name ?st1 = map nd_name ?st" by (simp add: sort_node_def)
  note sh1 = shape_sorted_children [OF sh]
  have "nd_name (?st1 ! r) = nd_name (?st ! r)" if "r \<in> set ?ids" for r
    using shape_ids(2) [OF sh that] by (simp add: sort_node_def)
  then have roots: "\<exists>j < 100. nd_name (?st1 ! r) = ''disk'' @ dec j" if "r \<in> set ?ids" for r
    using well_named_root(1) [OF sh wn that] that by (simp only:)
  have dist1: "distinct (map nd_name ?st1)" unfolding names by (rule dist)
  have "qsort (node_cmp ?st1) ?ids = sort_key (\<lambda>r. number_of (?st1 ! r)) ?ids"
    by (rule sort_roots [OF assms(1) sh1 dist1 roots])
  then have "build_tree qsort pl = Some (Inr (?st1, sort_key (\<lambda>r. number_of (?st1 ! r)) ?ids))"
    using assms(2) collected_shape(1) [OF ok] sort_all [OF assms(1) sh wn dist] by (simp add: build_tree_def)
  then show ?thesis using shape_sorted_roots [OF sh1] dist1 unfolding sorted_tree_def by (intro exI conjI)
qed

section \<open>Mount points\<close>

lemma shape_fuel: "shape st roots t \<Longrightarrow> r \<in> set roots \<Longrightarrow> \<exists>fuel. length st = Suc fuel"
  using shape_ids(2) by (metis less_nat_zero_code old.nat.exhaust)

lemma set_mount_names [simp]: "nd_name (set_mount m n) = nd_name n" "nd_children (set_mount m n) = nd_children n"
  by (simp_all add: set_mount_def)

lemma set_leaf_mount:
  assumes "take 5 (fst m) = ''/dev/''" and "c < length st" and "c \<notin> T" and "nd_children (st ! c) = []"
  shows "set_mountpoint_recursive (Suc fuel) (drop 5 (fst m)) (snd m) c (on_ids T (set_mount m) st) =
    Some (on_ids (insert c T) (set_mount m) st)"
proof -
  have "upd_node c (\<lambda>x. x\<lparr>nd_mountpoint := snd m\<rparr>) (on_ids T (set_mount m) st) = upd_node c (set_mount m) (on_ids T (set_mount m) st)"
    if "nd_name (st ! c) = drop 5 (fst m)"
    using assms(1-3) that by (simp add: upd_node_def set_mount_def)
  moreover have "on_ids T (set_mount m) st = upd_node c (set_mount m) (on_ids T (set_mount m) st)"
    if "nd_name (st ! c) \<noteq> drop 5 (fst m)"
    using assms(2,3) that by (intro upd_node_same [symmetric]) (simp_all add: set_mount_def)
  ultimately show ?thesis using assms(2-4) on_ids_insert [OF assms(2,3), of "set_mount m"] by simp
qed

lemma set_root_mount:
  assumes sh: "shape st roots t" and dist: "distinct (map nd_name st)" and dev: "take 5 (fst m) = ''/dev/''"
    and r: "r \<in> set roots" and T: "T \<inter> set (r # nd_children (st ! r)) = {}"
  shows "set_mountpoint_recursive (Suc (length st)) (drop 5 (fst m)) (snd m) r (on_ids T (set_mount m) st) =
    Some (on_ids (T \<union> set (r # nd_children (st ! r))) (set_mount m) st)"
proof -
  let ?f = "set_mount m" and ?ch = "nd_children (st ! r)"
  note ids = shape_ids(2) [OF sh r] shape_ids(3) [OF sh r]
  obtain fuel where f: "length st = Suc fuel" using shape_fuel [OF sh r] by blast
  have at: "on_ids T ?f st ! r = st ! r" using T ids(1) by simp
  show ?thesis
  proof (cases "nd_name (st ! r) = drop 5 (fst m)")
    case True
    have "upd_node r (\<lambda>x. x\<lparr>nd_mountpoint := snd m\<rparr>) (on_ids T ?f st) = on_ids (insert r T) ?f st"
      using on_ids_insert [of r st T ?f] T ids(1) True dev by (simp add: upd_node_def set_mount_def)
    moreover have "on_ids (T \<union> set (r # ?ch)) ?f st = on_ids (insert r T) ?f st"
    proof (rule on_ids_same)
      fix i
      assume i: "i < length st" "i \<notin> insert r T" "i \<in> T \<union> set (r # ?ch)"
      then have "nd_name (st ! i) \<noteq> nd_name (st ! r)" using nth_eq_iff_index_eq [OF dist, of i r] ids(1) by auto
      then show "?f (st ! i) = st ! i" using True by (simp add: set_mount_def)
    qed auto
    ultimately show ?thesis using True at by simp
  next
    case False
    have "upd_node r ?f (on_ids T ?f st) = on_ids T ?f st"
      using False at ids(1) by (intro upd_node_same) (simp_all add: set_mount_def)
    then have ins: "on_ids (insert r T) ?f st = on_ids T ?f st" using on_ids_insert [of r st T ?f] T ids(1) by simp
    have "fold_opt (\<lambda>c s. set_mountpoint_recursive (Suc fuel) (drop 5 (fst m)) (snd m) c s) ?ch (on_ids (insert r T) ?f st) =
        Some (on_ids (insert r T \<union> (\<Union>c \<in> set ?ch. {c})) ?f st)"
    proof (rule fold_opt_on_ids)
      fix c S
      assume c: "c \<in> set ?ch" "S \<inter> {c} = {}"
      then have "nd_children (st ! c) = []" using sh r by (simp add: shape_def)
      then show "set_mountpoint_recursive (Suc fuel) (drop 5 (fst m)) (snd m) c (on_ids S ?f st) = Some (on_ids (S \<union> {c}) ?f st)"
        using set_leaf_mount [OF dev, of c st S fuel] c ids(2) [OF c(1)] by simp
    qed (use ids(1) T in auto)
    then show ?thesis
      unfolding f set_mountpoint_recursive.simps(2) [of "Suc fuel"] using False at ins
      by (simp del: set_mountpoint_recursive.simps)
  qed
qed

lemma fill_mountpoint_map:
  assumes sh: "shape st roots t" and dist: "distinct (map nd_name st)"
  shows "fill_mountpoint roots m st = Some (map (set_mount m) st)"
proof (cases "take 5 (fst m) = ''/dev/''")
  case True
  let ?B = "\<lambda>r. set (r # nd_children (st ! r))"
  have "fold_opt (set_mountpoint_recursive (Suc (length st)) (drop 5 (fst m)) (snd m)) roots (on_ids {} (set_mount m) st) =
      Some (on_ids ({} \<union> (\<Union>r \<in> set roots. ?B r)) (set_mount m) st)"
    by (rule fold_opt_on_ids [OF set_root_mount [OF sh dist True] shape_blocks [OF sh] shape_ids(1) [OF sh]])
      (assumption | rule Int_empty_left)+
  moreover have "(\<Union>r \<in> set roots. ?B r) = {..<length st}" using shape_ids(4) [OF sh] by (simp add: tree_ids_def)
  moreover have "on_ids {..<length st} (set_mount m) st = map (set_mount m) st" by (rule on_ids_all) simp
  ultimately show ?thesis using True by (simp add: fill_mountpoint_def on_ids_empty)
next
  case False
  then have "map (set_mount m) st = st" by (intro map_idI) (simp add: set_mount_def)
  then show ?thesis using False by (simp add: fill_mountpoint_def)
qed

lemma shape_map_tree:
  assumes sh: "shape st roots t" and g: "\<And>n. nd_children (g n) = nd_children n" "\<And>n. strip (g n) = g (strip n)"
  shows "shape (map g st) roots (map_tree g t)"
  unfolding map_tree_def
proof (rule shape_map [OF sh])
  fix r
  assume r: "r \<in> set roots"
  have "map (\<lambda>c. strip (map g st ! c)) (nd_children (st ! r)) = map g (map (\<lambda>c. strip (st ! c)) (nd_children (st ! r)))"
    using shape_ids(3) [OF sh r] by (simp add: g(2))
  then show "view (map g st) r = (case view st r of (n, cs) \<Rightarrow> (g n, map g cs))"
    using shape_ids(2) [OF sh r] by (simp add: view_def g)
qed (simp add: g(1))

lemma strip_set_mount: "strip (set_mount m n) = set_mount m (strip n)"
  by (simp add: strip_def set_mount_def)

lemma map_tree_map_tree: "map_tree f (map_tree g t) = map_tree (\<lambda>n. f (g n)) t"
  by (auto simp: map_tree_def)

lemma fill_mountpoints_shape:
  assumes "shape st roots t" and "distinct (map nd_name st)"
  shows "\<exists>st'. fill_mountpoints mounts roots st = Some st' \<and> shape st' roots (map_tree (mounted mounts) t)"
  using assms
proof (induction mounts arbitrary: st t)
  case Nil
  then show ?case by (simp add: fill_mountpoints_def mounted_def map_tree_def case_prod_unfold)
next
  case (Cons m mounts)
  have "shape (map (set_mount m) st) roots (map_tree (set_mount m) t)"
    using Cons.prems(1) by (rule shape_map_tree) (simp_all add: strip_set_mount)
  moreover have "distinct (map nd_name (map (set_mount m) st))" using Cons.prems(2) by (simp add: comp_def)
  ultimately obtain st' where "fill_mountpoints mounts roots (map (set_mount m) st) = Some st'"
      "shape st' roots (map_tree (mounted mounts) (map_tree (set_mount m) t))" using Cons.IH by blast
  then show ?case using fill_mountpoint_map [OF Cons.prems]
    by (simp add: fill_mountpoints_def map_tree_map_tree mounted_def)
qed

lemma fill_info_links: "nd_children (fill_info info n) = nd_children n" "strip (fill_info info n) = fill_info info (strip n)"
  by (simp_all add: fill_info_def strip_def Let_def split: option.splits)

section \<open>Output\<close>

lemma concat_opt_map: "(\<And>x. x \<in> set xs \<Longrightarrow> f x = Some (g x)) \<Longrightarrow> concat_opt f xs = Some (concat (map g xs))"
  by (induction xs) auto

lemma cell_strip [simp]: "cell k (strip n) = cell k n"
proof
  show "cell k (strip n) c = cell k n c" for c by (cases c) (simp_all add: strip_def)
qed

lemma rows_strip [simp]:
  "list_row cols (strip n) = list_row cols n" "tree_row cols (strip n) = tree_row cols n" "json_fields (strip n) = json_fields n"
proof -
  show "list_row cols (strip n) = list_row cols n" "tree_row cols (strip n) = tree_row cols n"
    unfolding list_row_def tree_row_def cell_strip by simp_all
  show "json_fields (strip n) = json_fields n" unfolding json_fields_def by (simp add: strip_def)
qed

lemma print_list_spec:
  assumes sh: "shape st roots t"
  shows "print_list st roots cols = Some (list_spec cols t)"
proof -
  let ?g = "\<lambda>r. list_row cols (st ! r) @ concat (map (\<lambda>c. list_row cols (st ! c)) (nd_children (st ! r)))"
  have "print_list_dfs (Suc (length st)) st cols r = Some (?g r)" if r: "r \<in> set roots" for r
  proof -
    obtain fuel where f: "length st = Suc fuel" using shape_fuel [OF sh r] by blast
    have "print_list_dfs (Suc fuel) st cols c = Some (list_row cols (st ! c))" if "c \<in> set (nd_children (st ! r))" for c
      using sh r that by (simp add: shape_def)
    then have "concat_opt (\<lambda>c. print_list_dfs (Suc fuel) st cols c) (nd_children (st ! r)) =
        Some (concat (map (\<lambda>c. list_row cols (st ! c)) (nd_children (st ! r))))"
      by (rule concat_opt_map)
    then show ?thesis unfolding f print_list_dfs.simps(2) [of "Suc fuel"] by (simp del: print_list_dfs.simps)
  qed
  then have "print_list st roots cols = Some (header cols @ concat (map ?g roots))"
    unfolding print_list_def by (subst concat_opt_map) simp_all
  moreover have "t = map (view st) roots" using sh by (simp add: shape_def)
  ultimately show ?thesis by (simp add: list_spec_def view_def comp_def)
qed

lemma map_zip_upt: "map (\<lambda>(i, x). g x) (zip [0..<length xs] xs) = map g xs"
  by (rule nth_equalityI) simp_all

lemma marked_map: "marked (map f xs) = map (\<lambda>(l, x). (l, f x)) (marked xs)"
  by (simp add: marked_def zip_map2)

lemma with_commas_map:
  "with_commas (map f xs) = concat (map (\<lambda>(i, x). (if i = 0 then [] else '','' @ nl) @ f x) (zip [0..<length xs] xs))"
  by (auto simp: with_commas_def zip_map2 comp_def case_prod_unfold)

lemma set_zip_upt: "(i, x) \<in> set (zip [0..<length xs] xs) \<Longrightarrow> x \<in> set xs"
  by (rule set_zip_rightD)

lemma print_trees_spec:
  assumes sh: "shape st roots t"
  shows "print_trees st roots cols = Some (tree_spec cols t)"
proof -
  let ?c = "\<lambda>(l, c). ''  '' @ branch l @ '' '' @ tree_row cols (st ! c)"
  let ?g = "\<lambda>r. tree_row cols (st ! r) @ concat (map ?c (marked (nd_children (st ! r))))"
  have root: "print_tree (Suc (length st)) st cols ''  '' l r = Some (concat (map ?c (marked (nd_children (st ! r)))))"
    if r: "r \<in> set roots" for r l
  proof -
    obtain fuel where f: "length st = Suc fuel" using shape_fuel [OF sh r] by blast
    have leaf: "print_tree (Suc fuel) st cols p l' c = Some []" if "c \<in> set (nd_children (st ! r))" for p l' c
      using sh r that by (simp add: shape_def marked_def)
    show ?thesis
      unfolding f print_tree.simps(2) [of "Suc fuel"]
    proof (rule concat_opt_map)
      fix x
      assume "x \<in> set (marked (nd_children (st ! r)))"
      then obtain m c where x: "x = (m, c)" "c \<in> set (nd_children (st ! r))"
        unfolding marked_def by (metis prod.collapse set_zip_rightD)
      show "(case x of (is_last, ch) \<Rightarrow>
          map_option (\<lambda>sub. ''  '' @ branch is_last @ '' '' @ tree_row cols (st ! ch) @ sub)
            (print_tree (Suc fuel) st cols (snprintf 256 (''  '' @ (if l then '' '' else vbar) @ ''  '')) is_last ch)) = Some (?c x)"
        unfolding x(1) prod.case leaf [OF x(2)] by simp
    qed
  qed
  have "concat_opt (\<lambda>(i, r). map_option (\<lambda>sub. tree_row cols (st ! r) @ sub)
      (print_tree (Suc (length st)) st cols ''  '' (i = length roots - 1 \<and> nd_children (st ! r) = []) r)) (zip [0..<length roots] roots) =
      Some (concat (map ?g roots))"
    unfolding map_zip_upt [of ?g roots, symmetric]
  proof (rule concat_opt_map)
    fix x
    assume "x \<in> set (zip [0..<length roots] roots)"
    then obtain i r where x: "x = (i, r)" "r \<in> set roots" by (metis prod.collapse set_zip_rightD)
    show "(case x of (i, r) \<Rightarrow> map_option (\<lambda>sub. tree_row cols (st ! r) @ sub)
        (print_tree (Suc (length st)) st cols ''  '' (i = length roots - 1 \<and> nd_children (st ! r) = []) r)) =
        Some (case x of (i, r) \<Rightarrow> ?g r)"
      unfolding x(1) prod.case root [OF x(2)] by simp
  qed
  moreover have "t = map (view st) roots" using sh by (simp add: shape_def)
  ultimately show ?thesis
    by (simp add: print_trees_def tree_spec_def view_def comp_def marked_map case_prod_unfold del: print_tree.simps)
qed

lemma print_json_spec:
  assumes sh: "shape st roots t"
  shows "print_json st roots = Some (json_spec t)"
proof -
  let ?leaf = "\<lambda>c. indent 2 @ json_fields (st ! c) @ ''}''"
  let ?sub = "\<lambda>r. concat (map (\<lambda>(i, c). (if i = 0 then [] else '','' @ nl) @ ?leaf c)
      (zip [0..<length (nd_children (st ! r))] (nd_children (st ! r))))"
  let ?g = "\<lambda>r. indent 1 @ json_fields (st ! r) @
      (if nd_children (st ! r) = [] then [] else '',\"children\":['' @ ?sub r @ nl @ indent 1 @ '']'') @ ''}''"
  have root: "emit_json (Suc (length st)) st 1 True r = Some (?g r)" if r: "r \<in> set roots" for r
  proof -
    obtain fuel where f: "length st = Suc fuel" using shape_fuel [OF sh r] by blast
    have leaf: "emit_json (Suc fuel) st 2 b c = Some ((if b then [] else '','' @ nl) @ ?leaf c)"
      if "c \<in> set (nd_children (st ! r))" for b c
      using sh r that by (simp add: shape_def)
    have "concat_opt (\<lambda>(i, c). emit_json (Suc fuel) st (1 + 1) (i = 0) c)
        (zip [0..<length (nd_children (st ! r))] (nd_children (st ! r))) = Some (?sub r)"
    proof (rule concat_opt_map)
      fix x
      assume "x \<in> set (zip [0..<length (nd_children (st ! r))] (nd_children (st ! r)))"
      then obtain i c where x: "x = (i, c)" "c \<in> set (nd_children (st ! r))" by (metis prod.collapse set_zip_rightD)
      show "(case x of (i, c) \<Rightarrow> emit_json (Suc fuel) st (1 + 1) (i = 0) c) =
          Some (case x of (i, c) \<Rightarrow> (if i = 0 then [] else '','' @ nl) @ ?leaf c)"
        unfolding x(1) prod.case one_add_one leaf [OF x(2)] by (rule refl)
    qed
    then show ?thesis unfolding f emit_json.simps(2) [of "Suc fuel"] by (simp del: emit_json.simps)
  qed
  have "concat_opt (\<lambda>(i, r). map_option (\<lambda>t. (if i = 0 then [] else '','' @ nl) @ t) (emit_json (Suc (length st)) st 1 True r))
      (zip [0..<length roots] roots) = Some (with_commas (map ?g roots))"
    unfolding with_commas_map
  proof (rule concat_opt_map)
    fix x
    assume "x \<in> set (zip [0..<length roots] roots)"
    then obtain i r where x: "x = (i, r)" "r \<in> set roots" by (metis prod.collapse set_zip_rightD)
    show "(case x of (i, r) \<Rightarrow> map_option (\<lambda>t. (if i = 0 then [] else '','' @ nl) @ t) (emit_json (Suc (length st)) st 1 True r)) =
        Some (case x of (i, r) \<Rightarrow> (if i = 0 then [] else '','' @ nl) @ ?g r)"
      unfolding x(1) prod.case root [OF x(2)] option.map by (rule refl)
  qed
  moreover have "t = map (view st) roots" using sh by (simp add: shape_def)
  moreover have "?g r = (case view st r of (n, cs) \<Rightarrow> indent 1 @ json_fields n @
      (if cs = [] then [] else '',\"children\":['' @ with_commas (map (\<lambda>c. indent 2 @ json_fields c @ ''}'') cs) @ nl @ indent 1 @ '']'') @ ''}'')" for r
    using with_commas_map [of ?leaf "nd_children (st ! r)"] by (simp add: view_def comp_def)
  ultimately show ?thesis by (simp add: print_json_def json_spec_def comp_def del: emit_json.simps)
qed

lemma node_free_all:
  assumes sh: "shape st roots t"
  shows "\<exists>freed. concat_opt (node_free (Suc (length st)) st) roots = Some freed \<and> mset freed = mset [0..<length st]"
proof -
  let ?g = "\<lambda>r. nd_children (st ! r) @ [r]"
  have "node_free (Suc (length st)) st r = Some (?g r)" if r: "r \<in> set roots" for r
  proof -
    obtain fuel where f: "length st = Suc fuel" using shape_fuel [OF sh r] by blast
    have "node_free (Suc fuel) st c = Some [c]" if "c \<in> set (nd_children (st ! r))" for c
      using sh r that by (simp add: shape_def)
    then have "concat_opt (\<lambda>c. node_free (Suc fuel) st c) (nd_children (st ! r)) = Some (concat (map (\<lambda>c. [c]) (nd_children (st ! r))))"
      by (rule concat_opt_map)
    then show ?thesis unfolding f node_free.simps(2) [of "Suc fuel"] by (simp del: node_free.simps)
  qed
  then have "concat_opt (node_free (Suc (length st)) st) roots = Some (concat (map ?g roots))" by (rule concat_opt_map)
  moreover have "mset (concat (map ?g roots)) = mset (tree_ids st roots)" by (simp add: mset_concat_map mset_tree_ids)
  ultimately show ?thesis using sh by (simp add: shape_def)
qed

section \<open>The program\<close>

lemma mlsblk_run:
  assumes "qsort_ok qsort" and "opt_loop mlsblk_opt (getopt_bsd mlsblk_opts None (tl argv)) no_options = Inr opts"
    and "choose_columns opts = Some cols" and "de_list env = Some pl"
    and "map_of pl ''AllDisksAndPartitions'' = Some (Pl_array all)" and "listing_ok all"
  shows "\<exists>freed. mlsblk_main qsort env argv =
      Some (0, nodes_text opts cols (map_tree (completed opts env) (sorted_tree (spec_tree all))), freed) \<and>
    mset freed = mset [0..<length (tree_names (spec_tree all))]"
proof -
  let ?t = "sorted_tree (spec_tree all)"
  obtain st roots where b: "build_tree qsort pl = Some (Inr (st, roots))" "shape st roots ?t" "distinct (map nd_name st)"
    using build_tree_shape [OF assms(1,5,6)] by blast
  obtain st1 where m: "fill_mountpoints (de_mounts env) roots st = Some st1" "shape st1 roots (map_tree (mounted (de_mounts env)) ?t)"
    using fill_mountpoints_shape [OF b(2,3)] by blast
  let ?st2 = "if opt_f opts then map (fill_info (de_info env)) st1 else st1"
  have c: "completed opts env = (if opt_f opts then \<lambda>n. fill_info (de_info env) (mounted (de_mounts env) n) else mounted (de_mounts env))"
    by (simp add: completed_def fun_eq_iff)
  have sh: "shape ?st2 roots (map_tree (completed opts env) ?t)"
    using shape_map_tree [OF m(2), of "fill_info (de_info env)"] m(2)
    by (cases "opt_f opts") (simp_all add: fill_info_links map_tree_map_tree c)
  have out: "print_nodes opts cols ?st2 roots = Some (nodes_text opts cols (map_tree (completed opts env) ?t))"
    unfolding print_nodes_def nodes_text_def print_json_spec [OF sh] print_list_spec [OF sh] print_trees_spec [OF sh] by simp
  obtain freed where f: "concat_opt (node_free (Suc (length ?st2)) ?st2) roots = Some freed" "mset freed = mset [0..<length ?st2]"
    using node_free_all [OF sh] by blast
  have len: "length s = length (tree_names t)" if "shape s rs t" for s rs t
    using that shape_names [OF that] by (metis length_map length_upt mset_eq_length shape_def diff_zero)
  have "length (tree_names (map_tree g t)) = length (tree_names t)" for g t
    by (simp add: tree_names_def map_tree_def length_concat comp_def case_prod_unfold)
  moreover have "length (tree_names ?t) = length (tree_names (spec_tree all))"
    by (simp add: tree_names_def sorted_tree_def length_concat sum_mset_sum_list [symmetric] comp_def case_prod_unfold
        image_mset.compositionality)
  ultimately have "length ?st2 = length (tree_names (spec_tree all))" using len [OF sh] by simp
  then show ?thesis
    using assms(2-4) b(1) m(1) out f unfolding mlsblk_main_def Let_def by (simp del: node_free.simps)
qed

text \<open>
  C17: \<open>mlsblk\<close> prints every device once, in order.  On a list of at most 64 disks with the names
  of \<open>diskutil\<close>, numbered below 100, it exits with 0 and prints, in the format asked for, the
  disks in the order of their numbers, each followed by its partitions and volumes in the order
  of theirs.  Every device carries the fields of the list, the last mount of its name and, with
  \<open>-f\<close>, the details; nodes that are shared, linked and sorted in place make no difference.
\<close>

theorem mlsblk_output:
  assumes "qsort_ok qsort" and "opt_loop mlsblk_opt (getopt_bsd mlsblk_opts None (tl argv)) no_options = Inr opts"
    and "choose_columns opts = Some cols" and "de_list env = Some pl"
    and "map_of pl ''AllDisksAndPartitions'' = Some (Pl_array all)" and "listing_ok all"
  shows "map_option (\<lambda>(rc, out, freed). (rc, out)) (mlsblk_main qsort env argv) =
    Some (0, nodes_text opts cols (map_tree (completed opts env) (sorted_tree (spec_tree all))))"
  using mlsblk_run [OF assms] by auto

lemma sample_tree:
  "spec_tree sample_disks =
     [(node_create ''disk12'' 4096 ''part'', []),
      (node_create ''disk2'' 4096 ''part'', [node_create ''disk2s10'' 512 ''part'', node_create ''disk2s9'' 512 ''part''])]"
  by (simp add: spec_tree_def sample_disks_def sample_disk_def devices_def device_id_def cfstr_def spec_disk_def disk_data_def
      part_data_def cfint_def array_of_def content_to_fstype_def is_whole_def node_create_def)

lemma sample_ok: "listing_ok sample_disks"
proof -
  have d: "dec 12 = ''12''" "dec 2 = ''2''" "dec 10 = ''10''" "dec 9 = ''9''" by code_simp+
  have "well_named (spec_tree sample_disks)"
    unfolding sample_tree well_named_def
    by (auto simp: node_create_def d intro: exI [of _ 12] exI [of _ 2] exI [of _ 10] exI [of _ 9])
  moreover have "parts_are_dicts sample_disks" by (auto simp: parts_are_dicts_def sample_disks_def sample_disk_def array_of_def)
  ultimately show ?thesis by (simp add: listing_ok_def sample_tree tree_names_def node_create_def)
qed

lemma sample_sorted:
  "sorted_tree (spec_tree sample_disks) =
     [(node_create ''disk2'' 4096 ''part'', [node_create ''disk2s9'' 512 ''part'', node_create ''disk2s10'' 512 ''part'']),
      (node_create ''disk12'' 4096 ''part'', [])]"
  unfolding sample_tree sorted_tree_def
  by (simp add: number_of_def node_create_def trailing_number_def strtoul10_def dec_val_def)

lemma sample_args:
  "opt_loop mlsblk_opt (getopt_bsd mlsblk_opts None (tl [''mlsblk'', ''-lo'', ''NAME,Mountpoint''])) no_options =
     Inr (no_options\<lparr>opt_list := True, opt_o := Some ''NAME,Mountpoint''\<rparr>)"
  "choose_columns (no_options\<lparr>opt_list := True, opt_o := Some ''NAME,Mountpoint''\<rparr>) = Some [COL_NAME, COL_MOUNTPOINT]"
  by code_simp+

theorem mlsblk_output_witness:
  "map_option (\<lambda>(rc, out, freed). (rc, out)) (mlsblk_main sort_by sample_disk_env [''mlsblk'', ''-lo'', ''NAME,Mountpoint'']) =
   Some (0, ''NAME MOUNTPOINT'' @ nl @ ''disk2 '' @ nl @ ''disk2s9 /data'' @ nl @ ''disk2s10 '' @ nl @ ''disk12 '' @ nl)"
  using mlsblk_output [OF sort_by_ok sample_args, of sample_disk_env "[(''AllDisksAndPartitions'', Pl_array sample_disks)]" sample_disks]
  by (simp add: sample_disk_env_def sample_ok sample_sorted map_tree_def completed_def no_options_def mounted_def set_mount_def
      node_create_def nodes_text_def list_spec_def header_def list_row_def)

text \<open>
  C18: \<open>mlsblk\<close> frees every node exactly once.  The nodes are shared between the tree and the flat
  array; freeing the trees below the roots reaches each node of the array once, so that none is
  freed twice and none is lost.
\<close>

theorem mlsblk_frees_all:
  assumes "qsort_ok qsort" and "opt_loop mlsblk_opt (getopt_bsd mlsblk_opts None (tl argv)) no_options = Inr opts"
    and "choose_columns opts = Some cols" and "de_list env = Some pl"
    and "map_of pl ''AllDisksAndPartitions'' = Some (Pl_array all)" and "listing_ok all"
  shows "\<exists>rc out freed. mlsblk_main qsort env argv = Some (rc, out, freed) \<and> distinct freed \<and>
    set freed = {..<length (tree_names (spec_tree all))}"
proof -
  obtain out freed where f: "mlsblk_main qsort env argv = Some (0, out, freed)"
      "mset freed = mset [0..<length (tree_names (spec_tree all))]" using mlsblk_run [OF assms] by blast
  then have "distinct freed" "set freed = {..<length (tree_names (spec_tree all))}"
    using mset_eq_imp_distinct_iff [OF f(2)] mset_eq_setD [OF f(2)] by (simp_all add: lessThan_atLeast0)
  then show ?thesis using f(1) by blast
qed

theorem mlsblk_frees_all_witness:
  "\<exists>rc out freed. mlsblk_main sort_by sample_disk_env [''mlsblk'', ''-lo'', ''NAME,Mountpoint''] = Some (rc, out, freed) \<and>
     distinct freed \<and> set freed = {..<4}"
  using mlsblk_frees_all [OF sort_by_ok sample_args, of sample_disk_env "[(''AllDisksAndPartitions'', Pl_array sample_disks)]" sample_disks]
  by (simp add: sample_disk_env_def sample_ok sample_tree tree_names_def numeral_eq_Suc)

section \<open>Columns and sizes\<close>

lemma strtok_word: "CHR '','' \<notin> set w \<Longrightarrow> strtok_commas cur (w @ rest) = strtok_commas (cur @ w) rest"
  by (induction w arbitrary: cur) auto

lemma strtok_join:
  "\<forall>w \<in> set ws. w \<noteq> [] \<and> CHR '','' \<notin> set w \<Longrightarrow> strtok_commas [] (join_commas ws) = ws"
proof (induction ws rule: join_commas.induct)
  case (2 w)
  then show ?case using strtok_word [of w "[]" "[]"] by simp
next
  case (3 w v vs)
  then show ?case using strtok_word [of w "[]" "CHR '','' # join_commas (v # vs)"] by simp
qed simp

lemma add_columns_all:
  "length cols \<le> 32 \<Longrightarrow>
   add_columns toks cols =
     (if length (cols @ List.map_filter find_col toks) \<le> 32 then Some (cols @ List.map_filter find_col toks) else None)"
proof (induction toks arbitrary: cols)
  case (Cons tok toks)
  show ?case
  proof (cases "find_col tok")
    case (Some c)
    then show ?thesis using Cons.IH [of "cols @ [c]"] Cons.prems by (auto simp: List.map_filter_simps)
  qed (use Cons in \<open>simp add: List.map_filter_simps\<close>)
qed (simp add: List.map_filter_simps)

text \<open>
  The columns of \<open>-o\<close> are those that were named.  From words between commas the known ones
  are taken in order, whatever the case of their letters, and the others are left out; with
  more than 32 the option is refused.  The names of the header are read back as their columns.
\<close>

theorem parse_columns_spec:
  assumes "\<forall>w \<in> set ws. w \<noteq> [] \<and> CHR '','' \<notin> set w"
  shows "parse_columns (join_commas ws) =
      (if length (List.map_filter find_col ws) \<le> 32 then Some (List.map_filter find_col ws) else None) \<and>
    find_col (col_name c) = Some c \<and> find_col (map lower_char (col_name c)) = Some c"
proof -
  have "find_col (col_name c) = Some c \<and> find_col (map lower_char (col_name c)) = Some c" 
    by (cases c) (simp_all add: find_col_def all_cols_def strcasecmp_eq_def lower_char_def char_of_eq_iff)
  then show ?thesis using add_columns_all [of "[]" ws] by (simp add: parse_columns_def strtok_join [OF assms])
qed

theorem parse_columns_spec_witness:
  "parse_columns (join_commas [''size'', ''bogus'', ''Name'']) = Some [COL_SIZE, COL_NAME]"
proof -
  have "List.map_filter find_col [''size'', ''bogus'', ''Name''] = [COL_SIZE, COL_NAME]" by code_simp
  then show ?thesis using parse_columns_spec [of "[''size'', ''bogus'', ''Name'']"] by simp
qed

lemma size_tenths_bound: "double_of n \<le> c * 1024 ^ size_unit (double_of n) 0 \<Longrightarrow> size_tenths n \<le> 10 * c"
  unfolding size_tenths_def Let_def by (rule div_round_bound) simp_all

lemma size_tenths_max: "n < 2 ^ 64 \<Longrightarrow> size_tenths n \<le> 163840"
proof -
  assume n: "n < 2 ^ 64"
  let ?u = "size_unit (double_of n) 0"
  have "double_of n \<le> 16384 * 1024 ^ ?u"
    using size_unit_range [of 0 "double_of n"] double_of_bound [OF n, of "2 ^ 53"] n by (cases "?u = 5") auto
  then show ?thesis using size_tenths_bound [of n 16384] by simp
qed

lemma size_text_length: "size_tenths n < 10 ^ Suc k \<Longrightarrow> 0 < k \<Longrightarrow> length (size_text n) \<le> k + 3"
proof -
  assume a: "size_tenths n < 10 ^ Suc k" "0 < k"
  have "length (dec (size_tenths n div 10)) \<le> k" using a by (intro length_dec) (simp_all add: less_mult_imp_div_less)
  moreover have "length (dec (size_tenths n mod 10)) \<le> 1" by (intro length_dec) simp_all
  ultimately show ?thesis by (simp add: size_text_def)
qed

lemma size_tenths_error:
  assumes "n < 2 ^ 64"
  shows "2 * \<bar>int (size_tenths n) * 1024 ^ size_unit (double_of n) 0 - 10 * int n\<bar> \<le>
    1024 ^ size_unit (double_of n) 0 + (if n < 2 ^ 53 then 0 else 20480)"
proof -
  let ?u = "size_unit (double_of n) 0"
  have "2 * \<bar>int (size_tenths n) * 1024 ^ ?u - 10 * int (double_of n)\<bar> \<le> 1024 ^ ?u"
    using div_round_error [of "1024 ^ ?u" "10 * double_of n"] by (simp add: size_tenths_def Let_def)
  moreover have "2 * \<bar>int (double_of n) - int n\<bar> \<le> (if n < 2 ^ 53 then 0 else 2048)"
    using double_of_error [OF assms] double_of_exact [of n] by simp
  moreover have "2 * \<bar>x - 10 * m\<bar> \<le> w + 10 * e" if "2 * \<bar>x - 10 * d\<bar> \<le> w" "2 * \<bar>d - m\<bar> \<le> e" for x d m w e :: int
    using that by arith
  ultimately have "2 * \<bar>int (size_tenths n) * 1024 ^ ?u - 10 * int n\<bar> \<le> 1024 ^ ?u + 10 * (if n < 2 ^ 53 then 0 else 2048)" by blast
  then show ?thesis by (simp split: if_splits)
qed

text \<open>
  C39: sizes are printed right.  The text is a number with one decimal and a unit from bytes to
  PiB; it is the nearest such number up to the rounding of large sizes to a \<open>double\<close>, and the
  unit is the largest that does not exceed the size.  The text has at most 8 characters, so it
  always fits the buffer of the tree; the list, which gives the size of a pointer for that of
  the buffer, prints it whole up to 9999 PiB.
\<close>

theorem fmt_size_correct:
  assumes "n = unat bytes" and "u = size_unit (double_of n) 0"
  shows "fmt_size bytes 32 = dec (size_tenths n div 10) @ ''.'' @ dec (size_tenths n mod 10) @ [''BKMGTP'' ! u] \<and> u \<le> 5 \<and>
    2 * \<bar>int (size_tenths n) * 1024 ^ u - 10 * int n\<bar> \<le> 1024 ^ u + (if n < 2 ^ 53 then 0 else 20480) \<and>
    (n < 2 ^ 53 \<longrightarrow> (u = 0 \<or> 1024 ^ u \<le> n) \<and> (u = 5 \<or> n < 1024 ^ Suc u)) \<and>
    length (fmt_size bytes 32) \<le> 8 \<and> (n \<le> 9999 * 2 ^ 50 \<longrightarrow> fmt_size bytes 8 = fmt_size bytes 32)"
proof -
  have n: "n < 2 ^ 64" using unsigned_less [of bytes] assms(1) by simp
  have u: "u \<le> 5" "u = 0 \<or> 1024 ^ u \<le> double_of n" "u = 5 \<or> double_of n < 1024 ^ Suc u"
    using size_unit_range [of 0 "double_of n"] assms(2) by auto
  have len: "length (size_text n) \<le> 8" using size_text_length [of n 5] size_tenths_max [OF n] by simp
  then have f: "fmt_size bytes 32 = size_text n" by (simp add: fmt_size_def assms(1))
  have seven: "length (size_text n) \<le> 7" if "n \<le> 9999 * 2 ^ 50"
  proof -
    have "double_of n \<le> 9999 * 1024 ^ u"
    proof (cases "u = 5")
      case True
      then show ?thesis using double_of_bound [OF n, of "9999 * 2 ^ 39"] that by simp
    qed (use u(3) in auto)
    then have "size_tenths n \<le> 99990" using size_tenths_bound [of n 9999] assms(2) by simp
    then show ?thesis using size_text_length [of n 4] by simp
  qed
  have "fmt_size bytes 8 = fmt_size bytes 32" if "n \<le> 9999 * 2 ^ 50"
    unfolding f using seven [OF that] by (simp add: fmt_size_def assms(1) snprintf_def)
  moreover have "n < 2 ^ 53 \<longrightarrow> (u = 0 \<or> 1024 ^ u \<le> n) \<and> (u = 5 \<or> n < 1024 ^ Suc u)" using u(2,3) double_of_exact [of n] by auto
  ultimately show ?thesis using u(1) len f size_tenths_error [OF n] assms(2) by (simp add: size_text_def)
qed

theorem fmt_size_correct_witness:
  "fmt_size 1536 32 = ''1.5K'' \<and> fmt_size 1536 8 = ''1.5K''"
proof -
  have u: "size_unit (double_of 1536) 0 = 1" "size_tenths 1536 = 15"
    by (simp_all add: double_of_exact size_tenths_def div_round_def size_unit.simps)
  have d: "dec 1 = ''1''" "dec 5 = ''5''" by code_simp+
  show ?thesis using fmt_size_correct [of 1536 1536 1] u d by simp
qed

text \<open>Just below a MiB the rounded number reaches 1024; the largest sizes lose their unit in the list.\<close>

lemma size_of_almost_a_mib: "fmt_size 1048575 32 = ''1024.0K''"
proof -
  have "size_unit (double_of 1048575) 0 = 1" "size_tenths 1048575 = 10240"
    by (simp_all add: double_of_exact size_tenths_def div_round_def size_unit.simps)
  moreover have "dec 1024 = ''1024''" "dec 0 = ''0''" by code_simp+
  ultimately show ?thesis by (simp add: fmt_size_def size_text_def)
qed

text \<open>In a tree the first column is the name, whatever column was asked for, and later names are left out.\<close>

lemma tree_row_ignores_first: "tree_row [COL_SIZE, COL_NAME] n = nd_name n @ nl"
  by (simp add: tree_row_def)

end
