(* ===== verification/Spec2Isabelle.thy ===== *)
theory Spec2Isabelle
  imports Bdfs_Kernel_Props Bdfs_Blend_Props Bdfs_Daemon_Props Bdfs_Netlink Bdfs_Policy_Props Bdfs_Cli_Props
    Bdfs_Policy_Request Bdfs_Life Mlsblk_Props
begin

text \<open>
  Verification of the BTRFS+DwarFS framework (\<open>src/btrfs-dwarfs/\<close>) and of the device lister
  \<open>mlsblk\<close> (\<open>src/compat/mlsblk\<close>).

  The program.  A kernel module keeps a registry of partitions that are backed by DwarFS
  images or by BTRFS, serves the ioctls of \<open>/dev/bdfs_ctl\<close>, and provides the blend file
  system, which shows a writable BTRFS layer above read-only DwarFS layers.  Work that needs
  external tools is announced as netlink events.  A daemon reads the events, turns them into
  jobs, runs the jobs on a pool of worker threads (export, import, mounts, store, snapshot,
  copy-up), and reports a finished copy-up with an ioctl.  Its policy engine scans the
  subvolumes of partitions from time to time and queues exports of idle ones; its Unix socket
  answers status requests and changes the rules of the engine.  The command line tool \<open>bdfs\<close>
  turns its arguments into ioctls and requests to that socket.  \<open>mlsblk\<close> is a program of its
  own, which prints the disks of a macOS system as a tree, a list or JSON.

  The theories, from the bottom up.
  \<^item> \<open>Bdfs_Prelude\<close>: words, error values, lists searched by a predicate, and two interfaces
    as locales: a table searched by key (\<open>keyed_store\<close>) and a table whose entries are numbered
    by a 64-bit counter.  The registry, the image and subvolume tables and the daemon's mount
    table are interpretations of them.
  \<^item> \<open>Bdfs_CLib\<close>: the C string functions the code uses (\<open>snprintf\<close>, \<open>strscpy\<close>, \<open>sscanf\<close>,
    decimal and hexadecimal numbers) with the lemmas that a number printed is read back.
  \<^item> \<open>Bdfs_Types\<close>: \<open>types.h\<close> and \<open>bdfs_ioctl.h\<close> as records.
  \<^item> \<open>Bdfs_Kernel\<close>, \<open>Bdfs_Dwarfs_Part\<close>, \<open>Bdfs_Btrfs_Part\<close>, \<open>Bdfs_Registry\<close>: module state,
    \<open>bdfs_emit_event\<close>, the list ioctls, the two backends (\<open>bdfs_dwarfs_part.c\<close>,
    \<open>bdfs_btrfs_part.c\<close>), registration and removal (\<open>bdfs_main.c\<close>).
  \<^item> \<open>Bdfs_Vfs\<close>: what the blend file system uses of the kernel's VFS, as a record of functions
    (the parameter \<open>vfs\<close>), and the instance \<open>tree_vfs\<close> on which concrete instances evaluate.
  \<^item> \<open>Bdfs_Blend\<close>, \<open>Bdfs_Blend_Ops\<close>, \<open>Bdfs_Copyup\<close>, \<open>Bdfs_Readdir\<close>, \<open>Bdfs_Blend_Mount\<close>:
    \<open>bdfs_blend.c\<close> in the order of its parts (inodes and lookup; create, remove, rename, link
    and write; copy-up and its protocol as a step relation; directory listings; superblocks,
    the mount ioctls and path resolution).
  \<^item> \<open>Bdfs_Main\<close>: the dispatch of ioctls, module init and exit, and the invariant of the module.
  \<^item> \<open>Bdfs_Sys\<close>: the daemon's view of the system.  Handlers are programs in the state monad that
    record each call with its answer; the answers are an arbitrary function of the history, so
    a theorem holds whatever the tools do.  \<open>wp\<close> is the calculus for such programs.
  \<^item> \<open>Bdfs_Exec\<close>, \<open>Bdfs_Jobs\<close>: \<open>bdfs_exec.c\<close> and the nine handlers of \<open>bdfs_jobs.c\<close>.
  \<^item> \<open>Bdfs_Daemon\<close>: jobs, configuration defaults, mount table, and the queue with its worker
    pool as a step relation (\<open>bdfs_daemon.c\<close>).
  \<^item> \<open>Bdfs_Netlink\<close>: \<open>bdfs_netlink.c\<close>, from events to jobs, and the lemmas that read back the
    messages that the kernel prints.
  \<^item> \<open>Bdfs_Policy\<close>: \<open>bdfs_policy.c\<close>, the rules, the tests of age, name and size, the scan with
    its two list calls, the thread, and a specification of the jobs that a scan queues.  The
    rules are another interpretation of the two interfaces.
  \<^item> \<open>Bdfs_Socket\<close>: \<open>bdfs_socket.c\<close>, the daemon's state as a whole and the requests of clients,
    each with its parsing, effect and response.
  \<^item> \<open>Bdfs_Getopt\<close>: \<open>getopt\<close>, \<open>getopt_long\<close> and \<open>strtoull\<close> of the C library, as the programs use them.
  \<^item> \<open>Bdfs_Life\<close>: the daemon process (\<open>bdfs_daemon.c\<close>): options, start-up with the creation of
    the sockets, and the event loop, the policy thread, the workers and shutdown as one step
    relation, with its invariant and properties.
  \<^item> \<open>Bdfs_Cli\<close>, \<open>Bdfs_Cli_Main\<close>: \<open>userspace/cli\<close>.  A command is its table of options, the
    \<open>switch\<close> over them, and the function that checks the result and makes the request; it gives
    the exit code and what is printed with \<open>--json\<close>.
  \<^item> \<open>Mlsblk\<close>: \<open>mlsblk.c\<close>.  Nodes are indices into the flat array of all nodes, which the tree
    shares; linking, sorting and filling change the array.  \<open>Mlsblk_Names\<close>: the order of names,
    what \<open>qsort\<close> promises, and the rounding of sizes.  \<open>Mlsblk_Tree\<close>: the specification on the
    property list, and the store that is built from it.  \<open>Mlsblk_Props\<close>: the properties.
  \<^item> \<open>Bdfs_Kernel_Props\<close>, \<open>Bdfs_Blend_Props\<close>, \<open>Bdfs_Daemon_Props\<close>, \<open>Bdfs_Policy_Props\<close>,
    \<open>Bdfs_Cli_Props\<close>, \<open>Bdfs_Policy_Request\<close> and this theory: the properties, each with a concrete
    instance where it has hypotheses.

  How state and errors are modelled.  A handler of the module takes the module state and
  returns a result and the new state; the result is a value, an errno, or \<open>Oops\<close>, which
  stands for a use of a null pointer or of private data of the wrong type.  Allocation
  failures, faults on user memory and random bytes are arguments (\<open>kenv\<close>).  Locks are not in
  the state: the critical sections are the steps.  Counters and identifiers are machine words.
  In the policy engine, the socket and the tool, a read past a buffer or past the arguments is
  the value \<open>None\<close>; what stat, the clock, pattern matching, the control device and the daemon
  answer are functions in the records \<open>policy_env\<close>, \<open>client_env\<close> and \<open>cli_env\<close>.

  What the properties show.  For the module: one invariant for all reachable states, exactly
  which ioctls go through a wrong pointer, the effect and the inverse of registration, unique
  identifiers, lists, all-or-nothing init and complete exit.  For the blend file system: lookup
  refines the blended view, writes stay in the upper layer, an open for writing ends in the
  upper layer, pending copy-ups can be completed, listings cover all layers.  For the daemon:
  no job is lost, shutdown drains the queue and ends, the handlers clean up on every path and
  report success only for finished work, and every job ends; start-up succeeds exactly when its
  steps do, a shutdown leaves only jobs that were queued after the last worker had left, and
  the process can end from every state.  For the policy engine: a scan is
  equivalent to its specification, demotes idle subvolumes only, stays in its buffers, and the
  thread stops.  For the tool: all its ioctls have well-formed arguments, UUIDs survive being
  printed and read, lists are complete, and exit codes tell what happened.  For
  \<open>mlsblk\<close>: the output is that of the specification, every node is freed once, and sizes are
  rounded right and fit.  Across components:
  requests survive the trip through the text of an event, a copy-up closes its circle, the
  events of the module do not reach the queue because of their message type, an export asked
  for on the command line becomes the job of that export, and a policy rule reaches the engine
  without its partition.  Some properties state what the code does where it differs from its
  purpose: they are recorded as findings.

  Bounds and fuel.  The copy loops of the store and copy-up jobs take a number of rounds; a run
  that needs more gives \<open>None\<close>.  \<open>run_job_terminates\<close> shows that the size of the file plus the
  number of reads plus one is enough when copies make progress, and \<open>store_shrunk_source_hangs\<close>
  that nothing is enough when they do not.  The policy thread takes a number of rounds;
  \<open>policy_thread_stops\<close> shows that there is always a sufficient one.  The walks of \<open>mlsblk\<close> over
  its tree take the number of nodes plus one, more than the depth of any tree of them;
  \<open>mlsblk_output\<close> includes that they end.  All other recursions are
  structural or on numbers that decrease.

  Not modelled.  The VFS, the backing file systems and the external tools (parameters); what
  the tool prints for people; running \<open>diskutil\<close> and parsing its property lists, and failing
  allocations in \<open>mlsblk\<close>; the vendored copy of Linux \<open>fs/btrfs\<close> under \<open>src/btrfs-devel\<close>, which
  the framework reaches through the VFS and the \<open>btrfs\<close> tool only; the shell and Go programs of
  the other directories, which drive virtual machines.
\<close>

section \<open>From the kernel to the daemon and back\<close>

text \<open>Inode 1 is a file \<open>u\<close> of the lower layer, which also exists at \<open>/u\<close>.\<close>

definition sample_request :: "tree_fs bstate" where
  "sample_request = sample_state\<lparr>inodes := [1 \<mapsto> lower_inode 6 [''u'']]\<rparr>"

lemma sample_request_inv: "blend_inv sample_request"
  by (auto simp: sample_request_def sample_defs blend_inv_def table_refs_def inode_ok_def started_def quiet_init_def
      bdfs_init_def bdfs_blend_init_def module_loaded_def)

lemma export_emits:
  assumes "bdfs_dwarfs_export env arg s = (Inr image_id, s')" "event_delivered env s"
  shows "nl_out s' = nl_out s @ [\<lparr>nlm_type = NLMSG_DONE, nlm_event =
    \<lparr>evt_type = BDFS_EVT_SNAPSHOT_EXPORTED, evt_flags = 0, evt_partition_uuid = ex_partition_uuid arg,
     evt_object_id = image_id, evt_message = strscpy BDFS_MSG_MAX (export_event_msg arg),
     evt_timestamp_ns = ktime_ns env\<rparr>\<rparr>]"
  using assms
  by (auto simp: bdfs_dwarfs_export_def emit_event_out Let_def split: if_splits option.splits part_priv.splits)

lemma with_part_delivered: "event_delivered quiet_env (with_part t fs)"
  by (simp add: event_delivered_def with_part_def bdfs_register_partition_def Let_def registry_add_def
      split: option.split sum.split)

lemma trigger_backing: "backing (snd (trigger_copyup_begin v env bmo i s)) = backing s"
  by (simp add: trigger_copyup_begin_def bdfs_copyup_register_def ihold_def Let_def split: option.split)

lemma netlink_done_ignored:
  "\<forall>m \<in> set ms. nlm_type m = NLMSG_DONE \<Longrightarrow> netlink_messages alloc ms d = d"
  by (cases ms) auto

text \<open>
  C26: no event of the kernel module reaches the daemon's job queue.  Every message that the
  module multicasts has the type that ends a dump, on which the daemon's loop stops before
  it looks at the event: whatever messages of a reachable module a datagram holds, the
  queue is left as it was.
\<close>

theorem kernel_events_dropped:
  assumes "reachable v ie fs s" and "set ms \<subseteq> set (nl_out s)"
  shows "bdfs_netlink_loop alloc (Some ms) d = d"
proof -
  have "nl_out (module_loaded fs) = []" by (simp add: module_loaded_def)
  then have "sends_done (snd (bdfs_init ie (module_loaded fs)))"
    by (auto simp: sends_done_def bdfs_init_def bdfs_blend_init_def Let_def split: option.split)
  then have "sends_done s" using assms(1) module_reach_done unfolding reachable_def by blast
  then show ?thesis
    using assms(2) by (auto simp: bdfs_netlink_loop_def sends_done_def intro!: netlink_done_ignored)
qed

theorem kernel_events_dropped_witness:
  "nl_out (with_image ([] :: tree_fs)) \<noteq> [] \<and>
   bdfs_netlink_loop (\<lambda>_. True) (Some (nl_out (with_image ([] :: tree_fs)))) (init_pool 4) = init_pool 4"
  using kernel_events_dropped [OF with_image_reachable [of tree_vfs "[]"], of "nl_out (with_image ([] :: tree_fs))"]
    export_emits [OF sample_export_ok with_part_delivered, of "[] :: tree_fs"]
  by simp

text \<open>
  An export request survives its trip through the event's text.  A successful export
  ioctl appends one event to the socket; reading that event gives an export job with the
  partition, the new image's identifier, and the subvolume, image name, compression, flags
  and (for incremental exports) parent of the request, provided the name is one word and
  name and parent fit the message.  The paths and tuning fields of the request are not
  carried over: the job has no image path and no mount point.
\<close>

theorem export_request_becomes_job:
  assumes "bdfs_dwarfs_export env arg s = (Inr image_id, s')" and "event_delivered env s"
    and "scan_word 255 (ex_image_name arg)"
    and "length (ex_image_name arg) + length (ex_parent_snap_path arg) \<le> 166"
  shows "\<exists>evt. nl_out s' = nl_out s @ [\<lparr>nlm_type = NLMSG_DONE, nlm_event = evt\<rparr>] \<and>
    event_job evt = Some
      \<lparr>job_partition_uuid = ex_partition_uuid arg, job_object_id = image_id,
       job_body = BDFS_JOB_EXPORT_TO_DWARFS (zero_export_job\<lparr>
         xj_subvol_id := ex_btrfs_subvol_id arg, xj_image_name := ex_image_name arg,
         xj_compression := ex_compression arg, xj_flags := ex_flags arg,
         xj_parent_snap_path :=
           (if and (ex_flags arg) BDFS_EXPORT_INCREMENTAL \<noteq> 0 then ex_parent_snap_path arg else [])\<rparr>)\<rparr>"
proof -
  let ?evt = "\<lparr>evt_type = BDFS_EVT_SNAPSHOT_EXPORTED, evt_flags = 0, evt_partition_uuid = ex_partition_uuid arg,
      evt_object_id = image_id, evt_message = strscpy BDFS_MSG_MAX (export_event_msg arg),
      evt_timestamp_ns = ktime_ns env\<rparr>"
  have "nl_out s' = nl_out s @ [\<lparr>nlm_type = NLMSG_DONE, nlm_event = ?evt\<rparr>]"
    by (rule export_emits [OF assms(1,2)])
  then show ?thesis using export_msg_job [OF assms(3,4), of ?evt] by auto
qed

theorem export_request_becomes_job_witness:
  "\<exists>evt j. nl_out (with_image ([] :: tree_fs)) =
       nl_out (with_part BDFS_PART_DWARFS_BACKED ([] :: tree_fs)) @ [\<lparr>nlm_type = NLMSG_DONE, nlm_event = evt\<rparr>] \<and>
     event_job evt = Some j \<and> job_partition_uuid j = sample_uuid \<and> job_object_id j = 1"
  using export_request_becomes_job [OF sample_export_ok [of "[] :: tree_fs"] with_part_delivered]
  by (fastforce simp: sample_export_def scan_word_def is_space_def)

text \<open>
  C3: the copy-up protocol closes the circle.  A request on an inode puts an entry in the
  pending table and one event on the socket; reading the event gives a copy-up job with the
  two paths of the request; and the completion that this job sends when it succeeds, if the
  upper path then resolves, marks exactly the inode of the request as upper, at that path,
  and releases its waiters.
\<close>

theorem copyup_request_roundtrip:
  assumes "blend_inv s" and "inodes s i = Some bi" and "\<not> kzalloc_fail env 3" and "event_delivered env s"
    and "copyup_lower_path v bi (backing s) = lower" and "copyup_upper_path v env bm bi (backing s) = Some upper"
    and "scan_word 4095 lower" and "scan_word 4095 upper" and "CHR ''='' \<notin> set lower"
    and "length lower + length upper \<le> 228"
    and "trigger_copyup_begin v env (Some bm) i s = (r, s1)"
    and "\<not> copy_from_user_fail env'" and "kern_path v upper (backing s1) = Inr p"
  shows "\<exists>evt j bi'. nl_out s1 = nl_out s @ [\<lparr>nlm_type = NLMSG_DONE, nlm_event = evt\<rparr>] \<and>
    event_job evt = Some (bdfs_job_alloc (BDFS_JOB_PROMOTE_COPYUP j)) \<and>
    pj_lower_path j = lower \<and> pj_upper_path j = upper \<and>
    fst (bdfs_copyup_complete v env' (copyup_complete_arg j) s1) = Inr () \<and>
    inodes (snd (bdfs_copyup_complete v env' (copyup_complete_arg j) s1)) i = Some bi' \<and>
    bi_is_upper bi' \<and> bi_copyup_done bi' = 1 \<and> bi_real_path bi' = Some p"
proof -
  let ?evt = "\<lparr>evt_type = BDFS_EVT_COPYUP_NEEDED, evt_flags = 0, evt_partition_uuid = bm_btrfs_uuid bm,
      evt_object_id = ri_ino (bi_attr bi), evt_message = strscpy BDFS_MSG_MAX (copyup_event_msg lower upper),
      evt_timestamp_ns = ktime_ns env\<rparr>"
  let ?j = "\<lparr>pj_btrfs_uuid = bm_btrfs_uuid bm, pj_inode_no = ri_ino (bi_attr bi),
      pj_lower_path = lower, pj_upper_path = upper\<rparr>"
  let ?reg = "bdfs_copyup_register env (bm_btrfs_uuid bm) (ri_ino (bi_attr bi)) i s"
  let ?e = "\<lparr>cu_btrfs_uuid = bm_btrfs_uuid bm, cu_inode_no = ri_ino (bi_attr bi), cu_inode = i\<rparr>"
  have s1: "s1 = bdfs_emit_event env BDFS_EVT_COPYUP_NEEDED (Some (bm_btrfs_uuid bm)) (ri_ino (bi_attr bi))
      (Some (copyup_event_msg lower upper)) ?reg"
    using assms(2,5,6,11) by (simp add: trigger_copyup_begin_def Let_def)
  have reg: "nl_out ?reg = nl_out s" "event_delivered env ?reg" "inodes ?reg i = Some (bi\<lparr>bi_count := Suc (bi_count bi)\<rparr>)"
    "copyup_table ?reg = ?e # copyup_table s"
    using assms(2-4) by (simp_all add: bdfs_copyup_register_def ihold_def event_delivered_def Let_def)
  have out: "nl_out s1 = nl_out s @ [\<lparr>nlm_type = NLMSG_DONE, nlm_event = ?evt\<rparr>]"
    using reg by (simp add: s1 emit_event_out)
  have arg: "copyup_complete_arg ?j = \<lparr>cc_btrfs_uuid = bm_btrfs_uuid bm, cc_inode_no = ri_ino (bi_attr bi), cc_upper_path = upper\<rparr>"
    using assms(10) by (simp add: copyup_complete_arg_def)
  have inv: "blend_inv s1"
    using trigger_begin_inv [OF assms(1), of v env "Some bm" i] assms(11) by simp
  have "List.find (copyup_match (bm_btrfs_uuid bm) (ri_ino (bi_attr bi))) (copyup_table s1) = Some ?e"
    by (simp add: s1 reg copyup_match_def)
  then have "bdfs_copyup_complete v env' (copyup_complete_arg ?j) s1 =
      (Inr (), s1\<lparr>copyup_table := remove_first (copyup_match (bm_btrfs_uuid bm) (ri_ino (bi_attr bi))) (copyup_table s1),
       inodes := (inodes s1)(i \<mapsto> bi\<lparr>bi_real_path := Some p, bi_is_upper := True, bi_copyup_done := 1\<rparr>)\<rparr>)"
    using complete_copyup_effect [OF inv assms(12), of v "copyup_complete_arg ?j" p ?e "bi\<lparr>bi_count := Suc (bi_count bi)\<rparr>"]
      assms(13) reg(3) by (simp add: arg s1)
  then show ?thesis
    using out copyup_msg_job [OF assms(7-10), of ?evt]
    by (intro exI [of _ ?evt] exI [of _ ?j]) simp
qed

theorem copyup_request_roundtrip_witness:
  "\<exists>j bi'. inodes (snd (bdfs_copyup_complete tree_vfs quiet_env (copyup_complete_arg j)
       (snd (trigger_copyup_begin tree_vfs quiet_env (Some sample_bm) 1 sample_request)))) 1 = Some bi' \<and>
     pj_lower_path j = ''/u'' \<and> pj_upper_path j = ''//u'' \<and> bi_is_upper bi' \<and> bi_copyup_done bi' = 1"
proof -
  let ?bi = "lower_inode 6 [''u'']"
  let ?p = "\<lparr>p_mnt = mount_of 0, p_dentry = \<lparr>d_sb = 0, d_names = [''u'']\<rparr>\<rparr>"
  have st: "inodes sample_request 1 = Some ?bi" "backing sample_request = sample_fs" "event_delivered quiet_env sample_request"
    by (simp_all add: sample_request_def sample_state_def event_delivered_def)
  have lower: "copyup_lower_path tree_vfs ?bi (backing sample_request) = ''/u''"
    by (simp add: copyup_lower_path_def sample_defs)
  have upper: "copyup_upper_path tree_vfs quiet_env sample_bm ?bi (backing sample_request) = Some ''//u''"
    by (simp add: copyup_upper_path_def sample_defs rel_path_spec path_fits_def)
  have words: "scan_word 4095 ''/u''" "scan_word 4095 ''//u''" by (simp_all add: scan_word_def is_space_def)
  have path: "kern_path tree_vfs ''//u'' (backing (snd (trigger_copyup_begin tree_vfs quiet_env (Some sample_bm) 1 sample_request))) = Inr ?p"
    by (simp add: trigger_backing st tree_path_lookup_def tree_lookup_def path_names_def sample_fs_def root_of_def)
  from copyup_request_roundtrip [OF sample_request_inv st(1) _ st(3) lower upper words _ _ surjective_pairing quiet_env_simps(1) path]
  show ?thesis by simp blast
qed

section \<open>From the command line to the daemon\<close>




end
